theory Spec2Isabelle
  imports Main "HOL-Library.Word" "HOL-Library.Monad_Syntax"
begin

unbundle bit_operations_syntax

section \<open>Machine types, pointers and memory\<close>

text \<open>
  The embedding follows \<^verbatim>\<open>hap.c\<close> on an LP64 platform (the plugin is an Xcode
  project): \<^verbatim>\<open>unsigned int\<close> and \<^verbatim>\<open>uint32_t\<close> are 32-bit words, \<^verbatim>\<open>unsigned long\<close>
  and \<^verbatim>\<open>size_t\<close> are 64-bit words, and arithmetic wraps as the words do.

  A buffer is the list of the bytes the caller really owns. A read-only pointer into
  the input is the list of the bytes from that address to the end of the buffer, so
  that \<^verbatim>\<open>p + k\<close> is \<open>drop k p\<close>. The length arguments of the API stay separate
  arguments, as in C. An access outside a list is undefined behaviour in C; the
  model makes it a value of its own (\<open>Out_Of_Bounds\<close>, or \<open>None\<close> for the API
  functions) instead of inventing a byte.
\<close>

type_synonym uint8_t = "8 word"
type_synonym uint32_t = "32 word"
type_synonym size_t = "64 word"

datatype 'a ptr = NULL | Ptr 'a

definition load :: "uint8_t list \<Rightarrow> nat \<Rightarrow> uint8_t list option" where
  "load mem n = (if n \<le> length mem then Some (take n mem) else None)"

definition store :: "uint8_t list \<Rightarrow> nat \<Rightarrow> uint8_t list \<Rightarrow> uint8_t list option" where
  "store mem off bytes =
     (if off + length bytes \<le> length mem
      then Some (take off mem @ bytes @ drop (off + length bytes) mem)
      else None)"

section \<open>The declarations of hap.h and snappy-c.h\<close>

text \<open>
  Modelled from the spec: the header \<^verbatim>\<open>hap.h\<close>, which declares the enumerations
  \<^verbatim>\<open>HapResult\<close>, \<^verbatim>\<open>HapTextureFormat\<close> and \<^verbatim>\<open>HapCompressor\<close>, is not among the
  sources. The spec lists the five result values, "one of three fixed formats", the
  two compressor preferences, and the value 0 as the sentinel for a format that is
  not recognised. An \<^verbatim>\<open>unsigned int\<close> that carries an enumerator is \<open>Enum e\<close>; any
  other number, the sentinel 0 included, is \<open>Unrecognised\<close>.
\<close>

datatype HapResult =
    HapResult_No_Error
  | HapResult_Bad_Arguments
  | HapResult_Bad_Frame
  | HapResult_Buffer_Too_Small
  | HapResult_Internal_Error

datatype HapTextureFormat =
    HapTextureFormat_RGB_DXT1
  | HapTextureFormat_RGBA_DXT5
  | HapTextureFormat_YCoCg_DXT5

datatype HapCompressor = HapCompressorNone | HapCompressorSnappy

datatype 'a c_enum = Enum 'a | Unrecognised

datatype error = Hap HapResult | Out_Of_Bounds

text \<open>
  Snappy and \<^verbatim>\<open>malloc\<close> are external: every function of the model takes them as a
  parameter. \<open>snappy_compress\<close> gets the bytes of its input span and the capacity
  passed through the length pointer. \<open>snappy_uncompressed_length\<close> and
  \<open>snappy_uncompress\<close> get their first two arguments as the code passes them: the
  pointer to the compressed data (the bytes of the input from that address on) and
  the compressed length, whether or not that many bytes are there;
  \<open>snappy_uncompress\<close> gets the capacity passed through the length pointer as well.
  \<open>snappy_compress\<close> and \<open>snappy_uncompress\<close> return the status and the bytes they
  wrote at the destination pointer; the length they report is the number of those
  bytes.
\<close>

datatype snappy_status = SNAPPY_OK | SNAPPY_INVALID_INPUT | SNAPPY_BUFFER_TOO_SMALL

record externals =
  snappy_max_compressed_length :: "size_t \<Rightarrow> size_t"
  snappy_compress :: "uint8_t list \<Rightarrow> size_t \<Rightarrow> snappy_status \<times> uint8_t list"
  snappy_uncompressed_length :: "uint8_t list \<Rightarrow> size_t \<Rightarrow> snappy_status \<times> size_t"
  snappy_uncompress :: "uint8_t list \<Rightarrow> size_t \<Rightarrow> size_t \<Rightarrow> snappy_status \<times> uint8_t list"
  malloc_succeeds :: "size_t \<Rightarrow> bool"

section \<open>Constants and the section header codec\<close>

definition kHapUInt24Max :: size_t where "kHapUInt24Max = 0x00FFFFFF"

definition kHapCompressorNone :: uint32_t where "kHapCompressorNone = 0xA"
definition kHapCompressorSnappy :: uint32_t where "kHapCompressorSnappy = 0xB"
definition kHapCompressorComplex :: uint32_t where "kHapCompressorComplex = 0xC"

definition kHapFormatRGBDXT1 :: uint32_t where "kHapFormatRGBDXT1 = 0xB"
definition kHapFormatRGBADXT5 :: uint32_t where "kHapFormatRGBADXT5 = 0xE"
definition kHapFormatYCoCgDXT5 :: uint32_t where "kHapFormatYCoCgDXT5 = 0xF"

definition kHapSectionDecodeInstructionsContainer :: uint32_t where
  "kHapSectionDecodeInstructionsContainer = 0x01"
definition kHapSectionChunkSecondStageCompressorTable :: uint32_t where
  "kHapSectionChunkSecondStageCompressorTable = 0x02"
definition kHapSectionChunkSizeTable :: uint32_t where
  "kHapSectionChunkSizeTable = 0x03"
definition kHapSectionChunkOffsetTable :: uint32_t where
  "kHapSectionChunkOffsetTable = 0x04"

definition hap_read_3_byte_uint :: "uint8_t list \<Rightarrow> uint32_t option" where
  "hap_read_3_byte_uint buffer =
     (if length buffer < 3 then None
      else Some (ucast (buffer ! 0) + push_bit 8 (ucast (buffer ! 1))
                 + push_bit 16 (ucast (buffer ! 2))))"

definition hap_write_3_byte_uint :: "uint32_t \<Rightarrow> uint8_t list" where
  "hap_write_3_byte_uint v =
     [ucast (v AND 0xFF), ucast (drop_bit 8 v AND 0xFF), ucast (drop_bit 16 v AND 0xFF)]"

definition hap_read_4_byte_uint :: "uint8_t list \<Rightarrow> uint32_t option" where
  "hap_read_4_byte_uint buffer =
     (if length buffer < 4 then None
      else Some (ucast (buffer ! 0) + push_bit 8 (ucast (buffer ! 1))
                 + push_bit 16 (ucast (buffer ! 2)) + push_bit 24 (ucast (buffer ! 3))))"

definition hap_write_4_byte_uint :: "uint32_t \<Rightarrow> uint8_t list" where
  "hap_write_4_byte_uint v =
     [ucast (v AND 0xFF), ucast (drop_bit 8 v AND 0xFF), ucast (drop_bit 16 v AND 0xFF),
      ucast (drop_bit 24 v AND 0xFF)]"

definition hap_top_4_bits :: "uint32_t \<Rightarrow> uint32_t" where
  "hap_top_4_bits x = drop_bit 4 (x AND 0xF0)"

definition hap_bottom_4_bits :: "uint32_t \<Rightarrow> uint32_t" where
  "hap_bottom_4_bits x = x AND 0x0F"

definition hap_4_bit_packed_byte :: "uint32_t \<Rightarrow> uint32_t \<Rightarrow> uint32_t" where
  "hap_4_bit_packed_byte top_bits bottom_bits = push_bit 4 top_bits OR (bottom_bits AND 0x0F)"

text \<open>The three output parameters of \<^verbatim>\<open>hap_read_section_header\<close>.\<close>

record section_header =
  out_header_length :: uint32_t
  out_section_length :: uint32_t
  out_section_type :: uint32_t

definition hap_read_section_header ::
  "uint8_t list \<Rightarrow> uint32_t \<Rightarrow> error + section_header" where
  "hap_read_section_header buffer buffer_length =
     (if buffer_length < 4 then Inl (Hap HapResult_Bad_Frame)
      else case hap_read_3_byte_uint buffer of
        None \<Rightarrow> Inl Out_Of_Bounds
      | Some short_length \<Rightarrow>
          (case (if short_length = 0
                 then (if buffer_length < 8 then Inl (Hap HapResult_Bad_Frame)
                       else case hap_read_4_byte_uint (drop 4 buffer) of
                              None \<Rightarrow> Inl Out_Of_Bounds
                            | Some long_length \<Rightarrow> Inr (8, long_length))
                 else Inr (4, short_length)) of
             Inl e \<Rightarrow> Inl e
           | Inr (header_length, section_length) \<Rightarrow>
               (if length buffer < 4 then Inl Out_Of_Bounds
                else if header_length + section_length > buffer_length
                then Inl (Hap HapResult_Bad_Frame)
                else Inr \<lparr>out_header_length = header_length,
                          out_section_length = section_length,
                          out_section_type = ucast (buffer ! 3)\<rparr>)))"

text \<open>
  \<^verbatim>\<open>hap_write_section_header\<close>: the bytes it writes at the start of the buffer. The
  type byte is stored through a \<^verbatim>\<open>uint8_t\<close> pointer, which keeps its low 8 bits.
  With an eight-byte header the three length bytes are zero, the type follows, and
  the length is in the last four bytes.
\<close>

definition hap_section_header_bytes :: "size_t \<Rightarrow> uint32_t \<Rightarrow> uint32_t \<Rightarrow> uint8_t list" where
  "hap_section_header_bytes header_length section_length section_type =
     (if header_length = 4
      then hap_write_3_byte_uint section_length @ [ucast section_type]
      else hap_write_3_byte_uint 0 @ [ucast section_type] @ hap_write_4_byte_uint section_length)"

definition hap_write_section_header ::
  "uint8_t list \<Rightarrow> size_t \<Rightarrow> uint32_t \<Rightarrow> uint32_t \<Rightarrow> uint8_t list option" where
  "hap_write_section_header buffer header_length section_length section_type =
     store buffer 0 (hap_section_header_bytes header_length section_length section_type)"

definition hap_texture_format_constant_for_format_identifier ::
  "uint32_t \<Rightarrow> HapTextureFormat c_enum" where
  "hap_texture_format_constant_for_format_identifier identifier =
     (if identifier = kHapFormatRGBDXT1 then Enum HapTextureFormat_RGB_DXT1
      else if identifier = kHapFormatRGBADXT5 then Enum HapTextureFormat_RGBA_DXT5
      else if identifier = kHapFormatYCoCgDXT5 then Enum HapTextureFormat_YCoCg_DXT5
      else Unrecognised)"

definition hap_texture_format_identifier_for_format_constant ::
  "HapTextureFormat c_enum \<Rightarrow> uint32_t" where
  "hap_texture_format_identifier_for_format_constant constant =
     (case constant of
        Enum HapTextureFormat_RGB_DXT1 \<Rightarrow> kHapFormatRGBDXT1
      | Enum HapTextureFormat_RGBA_DXT5 \<Rightarrow> kHapFormatRGBADXT5
      | Enum HapTextureFormat_YCoCg_DXT5 \<Rightarrow> kHapFormatYCoCgDXT5
      | Unrecognised \<Rightarrow> 0)"

definition HapMaxEncodedLength :: "externals \<Rightarrow> size_t \<Rightarrow> size_t" where
  "HapMaxEncodedLength S inputBytes =
     (let compressedLength = snappy_max_compressed_length S inputBytes
      in (if compressedLength < inputBytes then inputBytes else compressedLength) + 8)"

section \<open>HapEncode\<close>

text \<open>
  The result is \<open>None\<close> when the call reads or writes outside a buffer, and otherwise
  the returned status with the buffer behind \<^verbatim>\<open>outputBuffer\<close> and the cell behind
  \<^verbatim>\<open>outputBufferBytesUsed\<close> as the call leaves them. The section length reaches
  \<^verbatim>\<open>hap_write_section_header\<close> through a \<^verbatim>\<open>uint32_t\<close> parameter, which keeps the low
  32 bits of \<^verbatim>\<open>storedLength\<close>.
\<close>

definition HapEncode ::
  "externals \<Rightarrow> uint8_t list ptr \<Rightarrow> size_t \<Rightarrow> HapTextureFormat c_enum \<Rightarrow> HapCompressor c_enum
    \<Rightarrow> uint8_t list ptr \<Rightarrow> size_t \<Rightarrow> size_t ptr
    \<Rightarrow> (HapResult \<times> uint8_t list ptr \<times> size_t ptr) option" where
  "HapEncode S inputBuffer inputBufferBytes textureFormat compressor
             outputBuffer outputBufferBytes outputBufferBytesUsed =
     (if inputBuffer = NULL
         \<or> inputBufferBytes = 0
         \<or> (textureFormat \<noteq> Enum HapTextureFormat_RGB_DXT1
            \<and> textureFormat \<noteq> Enum HapTextureFormat_RGBA_DXT5
            \<and> textureFormat \<noteq> Enum HapTextureFormat_YCoCg_DXT5)
         \<or> (compressor \<noteq> Enum HapCompressorNone
            \<and> compressor \<noteq> Enum HapCompressorSnappy)
      then Some (HapResult_Bad_Arguments, outputBuffer, outputBufferBytesUsed)
      else
        let maxCompressedLength0 =
              (if compressor = Enum HapCompressorSnappy
               then snappy_max_compressed_length S inputBufferBytes else inputBufferBytes);
            maxCompressedLength =
              (if maxCompressedLength0 < inputBufferBytes then inputBufferBytes
               else maxCompressedLength0);
            headerLength = (if inputBufferBytes > kHapUInt24Max then 8 else 4);
            maxOutputBufferLength = maxCompressedLength + headerLength
        in
        if outputBufferBytes < maxOutputBufferLength \<or> outputBuffer = NULL
        then Some (HapResult_Buffer_Too_Small, outputBuffer, outputBufferBytesUsed)
        else
          (case (inputBuffer, outputBuffer) of
             (Ptr input, Ptr output) \<Rightarrow>
               do {
                 (stop, output1, storedLength1, storedCompressor1) \<leftarrow>
                   (if compressor = Enum HapCompressorSnappy
                    then do {
                      src \<leftarrow> load input (unat inputBufferBytes);
                      let (status, compressed) = snappy_compress S src outputBufferBytes;
                      written \<leftarrow> store output (unat headerLength) compressed;
                      Some (status \<noteq> SNAPPY_OK, written,
                            (of_nat (length compressed) :: size_t), kHapCompressorSnappy)
                    }
                    else Some (False, output, 0, 0));
                 if stop
                 then Some (HapResult_Internal_Error, Ptr output1, outputBufferBytesUsed)
                 else do {
                   (output2, storedLength, storedCompressor) \<leftarrow>
                     (if storedLength1 = 0 \<or> storedLength1 \<ge> inputBufferBytes
                      then do {
                        src \<leftarrow> load input (unat inputBufferBytes);
                        copied \<leftarrow> store output1 (unat headerLength) src;
                        Some (copied, inputBufferBytes, kHapCompressorNone)
                      }
                      else Some (output1, storedLength1, storedCompressor1));
                   let storedFormat =
                         hap_texture_format_identifier_for_format_constant textureFormat;
                   output3 \<leftarrow>
                     hap_write_section_header output2 headerLength (ucast storedLength)
                       (hap_4_bit_packed_byte storedCompressor storedFormat);
                   Some (HapResult_No_Error, Ptr output3,
                         (case outputBufferBytesUsed of
                            NULL \<Rightarrow> NULL
                          | Ptr _ \<Rightarrow> Ptr (storedLength + headerLength)))
                 }
               }
           | _ \<Rightarrow> None))"

section \<open>HapDecode\<close>

text \<open>
  One \<^verbatim>\<open>HapChunkDecodeInfo\<close> per chunk. \<open>result\<close> is \<open>None\<close> until
  \<^verbatim>\<open>hap_decode_chunk\<close> has written it (the array comes from \<^verbatim>\<open>malloc\<close>).
  \<open>compressed_chunk_data\<close> is a pointer into the input;
  \<open>uncompressed_chunk_data\<close> is the offset of the chunk in the output buffer.
\<close>

record HapChunkDecodeInfo =
  result :: "HapResult option"
  compressor :: uint32_t
  compressed_chunk_data :: "uint8_t list"
  compressed_chunk_size :: size_t
  uncompressed_chunk_data :: size_t
  uncompressed_chunk_size :: size_t

text \<open>
  \<^verbatim>\<open>hap_decode_chunk(chunks, index)\<close> on the descriptors and the output buffer.
\<close>

definition hap_decode_chunk ::
  "externals \<Rightarrow> HapChunkDecodeInfo list \<times> uint8_t list \<Rightarrow> uint32_t
    \<Rightarrow> (HapChunkDecodeInfo list \<times> uint8_t list) option" where
  "hap_decode_chunk S state index =
     (case state of (chunks, output) \<Rightarrow>
        if unat index \<ge> length chunks then None
        else
          let c = chunks ! unat index in
          if compressor c = kHapCompressorSnappy
          then
            (let (snappy_result, bytes) =
                   snappy_uncompress S (compressed_chunk_data c) (compressed_chunk_size c)
                     (uncompressed_chunk_size c)
             in do {
               written \<leftarrow> store output (unat (uncompressed_chunk_data c)) bytes;
               Some (chunks[unat index :=
                       c\<lparr>result :=
                            Some (case snappy_result of
                                    SNAPPY_INVALID_INPUT \<Rightarrow> HapResult_Bad_Frame
                                  | SNAPPY_OK \<Rightarrow> HapResult_No_Error
                                  | _ \<Rightarrow> HapResult_Internal_Error),
                          uncompressed_chunk_size :=
                            (if snappy_result = SNAPPY_OK then of_nat (length bytes)
                             else uncompressed_chunk_size c)\<rparr>],
                     written)
             })
          else if compressor c = kHapCompressorNone
          then do {
            src \<leftarrow> load (compressed_chunk_data c) (unat (compressed_chunk_size c));
            written \<leftarrow> store output (unat (uncompressed_chunk_data c)) src;
            Some (chunks[unat index := c\<lparr>result := Some HapResult_No_Error\<rparr>], written)
          }
          else Some (chunks[unat index := c\<lparr>result := Some HapResult_Bad_Frame\<rparr>], output))"

text \<open>
  The caller's \<^verbatim>\<open>HapDecodeCallback\<close> receives the work function, the descriptors,
  their count and the caller's \<^verbatim>\<open>info\<close>. The model of a callback is the sequence
  of indices it hands to the work function, given the count; \<^verbatim>\<open>info\<close> is part of
  that function. Chunks read and write disjoint spans, so running the calls in
  sequence stands for every schedule.
\<close>

type_synonym HapDecodeCallback = "uint32_t \<Rightarrow> uint32_t list"

fun hap_run_work ::
  "externals \<Rightarrow> uint32_t list \<Rightarrow> HapChunkDecodeInfo list \<times> uint8_t list
    \<Rightarrow> (HapChunkDecodeInfo list \<times> uint8_t list) option" where
  "hap_run_work S [] state = Some state"
| "hap_run_work S (index # rest) state =
     (case hap_decode_chunk S state index of
        None \<Rightarrow> None
      | Some state' \<Rightarrow> hap_run_work S rest state')"

text \<open>
  The locals of the scan of the Decode Instructions Container. \<^verbatim>\<open>chunk_count\<close> is
  an \<^verbatim>\<open>int\<close>: the model keeps its 32 bits and reads them signed (\<open>sint\<close>) where the
  code compares it with 0; \<^verbatim>\<open>section_chunk_count != chunk_count\<close> compares the two
  as \<^verbatim>\<open>unsigned int\<close>.
\<close>

record hap_tables =
  compressors :: "uint8_t list ptr"
  chunk_sizes :: "uint8_t list ptr"
  chunk_offsets :: "uint8_t list ptr"
  chunk_count :: uint32_t

lemma hap_read_section_header_advances:
  assumes "hap_read_section_header buffer buffer_length = Inr h"
  shows "length (drop (unat (out_section_length h)) (drop (unat (out_header_length h)) buffer))
           < length buffer"
proof -
  from assms have "4 \<le> length buffer \<and> (out_header_length h = 4 \<or> out_header_length h = 8)"
    by (auto simp: hap_read_section_header_def split: if_splits option.splits sum.splits)
  then show ?thesis by auto
qed

text \<open>
  The \<^verbatim>\<open>while (bytes_remaining > 0)\<close> loop. \<^verbatim>\<open>bytes_remaining\<close> is a \<^verbatim>\<open>size_t\<close>
  that is passed to a \<^verbatim>\<open>uint32_t\<close> parameter, and
  \<^verbatim>\<open>sectionHeaderLength + sectionLength\<close> is a 32-bit sum.
\<close>

function hap_scan_sections ::
  "uint8_t list \<Rightarrow> size_t \<Rightarrow> hap_tables \<Rightarrow> error + hap_tables" where
  "hap_scan_sections sectionStart bytes_remaining t =
     (if bytes_remaining > 0
      then
        (case hap_read_section_header sectionStart (ucast bytes_remaining) of
           Inl e \<Rightarrow> Inl e
         | Inr h \<Rightarrow>
             (let body = drop (unat (out_header_length h)) sectionStart;
                  sectionLength = out_section_length h;
                  sectionType = out_section_type h;
                  t1 = (if sectionType = kHapSectionChunkSecondStageCompressorTable
                        then t\<lparr>compressors := Ptr body\<rparr>
                        else if sectionType = kHapSectionChunkSizeTable
                        then t\<lparr>chunk_sizes := Ptr body\<rparr>
                        else if sectionType = kHapSectionChunkOffsetTable
                        then t\<lparr>chunk_offsets := Ptr body\<rparr>
                        else t);
                  section_chunk_count =
                       (if sectionType = kHapSectionChunkSecondStageCompressorTable
                        then sectionLength
                        else if sectionType = kHapSectionChunkSizeTable
                        then sectionLength div 4
                        else if sectionType = kHapSectionChunkOffsetTable
                        then sectionLength div 4
                        else 0)
              in if section_chunk_count \<noteq> 0 \<and> chunk_count t \<noteq> 0
                    \<and> section_chunk_count \<noteq> chunk_count t
                 then Inl (Hap HapResult_Bad_Frame)
                 else hap_scan_sections
                        (drop (unat (out_section_length h))
                           (drop (unat (out_header_length h)) sectionStart))
                        (bytes_remaining - ucast (out_header_length h + out_section_length h))
                        (if section_chunk_count \<noteq> 0
                         then t1\<lparr>chunk_count := section_chunk_count\<rparr> else t1)))
      else Inr t)"
  by pat_completeness auto
termination
  by (relation "measure (\<lambda>(sectionStart, bytes_remaining, t). length sectionStart)")
     (auto dest: hap_read_section_header_advances)

declare hap_scan_sections.simps [simp del]

text \<open>
  The \<^verbatim>\<open>for (i = 0; i < chunk_count; i++)\<close> loop that fills the descriptors. A
  \<^verbatim>\<open>break\<close> leaves the loop with \<^verbatim>\<open>result\<close> set, and the code then frees the
  array and returns that result: the model returns it at once. \<^verbatim>\<open>i * 4\<close> is an
  \<^verbatim>\<open>int\<close> product, undefined from \<open>2 ^ 29\<close> on.
\<close>

function hap_chunk_info_loop ::
  "externals \<Rightarrow> uint8_t list \<Rightarrow> uint8_t list \<Rightarrow> uint8_t list ptr \<Rightarrow> uint8_t list
    \<Rightarrow> nat \<Rightarrow> nat \<Rightarrow> size_t \<Rightarrow> size_t \<Rightarrow> HapChunkDecodeInfo list
    \<Rightarrow> error + (HapChunkDecodeInfo list \<times> size_t)" where
  "hap_chunk_info_loop S compressor_table size_table offset_table frame_data i count
       running_compressed_chunk_size running_uncompressed_chunk_size chunk_info =
     (if i < count
      then
        (if i \<ge> length compressor_table \<or> i * 4 \<ge> 2 ^ 31 then Inl Out_Of_Bounds
         else case hap_read_4_byte_uint (drop (i * 4) size_table) of
           None \<Rightarrow> Inl Out_Of_Bounds
         | Some chunk_size \<Rightarrow>
            (case (case offset_table of
                     Ptr offsets \<Rightarrow>
                       (case hap_read_4_byte_uint (drop (i * 4) offsets) of
                          None \<Rightarrow> None
                        | Some offset \<Rightarrow> Some (drop (unat offset) frame_data))
                   | NULL \<Rightarrow> Some (drop (unat running_compressed_chunk_size) frame_data)) of
               None \<Rightarrow> Inl Out_Of_Bounds
             | Some data \<Rightarrow>
                (let c = (ucast (compressor_table ! i) :: uint32_t);
                     (snappy_result, uncompressed) =
                        (if c = kHapCompressorSnappy
                         then snappy_uncompressed_length S data (ucast chunk_size)
                         else (SNAPPY_OK, ucast chunk_size))
                 in if snappy_result \<noteq> SNAPPY_OK
                    then Inl (Hap (if snappy_result = SNAPPY_INVALID_INPUT
                                   then HapResult_Bad_Frame else HapResult_Internal_Error))
                    else hap_chunk_info_loop S compressor_table size_table offset_table
                           frame_data (i + 1) count
                           (running_compressed_chunk_size + ucast chunk_size)
                           (running_uncompressed_chunk_size + uncompressed)
                           (chunk_info @
                              [\<lparr>result = None, compressor = c,
                                compressed_chunk_data = data,
                                compressed_chunk_size = ucast chunk_size,
                                uncompressed_chunk_data = running_uncompressed_chunk_size,
                                uncompressed_chunk_size = uncompressed\<rparr>]))))
      else Inr (chunk_info, running_uncompressed_chunk_size))"
  by pat_completeness auto
termination
  by (relation "measure (\<lambda>(S, ct, st, ot, fd, i, count, rc, ru, ci). count - i)") auto

declare hap_chunk_info_loop.simps [simp del]

text \<open>
  The loop after the callback: the first descriptor whose result is not
  \<^verbatim>\<open>HapResult_No_Error\<close>. A result no work call has written is indeterminate.
\<close>

fun hap_chunk_results :: "HapChunkDecodeInfo list \<Rightarrow> HapResult option" where
  "hap_chunk_results [] = Some HapResult_No_Error"
| "hap_chunk_results (c # cs) =
     (case result c of
        None \<Rightarrow> None
      | Some r \<Rightarrow> if r \<noteq> HapResult_No_Error then Some r else hap_chunk_results cs)"

text \<open>What a call of \<^verbatim>\<open>HapDecode\<close> leaves behind, with the status it returns.\<close>

record HapDecode_return =
  returned :: HapResult
  outputBuffer_after :: "uint8_t list ptr"
  outputBufferBytesUsed_after :: "size_t ptr"
  outputBufferTextureFormat_after :: "HapTextureFormat c_enum ptr"
  callback_calls :: nat

text \<open>
  The first part of the branch for \<^verbatim>\<open>kHapCompressorComplex\<close>: the header of the
  Decode Instructions Container and the scan of its sections. It returns the tables
  found and \<^verbatim>\<open>frame_data\<close>, the pointer past the container.
\<close>

definition hap_decode_instructions ::
  "uint8_t list \<Rightarrow> size_t \<Rightarrow> uint32_t \<Rightarrow> error + (hap_tables \<times> uint8_t list)" where
  "hap_decode_instructions sectionStart inputBufferBytes sectionHeaderLength =
     (case hap_read_section_header sectionStart
             (ucast (inputBufferBytes - ucast sectionHeaderLength)) of
        Inl e \<Rightarrow> Inl e
      | Inr h \<Rightarrow>
          if out_section_type h \<noteq> kHapSectionDecodeInstructionsContainer
          then Inl (Hap HapResult_Bad_Frame)
          else
            (case hap_scan_sections (drop (unat (out_header_length h)) sectionStart)
                    (ucast (out_section_length h))
                    \<lparr>compressors = NULL, chunk_sizes = NULL, chunk_offsets = NULL,
                     chunk_count = 0\<rparr> of
               Inl e \<Rightarrow> Inl e
             | Inr t \<Rightarrow>
                 Inr (t, drop (unat (out_section_length h))
                           (drop (unat (out_header_length h)) sectionStart))))"

text \<open>
  The branch for \<^verbatim>\<open>kHapCompressorComplex\<close>: the status, the output buffer, the
  number of calls of the callback and the local \<^verbatim>\<open>bytesUsed\<close>.
  \<^verbatim>\<open>sizeof(HapChunkDecodeInfo)\<close> is 40 on LP64.
\<close>

definition hap_decode_complex ::
  "externals \<Rightarrow> uint8_t list \<Rightarrow> size_t \<Rightarrow> uint32_t \<Rightarrow> HapDecodeCallback \<Rightarrow> uint8_t list
    \<Rightarrow> size_t \<Rightarrow> (HapResult \<times> uint8_t list \<times> nat \<times> size_t) option" where
  "hap_decode_complex S sectionStart inputBufferBytes sectionHeaderLength callback output
       outputBufferBytes =
     (case hap_decode_instructions sectionStart inputBufferBytes sectionHeaderLength of
        Inl Out_Of_Bounds \<Rightarrow> None
      | Inl (Hap r) \<Rightarrow> Some (r, output, 0, 0)
      | Inr (t, frame_data) \<Rightarrow>
          (case (compressors t, chunk_sizes t) of
             (Ptr compressor_table, Ptr size_table) \<Rightarrow>
               if 0 < sint (chunk_count t)
               then
                 (if \<not> malloc_succeeds S (40 * scast (chunk_count t))
                  then Some (HapResult_Internal_Error, output, 0, 0)
                  else
                    (case hap_chunk_info_loop S compressor_table size_table
                            (chunk_offsets t) frame_data 0 (unat (chunk_count t)) 0 0 [] of
                       Inl Out_Of_Bounds \<Rightarrow> None
                     | Inl (Hap r) \<Rightarrow> Some (r, output, 0, 0)
                     | Inr (chunk_info, running_uncompressed_chunk_size) \<Rightarrow>
                         if running_uncompressed_chunk_size > outputBufferBytes
                         then Some (HapResult_Buffer_Too_Small, output, 0, 0)
                         else
                           (case hap_run_work S (callback (chunk_count t))
                                   (chunk_info, output) of
                              None \<Rightarrow> None
                            | Some (chunk_info', output') \<Rightarrow>
                                (case hap_chunk_results chunk_info' of
                                   None \<Rightarrow> None
                                 | Some r \<Rightarrow>
                                     Some (r, output', 1,
                                           running_uncompressed_chunk_size)))))
               else Some (HapResult_No_Error, output, 0, 0)
           | _ \<Rightarrow> Some (HapResult_Bad_Frame, output, 0, 0)))"

definition HapDecode ::
  "externals \<Rightarrow> uint8_t list ptr \<Rightarrow> size_t \<Rightarrow> HapDecodeCallback ptr \<Rightarrow> uint8_t list ptr
    \<Rightarrow> size_t \<Rightarrow> size_t ptr \<Rightarrow> HapTextureFormat c_enum ptr \<Rightarrow> HapDecode_return option" where
  "HapDecode S inputBuffer inputBufferBytes callback outputBuffer outputBufferBytes
             outputBufferBytesUsed outputBufferTextureFormat =
     (case (inputBuffer, callback, outputBuffer, outputBufferTextureFormat) of
        (Ptr input, Ptr dispatch, Ptr output, Ptr _) \<Rightarrow>
          (case hap_read_section_header input (ucast inputBufferBytes) of
             Inl Out_Of_Bounds \<Rightarrow> None
           | Inl (Hap r) \<Rightarrow>
               Some \<lparr>returned = r, outputBuffer_after = outputBuffer,
                     outputBufferBytesUsed_after = outputBufferBytesUsed,
                     outputBufferTextureFormat_after = outputBufferTextureFormat,
                     callback_calls = 0\<rparr>
           | Inr h \<Rightarrow>
               let sectionHeaderLength = out_header_length h;
                   sectionLength = out_section_length h;
                   sectionType = out_section_type h;
                   compressor = hap_top_4_bits sectionType;
                   textureFormat = hap_bottom_4_bits sectionType;
                   format = hap_texture_format_constant_for_format_identifier textureFormat;
                   sectionStart = drop (unat sectionHeaderLength) input;
                   failed = (\<lambda>r out.
                     Some \<lparr>returned = r, outputBuffer_after = Ptr out,
                           outputBufferBytesUsed_after = outputBufferBytesUsed,
                           outputBufferTextureFormat_after = Ptr format,
                           callback_calls = 0\<rparr>);
                   finish = (\<lambda>out calls bytesUsed.
                     Some \<lparr>returned = HapResult_No_Error, outputBuffer_after = Ptr out,
                           outputBufferBytesUsed_after =
                             (case outputBufferBytesUsed of
                                NULL \<Rightarrow> NULL | Ptr _ \<Rightarrow> Ptr bytesUsed),
                           outputBufferTextureFormat_after = Ptr format,
                           callback_calls = calls\<rparr>)
               in
               if format = Unrecognised then failed HapResult_Bad_Frame output
               else if compressor = kHapCompressorComplex
               then
                 (case hap_decode_complex S sectionStart inputBufferBytes sectionHeaderLength
                         dispatch output outputBufferBytes of
                    None \<Rightarrow> None
                  | Some (r, output', calls, bytesUsed) \<Rightarrow>
                      if r \<noteq> HapResult_No_Error
                      then Some \<lparr>returned = r, outputBuffer_after = Ptr output',
                                 outputBufferBytesUsed_after = outputBufferBytesUsed,
                                 outputBufferTextureFormat_after = Ptr format,
                                 callback_calls = calls\<rparr>
                      else finish output' calls bytesUsed)
               else if compressor = kHapCompressorSnappy
               then
                 (let (length_result, bytesUsed) =
                        snappy_uncompressed_length S sectionStart (ucast sectionLength)
                  in if length_result \<noteq> SNAPPY_OK
                     then failed HapResult_Internal_Error output
                     else if bytesUsed > outputBufferBytes
                     then failed HapResult_Buffer_Too_Small output
                     else
                       (let (snappy_result, bytes) =
                              snappy_uncompress S sectionStart (ucast sectionLength) bytesUsed
                        in case store output 0 bytes of
                             None \<Rightarrow> None
                           | Some written \<Rightarrow>
                               if snappy_result \<noteq> SNAPPY_OK
                               then failed HapResult_Internal_Error written
                               else finish written 0 (of_nat (length bytes))))
               else if compressor = kHapCompressorNone
               then
                 (if ucast sectionLength > outputBufferBytes
                  then failed HapResult_Buffer_Too_Small output
                  else
                    (case load sectionStart (unat sectionLength) of
                       None \<Rightarrow> None
                     | Some src \<Rightarrow>
                         (case store output 0 src of
                            None \<Rightarrow> None
                          | Some written \<Rightarrow> finish written 0 (ucast sectionLength))))
               else failed HapResult_Bad_Frame output)
      | _ \<Rightarrow>
          Some \<lparr>returned = HapResult_Bad_Arguments, outputBuffer_after = outputBuffer,
                outputBufferBytesUsed_after = outputBufferBytesUsed,
                outputBufferTextureFormat_after = outputBufferTextureFormat,
                callback_calls = 0\<rparr>)"

section \<open>HapGetFrameTextureFormat\<close>

definition HapGetFrameTextureFormat ::
  "uint8_t list ptr \<Rightarrow> size_t \<Rightarrow> HapTextureFormat c_enum ptr
    \<Rightarrow> (HapResult \<times> HapTextureFormat c_enum ptr) option" where
  "HapGetFrameTextureFormat inputBuffer inputBufferBytes outputBufferTextureFormat =
     (case (inputBuffer, outputBufferTextureFormat) of
        (Ptr input, Ptr _) \<Rightarrow>
          (case hap_read_section_header input (ucast inputBufferBytes) of
             Inl Out_Of_Bounds \<Rightarrow> None
           | Inl (Hap r) \<Rightarrow> Some (r, outputBufferTextureFormat)
           | Inr h \<Rightarrow>
               let format = hap_texture_format_constant_for_format_identifier
                              (hap_bottom_4_bits (out_section_type h))
               in Some (if format = Unrecognised then HapResult_Bad_Frame
                        else HapResult_No_Error,
                        Ptr format))
      | _ \<Rightarrow> Some (HapResult_Bad_Arguments, outputBufferTextureFormat))"

section \<open>The header length and the worst case of HapEncode\<close>

text \<open>
  Names for two locals of \<^verbatim>\<open>HapEncode\<close>, to state theorems with:
  \<^verbatim>\<open>headerLength\<close>, and \<^verbatim>\<open>maxCompressedLength\<close> after the clamp to the input
  length.
\<close>

definition encode_header_length :: "size_t \<Rightarrow> size_t" where
  "encode_header_length n = (if n > kHapUInt24Max then 8 else 4)"

definition encode_worst_case :: "externals \<Rightarrow> HapCompressor \<Rightarrow> size_t \<Rightarrow> size_t" where
  "encode_worst_case S k n =
     (let m = (if k = HapCompressorSnappy then snappy_max_compressed_length S n else n)
      in if m < n then n else m)"

section \<open>Complex frames as byte strings\<close>

text \<open>
  \<^verbatim>\<open>HapEncode\<close> never writes a Complex frame, so the frames that the decoder's
  Complex branch is run on are described here: a section is a header length (4 or 8),
  a type byte and a payload, laid out as \<^verbatim>\<open>hap_write_section_header\<close> lays a header
  out; a Complex frame is a top-level section whose payload is a Decode Instructions
  Container (type 1, holding the child sections) followed by the chunk data.
  \<open>valid_section\<close> says that the header form can hold the payload's length: the
  short form a length from 1 to \<open>2 ^ 24 - 1\<close>, the long form any length that leaves
  the section within 32 bits. \<open>implied_chunk_count\<close> is the chunk count a child
  section implies: its length for the compressor table, a quarter of it for the size
  and offset tables, none (0) for any other type. \<open>scan_children\<close> is the scan of
  the container told on the list of its children: what \<open>hap_scan_sections\<close>
  computes on their bytes (lemma \<open>hap_scan_sections_children\<close>).
\<close>

type_synonym child_section = "size_t \<times> uint8_t \<times> uint8_t list"

definition section_bytes :: "child_section \<Rightarrow> uint8_t list" where
  "section_bytes s =
     (case s of (header_length, section_type, payload) \<Rightarrow>
        hap_section_header_bytes header_length (of_nat (length payload)) (ucast section_type)
        @ payload)"

definition valid_section :: "child_section \<Rightarrow> bool" where
  "valid_section s =
     (case s of (header_length, section_type, payload) \<Rightarrow>
        header_length = 4 \<and> payload \<noteq> [] \<and> length payload < 2 ^ 24
        \<or> header_length = 8 \<and> length payload < 2 ^ 32 - 8)"

definition implied_chunk_count :: "child_section \<Rightarrow> uint32_t" where
  "implied_chunk_count s =
     (case s of (header_length, section_type, payload) \<Rightarrow>
        if ucast section_type = kHapSectionChunkSecondStageCompressorTable
        then of_nat (length payload)
        else if ucast section_type = kHapSectionChunkSizeTable
                \<or> ucast section_type = kHapSectionChunkOffsetTable
        then of_nat (length payload) div 4
        else 0)"

fun scan_children ::
  "child_section list \<Rightarrow> uint8_t list \<Rightarrow> hap_tables \<Rightarrow> error + hap_tables" where
  "scan_children [] tail t = Inr t"
| "scan_children (s # cs) tail t =
     (let body = snd (snd s) @ concat (map section_bytes cs) @ tail;
          sectionType = (ucast (fst (snd s)) :: uint32_t);
          t1 = (if sectionType = kHapSectionChunkSecondStageCompressorTable
                then t\<lparr>compressors := Ptr body\<rparr>
                else if sectionType = kHapSectionChunkSizeTable
                then t\<lparr>chunk_sizes := Ptr body\<rparr>
                else if sectionType = kHapSectionChunkOffsetTable
                then t\<lparr>chunk_offsets := Ptr body\<rparr>
                else t);
          section_chunk_count = implied_chunk_count s
      in if section_chunk_count \<noteq> 0 \<and> chunk_count t \<noteq> 0
            \<and> section_chunk_count \<noteq> chunk_count t
         then Inl (Hap HapResult_Bad_Frame)
         else scan_children cs tail
                (if section_chunk_count \<noteq> 0
                 then t1\<lparr>chunk_count := section_chunk_count\<rparr> else t1))"

definition complex_type_byte :: "HapTextureFormat \<Rightarrow> uint8_t" where
  "complex_type_byte f =
     ucast (hap_4_bit_packed_byte kHapCompressorComplex
              (hap_texture_format_identifier_for_format_constant (Enum f)))"

definition complex_frame ::
  "size_t \<Rightarrow> HapTextureFormat \<Rightarrow> size_t \<Rightarrow> child_section list \<Rightarrow> uint8_t list
    \<Rightarrow> uint8_t list" where
  "complex_frame top_header_length f container_header_length children frame_data =
     section_bytes
       (top_header_length, complex_type_byte f,
        section_bytes (container_header_length, 1, concat (map section_bytes children))
        @ frame_data)"

definition valid_complex_frame ::
  "size_t \<Rightarrow> HapTextureFormat \<Rightarrow> size_t \<Rightarrow> child_section list \<Rightarrow> uint8_t list \<Rightarrow> bool" where
  "valid_complex_frame top_header_length f container_header_length children frame_data =
     (list_all valid_section children
      \<and> valid_section (container_header_length, 1, concat (map section_bytes children))
      \<and> valid_section
          (top_header_length, complex_type_byte f,
           section_bytes (container_header_length, 1, concat (map section_bytes children))
           @ frame_data)
      \<and> length (complex_frame top_header_length f container_header_length children
                   frame_data) < 2 ^ 32)"

text \<open>A descriptor whose result is not \<^verbatim>\<open>HapResult_Buffer_Too_Small\<close>.\<close>

definition not_too_small :: "HapChunkDecodeInfo \<Rightarrow> bool" where
  "not_too_small c = (result c \<noteq> Some HapResult_Buffer_Too_Small)"

section \<open>The chunks of a Complex frame\<close>

text \<open>
  The chunks as the spec describes them, to be compared with the descriptors that the
  loop of the code builds (lemma \<open>hap_chunk_info_loop_chunks\<close>). A chunk is its
  compressor code and its compressed size, as the two mandatory tables store them:
  the compressor table has one byte per chunk, the chunk size table four bytes per
  chunk, and the optional chunk offset table four bytes per chunk.
  \<open>describes_chunks\<close> says of the children of a container that they describe a list
  of chunks: there is a child of the compressor table's type and every such child
  holds the chunks' codes, the same for the sizes, and for the offsets when there are
  offsets; without offsets no child has the offset table's type. The compressed data
  of a chunk starts, in the chunk data that follows the container, at its offset
  when there is an offset table, and where the chunk before it ends otherwise
  (\<open>chunk_locations\<close>). The uncompressed size of a Snappy chunk is the length that
  \<open>snappy_uncompressed_length\<close> reports for its data, together with the status of that
  query; the uncompressed size of any other chunk is its compressed size
  (\<open>chunk_uncompressed_size\<close>).
\<close>

type_synonym chunk = "uint8_t \<times> uint32_t"

definition chunk_compressor_table :: "chunk list \<Rightarrow> uint8_t list" where
  "chunk_compressor_table chunks = map fst chunks"

definition chunk_size_table :: "chunk list \<Rightarrow> uint8_t list" where
  "chunk_size_table chunks = concat (map (\<lambda>c. hap_write_4_byte_uint (snd c)) chunks)"

definition chunk_offset_table :: "uint32_t list \<Rightarrow> uint8_t list" where
  "chunk_offset_table offsets = concat (map hap_write_4_byte_uint offsets)"

definition holds_table :: "child_section list \<Rightarrow> uint32_t \<Rightarrow> uint8_t list \<Rightarrow> bool" where
  "holds_table children kind table =
     ((\<exists>s \<in> set children. ucast (fst (snd s)) = kind)
      \<and> (\<forall>s \<in> set children. ucast (fst (snd s)) = kind \<longrightarrow> snd (snd s) = table))"

definition describes_chunks ::
  "child_section list \<Rightarrow> chunk list \<Rightarrow> uint32_t list option \<Rightarrow> bool" where
  "describes_chunks children chunks offsets =
     (holds_table children kHapSectionChunkSecondStageCompressorTable
        (chunk_compressor_table chunks)
      \<and> holds_table children kHapSectionChunkSizeTable (chunk_size_table chunks)
      \<and> (case offsets of
            None \<Rightarrow>
              \<forall>s \<in> set children. (ucast (fst (snd s)) :: uint32_t) \<noteq> kHapSectionChunkOffsetTable
          | Some os \<Rightarrow>
              length os = length chunks
              \<and> holds_table children kHapSectionChunkOffsetTable (chunk_offset_table os)))"

fun chunk_starts :: "nat \<Rightarrow> chunk list \<Rightarrow> nat list" where
  "chunk_starts start [] = []"
| "chunk_starts start (c # cs) = start # chunk_starts (start + unat (snd c)) cs"

definition chunk_locations :: "chunk list \<Rightarrow> uint32_t list option \<Rightarrow> nat list" where
  "chunk_locations chunks offsets =
     (case offsets of None \<Rightarrow> chunk_starts 0 chunks | Some os \<Rightarrow> map unat os)"

definition chunk_uncompressed_size ::
  "externals \<Rightarrow> uint8_t list \<Rightarrow> chunk \<Rightarrow> nat \<Rightarrow> snappy_status \<times> size_t" where
  "chunk_uncompressed_size S frame_data c start =
     (if ucast (fst c) = kHapCompressorSnappy
      then snappy_uncompressed_length S (drop start frame_data) (ucast (snd c))
      else (SNAPPY_OK, ucast (snd c)))"

definition chunk_uncompressed_sizes ::
  "externals \<Rightarrow> uint8_t list \<Rightarrow> chunk list \<Rightarrow> uint32_t list option
    \<Rightarrow> (snappy_status \<times> size_t) list" where
  "chunk_uncompressed_sizes S frame_data chunks offsets =
     map2 (chunk_uncompressed_size S frame_data) chunks (chunk_locations chunks offsets)"

section \<open>A small codec and a callback for concrete runs\<close>

text \<open>
  The theorems hold for every \<open>externals\<close>. To run the model on concrete frames,
  \<open>run_length_codec\<close> stands in for Snappy: a non-empty run of up to 255 equal
  bytes is stored as its length and the byte, anything else as a zero byte followed
  by the input. Its length query reads the first byte of the data and the compressed
  length only; decompression wants the whole span to be there.
  \<open>every_chunk_once\<close> is the callback that calls the work function on the indices
  \<open>0, 1, ..., count - 1\<close> in order.
\<close>

definition run_length_decoded :: "uint8_t list \<Rightarrow> uint8_t list option" where
  "run_length_decoded c =
     (if c \<noteq> [] \<and> hd c = 0 then Some (tl c)
      else if length c = 2 then Some (replicate (unat (c ! 0)) (c ! 1))
      else None)"

definition run_length_codec :: externals where
  "run_length_codec =
     \<lparr>snappy_max_compressed_length = (\<lambda>n. 32 + n + n div 6),
      snappy_compress = (\<lambda>src capacity.
         (SNAPPY_OK,
          if src \<noteq> [] \<and> length src < 256 \<and> list_all (\<lambda>b. b = hd src) src
          then [of_nat (length src), hd src] else 0 # src)),
      snappy_uncompressed_length = (\<lambda>data compressed_length.
         if compressed_length = 0 \<or> data = [] then (SNAPPY_INVALID_INPUT, 0)
         else if hd data = 0 then (SNAPPY_OK, compressed_length - 1)
         else (SNAPPY_OK, ucast (hd data))),
      snappy_uncompress = (\<lambda>data compressed_length capacity.
         if length data < unat compressed_length then (SNAPPY_INVALID_INPUT, [])
         else case run_length_decoded (take (unat compressed_length) data) of
           None \<Rightarrow> (SNAPPY_INVALID_INPUT, [])
         | Some x \<Rightarrow> if capacity < of_nat (length x) then (SNAPPY_BUFFER_TOO_SMALL, [])
                     else (SNAPPY_OK, x)),
      malloc_succeeds = (\<lambda>n. True)\<rparr>"

definition every_chunk_once :: HapDecodeCallback where
  "every_chunk_once count = map of_nat [0 ..< unat count]"

section \<open>Reading back a header that was written\<close>

lemma ff_mask: "(0xFF :: uint32_t) = mask 8"
  by (simp add: mask_eq_exp_minus_1)

lemma byte_of_low:
  "(ucast (ucast (v AND 0xFF :: uint32_t) :: uint8_t) :: uint32_t) = take_bit 8 v"
  unfolding ff_mask by (rule bit_word_eqI) (auto simp: bit_simps)

lemma type_byte: "(ucast (ucast (ty :: uint32_t) :: uint8_t) :: uint32_t) = take_bit 8 ty"
  by (rule bit_word_eqI) (auto simp: bit_simps)

lemma recombine_3:
  "take_bit 8 v + push_bit 8 (take_bit 8 (drop_bit 8 v))
     + push_bit 16 (take_bit 8 (drop_bit 16 v)) = take_bit 24 (v :: uint32_t)"
proof -
  have a: "take_bit 8 v + push_bit 8 (take_bit 8 (drop_bit 8 v)) = take_bit 16 v"
    by (subst disjunctive_add; (rule bit_word_eqI)?) (auto simp: bit_simps)
  have b: "take_bit 16 v + push_bit 16 (take_bit 8 (drop_bit 16 v)) = take_bit 24 v"
    by (subst disjunctive_add; (rule bit_word_eqI)?) (auto simp: bit_simps)
  show ?thesis by (simp only: a b)
qed

lemma recombine_4:
  "take_bit 8 v + push_bit 8 (take_bit 8 (drop_bit 8 v))
     + push_bit 16 (take_bit 8 (drop_bit 16 v))
     + push_bit 24 (take_bit 8 (drop_bit 24 v)) = (v :: uint32_t)"
proof -
  have c: "take_bit 24 v + push_bit 24 (take_bit 8 (drop_bit 24 v)) = v"
    by (subst disjunctive_add; (rule bit_word_eqI)?) (auto simp: bit_simps)
  show ?thesis by (simp only: recombine_3 c)
qed

lemma hap_read_4_byte_uint_write:
  "hap_read_4_byte_uint (hap_write_4_byte_uint v @ rest) = Some v"
  by (simp add: hap_read_4_byte_uint_def hap_write_4_byte_uint_def byte_of_low recombine_4)

lemma hap_read_3_byte_uint_write:
  "hap_read_3_byte_uint (hap_write_3_byte_uint v @ rest) = Some (take_bit 24 v)"
  by (simp add: hap_read_3_byte_uint_def hap_write_3_byte_uint_def byte_of_low recombine_3)

lemma length_hap_section_header_bytes:
  "length (hap_section_header_bytes hl sl ty) = (if hl = 4 then 4 else 8)"
  by (simp add: hap_section_header_bytes_def hap_write_3_byte_uint_def
      hap_write_4_byte_uint_def)

lemma take_bit_24_small: "take_bit 24 sl = sl" if "unat (sl :: uint32_t) < 2 ^ 24"
proof -
  have "take_bit 24 (unat sl) = unat sl"
    using that by (simp add: take_bit_nat_eq_self_iff)
  then have "unat (take_bit 24 sl) = unat sl"
    by (simp add: unsigned_take_bit_eq)
  then show ?thesis by (simp add: word_unat_eq_iff)
qed

lemma no_overrun_4:
  "unat (sl :: uint32_t) < 2 ^ 24 \<Longrightarrow> 4 + unat sl \<le> unat (n :: uint32_t)
     \<Longrightarrow> \<not> n < 4 \<and> \<not> n < 4 + sl"
  by unat_arith

lemma no_overrun_8:
  "8 + unat (sl :: uint32_t) \<le> unat (n :: uint32_t)
     \<Longrightarrow> \<not> n < 4 \<and> \<not> n < 8 \<and> \<not> n < 8 + sl"
  by unat_arith

lemma read_short_header:
  assumes "sl \<noteq> 0" "unat sl < 2 ^ 24" "4 + unat sl \<le> unat n"
  shows "hap_read_section_header (hap_section_header_bytes 4 sl ty @ rest) n =
           Inr \<lparr>out_header_length = 4, out_section_length = sl,
                 out_section_type = take_bit 8 ty\<rparr>"
proof -
  have r3: "hap_read_3_byte_uint (hap_section_header_bytes 4 sl ty @ rest) = Some sl"
    using hap_read_3_byte_uint_write [of sl "ucast ty # rest"] assms(2)
    by (simp add: hap_section_header_bytes_def take_bit_24_small)
  have ty: "(hap_section_header_bytes 4 sl ty @ rest) ! 3 = ucast ty"
    by (simp add: hap_section_header_bytes_def hap_write_3_byte_uint_def)
  show ?thesis
    using no_overrun_4 [OF assms(2,3)] assms(1)
    by (simp add: hap_read_section_header_def r3 ty type_byte length_hap_section_header_bytes)
qed

lemma read_long_header:
  assumes "8 + unat sl \<le> unat n"
  shows "hap_read_section_header (hap_section_header_bytes 8 sl ty @ rest) n =
           Inr \<lparr>out_header_length = 8, out_section_length = sl,
                 out_section_type = take_bit 8 ty\<rparr>"
proof -
  have r3: "hap_read_3_byte_uint (hap_section_header_bytes 8 sl ty @ rest) = Some 0"
    using hap_read_3_byte_uint_write [of 0 "ucast ty # hap_write_4_byte_uint sl @ rest"]
    by (simp add: hap_section_header_bytes_def)
  have r4: "hap_read_4_byte_uint (drop 4 (hap_section_header_bytes 8 sl ty) @ rest) = Some sl"
    using hap_read_4_byte_uint_write [of sl rest]
    by (simp add: hap_section_header_bytes_def hap_write_3_byte_uint_def)
  have ty: "(hap_section_header_bytes 8 sl ty @ rest) ! 3 = ucast ty"
    by (simp add: hap_section_header_bytes_def hap_write_3_byte_uint_def)
  show ?thesis
    using no_overrun_8 [OF assms]
    by (simp add: hap_read_section_header_def r3 r4 ty type_byte length_hap_section_header_bytes)
qed

section \<open>What HapEncode writes and what HapDecode reads\<close>

lemma unat_encode_header_length:
  "unat (encode_header_length n) = (if n > kHapUInt24Max then 8 else 4)"
  by (simp add: encode_header_length_def)

lemma length_header [simp]:
  "length (hap_section_header_bytes (encode_header_length n) sl ty) = unat (encode_header_length n)"
  by (simp add: length_hap_section_header_bytes encode_header_length_def)

lemma store_header:
  assumes "length pre = unat (encode_header_length n)"
  shows "hap_write_section_header (pre @ rest) (encode_header_length n) sl ty =
         Some (hap_section_header_bytes (encode_header_length n) sl ty @ rest)"
  using assms by (simp add: hap_write_section_header_def store_def)

lemma store_at:
  assumes "off + length bytes \<le> length mem"
  shows "store mem off bytes = Some (take off mem @ bytes @ drop (off + length bytes) mem)"
  using assms by (simp add: store_def)

lemma valid_format: "Enum (f :: HapTextureFormat) = Enum HapTextureFormat_RGB_DXT1 \<or> Enum f = Enum HapTextureFormat_RGBA_DXT5 \<or> Enum f = Enum HapTextureFormat_YCoCg_DXT5"
  by (cases f) auto

lemma HapEncode_None:
  assumes n: "n \<noteq> 0" "unat n \<le> length input"
    and cap: "\<not> cap < n + encode_header_length n"
    and room: "unat (encode_header_length n) + unat n \<le> length out"
  shows "HapEncode S (Ptr input) n (Enum f) (Enum HapCompressorNone) (Ptr out) cap used =
         Some (HapResult_No_Error,
               Ptr (hap_section_header_bytes (encode_header_length n) (ucast n)
                      (hap_4_bit_packed_byte kHapCompressorNone
                         (hap_texture_format_identifier_for_format_constant (Enum f)))
                    @ take (unat n) input
                    @ drop (unat (encode_header_length n) + unat n) out),
               (case used of NULL \<Rightarrow> NULL | Ptr _ \<Rightarrow> Ptr (n + encode_header_length n)))"
proof -
  have st: "store out (unat (encode_header_length n)) (take (unat n) input) =
        Some (take (unat (encode_header_length n)) out @ take (unat n) input
              @ drop (unat (encode_header_length n) + unat n) out)"
    using n room by (simp add: store_at min_absorb2)
  have hd: "hap_write_section_header (take (unat (encode_header_length n)) out @ take (unat n) input
              @ drop (unat (encode_header_length n) + unat n) out) (encode_header_length n) sl ty =
     Some (hap_section_header_bytes (encode_header_length n) sl ty @ take (unat n) input
              @ drop (unat (encode_header_length n) + unat n) out)" for sl ty
    using room by (intro store_header) simp
  show ?thesis
    using n cap valid_format [of f]
    by (simp add: HapEncode_def Let_def load_def st hd flip: encode_header_length_def)
qed


lemma kHapUInt24Max_less: "(n :: size_t) > kHapUInt24Max \<longleftrightarrow> unat n > 16777215"
  by (simp add: kHapUInt24Max_def word_less_nat_alt)

lemma read_encoded_header:
  fixes n sl :: size_t and N :: uint32_t
  assumes "sl \<noteq> 0" "unat sl \<le> unat n" "unat n < 2 ^ 32 - 8"
    and "unat (encode_header_length n) + unat sl \<le> unat N"
  shows "hap_read_section_header
           (hap_section_header_bytes (encode_header_length n) (ucast sl) ty @ rest) N =
         Inr \<lparr>out_header_length = ucast (encode_header_length n),
               out_section_length = ucast sl, out_section_type = take_bit 8 ty\<rparr>"
proof -
  have u: "unat (ucast sl :: uint32_t) = unat sl"
    using assms(2,3) by (simp add: unsigned_ucast_eq take_bit_nat_eq_self)
  have nz: "(ucast sl :: uint32_t) \<noteq> 0"
    using assms(1) u by (metis unat_eq_zero)
  show ?thesis
  proof (cases "n > kHapUInt24Max")
    case True
    then have e: "encode_header_length n = 8" by (simp add: encode_header_length_def)
    show ?thesis
      using read_long_header [of "ucast sl" N ty rest] assms(4) u by (simp add: e)
  next
    case False
    then have e: "encode_header_length n = 4" by (simp add: encode_header_length_def)
    from False have "unat n \<le> 16777215" by (simp add: kHapUInt24Max_less)
    then have "unat (ucast sl :: uint32_t) < 2 ^ 24" using assms(2) u by simp
    then show ?thesis
      using read_short_header [of "ucast sl" N ty rest] assms(4) u nz by (simp add: e)
  qed
qed

lemma nibbles_of_packed_byte:
  assumes "c = kHapCompressorNone \<or> c = kHapCompressorSnappy \<or> c = kHapCompressorComplex"
  shows "hap_top_4_bits (take_bit 8 (hap_4_bit_packed_byte c
            (hap_texture_format_identifier_for_format_constant (Enum f)))) = c
       \<and> hap_texture_format_constant_for_format_identifier
           (hap_bottom_4_bits (take_bit 8 (hap_4_bit_packed_byte c
              (hap_texture_format_identifier_for_format_constant (Enum f))))) = Enum f"
  using assms
  by (cases f)
     (auto simp: hap_top_4_bits_def hap_bottom_4_bits_def hap_4_bit_packed_byte_def
        hap_texture_format_identifier_for_format_constant_def
        hap_texture_format_constant_for_format_identifier_def
        kHapCompressorNone_def kHapCompressorSnappy_def kHapCompressorComplex_def
        kHapFormatRGBDXT1_def kHapFormatRGBADXT5_def kHapFormatYCoCgDXT5_def)


lemma HapEncode_too_small:
  assumes "n \<noteq> 0"
    and "cap < encode_worst_case S k n + encode_header_length n \<or> outputBuffer = NULL"
  shows "HapEncode S (Ptr input) n (Enum f) (Enum k) outputBuffer cap used =
         Some (HapResult_Buffer_Too_Small, outputBuffer, used)"
  using assms valid_format [of f]
  by (cases k)
     (auto simp: HapEncode_def Let_def encode_worst_case_def encode_header_length_def)

lemma of_nat_length_cases:
  fixes n :: size_t
  assumes "length c < 2 ^ 64"
  shows "((of_nat (length c) :: size_t) = 0 \<or> n \<le> of_nat (length c))
          \<longleftrightarrow> (c = [] \<or> unat n \<le> length c)"
proof -
  have u: "unat (of_nat (length c) :: size_t) = length c"
    using assms by (simp add: unat_of_nat take_bit_nat_eq_self)
  have "(of_nat (length c) :: size_t) = 0 \<longleftrightarrow> c = []"
    using u by (metis length_0_conv unat_eq_zero)
  moreover have "n \<le> of_nat (length c) \<longleftrightarrow> unat n \<le> length c"
    using u by (simp add: word_le_nat_alt)
  ultimately show ?thesis by simp
qed

lemma HapEncode_Snappy:
  assumes n: "n \<noteq> 0" "unat n \<le> length input"
    and cap: "\<not> cap < encode_worst_case S HapCompressorSnappy n + encode_header_length n"
    and c: "snappy_compress S (take (unat n) input) cap = (status, c)"
    and room: "unat (encode_header_length n) + length c \<le> length out"
    and lc: "length c < 2 ^ 64"
  shows "HapEncode S (Ptr input) n (Enum f) (Enum HapCompressorSnappy) (Ptr out) cap used =
    (let hl = encode_header_length n;
         output1 = take (unat hl) out @ c @ drop (unat hl + length c) out
     in if status \<noteq> SNAPPY_OK
        then Some (HapResult_Internal_Error, Ptr output1, used)
        else if c = [] \<or> unat n \<le> length c
        then (if unat hl + unat n \<le> length out
              then Some (HapResult_No_Error,
                     Ptr (hap_section_header_bytes hl (ucast n)
                            (hap_4_bit_packed_byte kHapCompressorNone
                               (hap_texture_format_identifier_for_format_constant (Enum f)))
                          @ take (unat n) input @ drop (unat hl + unat n) output1),
                     (case used of NULL \<Rightarrow> NULL | Ptr _ \<Rightarrow> Ptr (n + hl)))
              else None)
        else Some (HapResult_No_Error,
               Ptr (hap_section_header_bytes hl (ucast (of_nat (length c) :: size_t))
                      (hap_4_bit_packed_byte kHapCompressorSnappy
                         (hap_texture_format_identifier_for_format_constant (Enum f)))
                    @ c @ drop (unat hl + length c) out),
               (case used of NULL \<Rightarrow> NULL | Ptr _ \<Rightarrow> Ptr (of_nat (length c) + hl))))"
proof -
  let ?hl = "encode_header_length n"
  let ?o1 = "take (unat ?hl) out @ c @ drop (unat ?hl + length c) out"
  have s1: "store out (unat ?hl) c = Some ?o1"
    using room by (simp add: store_at)
  have l1: "length ?o1 = length out" using room by simp
  have s2: "unat ?hl + unat n \<le> length out \<Longrightarrow>
        store ?o1 (unat ?hl) (take (unat n) input) =
        Some (take (unat ?hl) out @ take (unat n) input @ drop (unat ?hl + unat n) ?o1)"
    using n room by (simp add: store_def min_absorb2)
  have s2n: "\<not> unat ?hl + unat n \<le> length out \<Longrightarrow>
        store ?o1 (unat ?hl) (take (unat n) input) = None"
  proof -
    assume a: "\<not> unat ?hl + unat n \<le> length out"
    have "length (take (unat n) input) = unat n" using n by simp
    with a l1 show ?thesis unfolding store_def by (simp only: if_False)
  qed
  have hd: "hap_write_section_header (take (unat ?hl) out @ rest) ?hl sl ty =
     Some (hap_section_header_bytes ?hl sl ty @ rest)" for sl ty rest
    using room by (intro store_header) simp
  have w: "((of_nat (length c) :: size_t) = 0 \<or> n \<le> of_nat (length c))
          \<longleftrightarrow> (c = [] \<or> unat n \<le> length c)"
    by (rule of_nat_length_cases [OF lc])
  consider (failed) "status \<noteq> SNAPPY_OK"
    | (raw) "status = SNAPPY_OK" "c = [] \<or> unat n \<le> length c"
        "unat ?hl + unat n \<le> length out"
    | (overrun) "status = SNAPPY_OK" "c = [] \<or> unat n \<le> length c"
        "\<not> unat ?hl + unat n \<le> length out"
    | (stored) "status = SNAPPY_OK" "\<not> (c = [] \<or> unat n \<le> length c)"
    by blast
  then show ?thesis
  proof cases
    case failed
    with n cap valid_format [of f] show ?thesis
      by (simp add: HapEncode_def Let_def load_def c s1 encode_worst_case_def
            flip: encode_header_length_def)
  next
    case raw
    with n cap valid_format [of f] show ?thesis
      by (simp add: HapEncode_def Let_def load_def c s1 s2 hd w encode_worst_case_def
            flip: encode_header_length_def)
  next
    case overrun
    with n cap valid_format [of f] show ?thesis
      by (simp add: HapEncode_def Let_def load_def c s1 s2n w encode_worst_case_def
            flip: encode_header_length_def)
  next
    case stored
    with n cap valid_format [of f] show ?thesis
      by (simp add: HapEncode_def Let_def load_def c s1 hd w encode_worst_case_def
            flip: encode_header_length_def)
  qed
qed


lemma HapEncode_zero_length:
  "HapEncode S inputBuffer 0 textureFormat k outputBuffer cap used =
     Some (HapResult_Bad_Arguments, outputBuffer, used)"
  by (simp add: HapEncode_def)

lemma HapEncode_short_input:
  assumes "n \<noteq> 0" "\<not> unat n \<le> length input"
    and "\<not> cap < encode_worst_case S k n + encode_header_length n"
  shows "HapEncode S (Ptr input) n (Enum f) (Enum k) (Ptr out) cap used = None"
  using assms valid_format [of f]
  by (cases k)
     (simp_all add: HapEncode_def Let_def load_def encode_worst_case_def
        flip: encode_header_length_def)

lemma HapEncode_None_no_room:
  assumes "n \<noteq> 0" "unat n \<le> length input"
    and "\<not> cap < encode_worst_case S HapCompressorNone n + encode_header_length n"
    and "\<not> unat (encode_header_length n) + unat n \<le> length out"
  shows "HapEncode S (Ptr input) n (Enum f) (Enum HapCompressorNone) (Ptr out) cap used = None"
  using assms valid_format [of f]
  by (simp add: HapEncode_def Let_def load_def store_def encode_worst_case_def min_absorb2
        flip: encode_header_length_def)

lemma HapEncode_Snappy_no_room:
  assumes "n \<noteq> 0" "unat n \<le> length input"
    and "\<not> cap < encode_worst_case S HapCompressorSnappy n + encode_header_length n"
    and "\<not> unat (encode_header_length n)
            + length (snd (snappy_compress S (take (unat n) input) cap)) \<le> length out"
  shows "HapEncode S (Ptr input) n (Enum f) (Enum HapCompressorSnappy) (Ptr out) cap used
           = None"
  using assms valid_format [of f]
  by (cases "snappy_compress S (take (unat n) input) cap")
     (simp add: HapEncode_def Let_def load_def store_def encode_worst_case_def
        flip: encode_header_length_def)

lemma HapEncode_success_D:
  assumes "HapEncode S (Ptr input) n (Enum f) (Enum k) (Ptr out) cap used =
             Some (HapResult_No_Error, r)"
  shows "n \<noteq> 0" and "unat n \<le> length input"
    and "\<not> cap < encode_worst_case S k n + encode_header_length n"
    and "k = HapCompressorNone \<Longrightarrow> unat (encode_header_length n) + unat n \<le> length out"
    and "k = HapCompressorSnappy \<Longrightarrow>
           unat (encode_header_length n)
             + length (snd (snappy_compress S (take (unat n) input) cap)) \<le> length out"
proof -
  show n: "n \<noteq> 0"
    using assms by (auto simp: HapEncode_zero_length)
  show c: "\<not> cap < encode_worst_case S k n + encode_header_length n"
    using assms HapEncode_too_small [OF n, of cap S k "Ptr out" input f used] by auto
  show i: "unat n \<le> length input"
    using assms HapEncode_short_input [OF n _ c, where input=input and f=f and out=out and used=used] by auto
  show "unat (encode_header_length n) + unat n \<le> length out" if "k = HapCompressorNone"
    using assms that HapEncode_None_no_room [OF n i, where cap=cap and S=S and out=out and f=f and used=used] c by auto
  show "unat (encode_header_length n)
             + length (snd (snappy_compress S (take (unat n) input) cap)) \<le> length out"
    if "k = HapCompressorSnappy"
    using assms that HapEncode_Snappy_no_room [OF n i, where cap=cap and S=S and out=out and f=f and used=used] c by auto
qed


lemma HapDecode_None_frame:
  assumes "hap_read_section_header frame (ucast N) = Inr h"
    and "hap_top_4_bits (out_section_type h) = kHapCompressorNone"
    and "hap_texture_format_constant_for_format_identifier
           (hap_bottom_4_bits (out_section_type h)) = Enum f"
    and "\<not> cap < ucast (out_section_length h)"
    and "unat (out_section_length h) \<le> length (drop (unat (out_header_length h)) frame)"
    and "unat (out_section_length h) \<le> length dst"
  shows "HapDecode S (Ptr frame) N (Ptr d) (Ptr dst) cap used (Ptr tf) =
         Some \<lparr>returned = HapResult_No_Error,
                outputBuffer_after =
                  Ptr (take (unat (out_section_length h))
                         (drop (unat (out_header_length h)) frame)
                       @ drop (unat (out_section_length h)) dst),
                outputBufferBytesUsed_after =
                  (case used of NULL \<Rightarrow> NULL | Ptr _ \<Rightarrow> Ptr (ucast (out_section_length h))),
                outputBufferTextureFormat_after = Ptr (Enum f),
                callback_calls = 0\<rparr>"
  using assms
  by (simp add: HapDecode_def Let_def load_def store_def min_absorb2
        kHapCompressorNone_def kHapCompressorSnappy_def kHapCompressorComplex_def)

lemma HapDecode_Snappy_frame:
  assumes "hap_read_section_header frame (ucast N) = Inr h"
    and "hap_top_4_bits (out_section_type h) = kHapCompressorSnappy"
    and "hap_texture_format_constant_for_format_identifier
           (hap_bottom_4_bits (out_section_type h)) = Enum f"
    and "snappy_uncompressed_length S (drop (unat (out_header_length h)) frame)
           (ucast (out_section_length h))
         = (SNAPPY_OK, m)"
    and "\<not> cap < m"
    and "snappy_uncompress S (drop (unat (out_header_length h)) frame)
           (ucast (out_section_length h)) m
         = (SNAPPY_OK, x)"
    and "length x \<le> length dst"
  shows "HapDecode S (Ptr frame) N (Ptr d) (Ptr dst) cap used (Ptr tf) =
         Some \<lparr>returned = HapResult_No_Error,
                outputBuffer_after = Ptr (x @ drop (length x) dst),
                outputBufferBytesUsed_after =
                  (case used of NULL \<Rightarrow> NULL | Ptr _ \<Rightarrow> Ptr (of_nat (length x))),
                outputBufferTextureFormat_after = Ptr (Enum f),
                callback_calls = 0\<rparr>"
  using assms
  by (simp add: HapDecode_def Let_def store_def
        kHapCompressorNone_def kHapCompressorSnappy_def kHapCompressorComplex_def)

lemma unat_used:
  fixes n sl :: size_t
  assumes "unat sl \<le> unat n" "unat n < 2 ^ 32 - 8"
  shows "unat (ucast (sl + encode_header_length n) :: uint32_t)
           = unat (encode_header_length n) + unat sl"
    and "unat (ucast sl :: uint32_t) = unat sl"
    and "unat (ucast (encode_header_length n) :: uint32_t) = unat (encode_header_length n)"
    and "(ucast (ucast sl :: uint32_t) :: size_t) = sl"
proof -
  have h: "unat (encode_header_length n) \<le> 8"
    by (simp add: encode_header_length_def)
  have "unat sl + unat (encode_header_length n) < 2 ^ 32" using assms h by simp
  moreover from this have "unat (sl + encode_header_length n)
      = unat sl + unat (encode_header_length n)"
    by (simp add: unat_add_lem [THEN iffD1])
  ultimately show "unat (ucast (sl + encode_header_length n) :: uint32_t)
           = unat (encode_header_length n) + unat sl"
    by (simp add: unsigned_ucast_eq take_bit_nat_eq_self)
  show u: "unat (ucast sl :: uint32_t) = unat sl"
    using assms by (simp add: unsigned_ucast_eq take_bit_nat_eq_self)
  show "unat (ucast (encode_header_length n) :: uint32_t) = unat (encode_header_length n)"
    using h by (simp add: unsigned_ucast_eq take_bit_nat_eq_self)
  show "(ucast (ucast sl :: uint32_t) :: size_t) = sl"
    using u by (simp add: word_unat_eq_iff unsigned_ucast_eq unsigned_take_bit_eq)
qed


lemma HapEncode_success_frame:
  assumes enc: "HapEncode S (Ptr input) n (Enum f) (Enum k) (Ptr out) cap u =
                  Some (HapResult_No_Error, Ptr frame, used)"
    and out: "length out < 2 ^ 64"
  shows "\<exists>sl c payload rest.
           frame = hap_section_header_bytes (encode_header_length n) (ucast sl)
                     (hap_4_bit_packed_byte c
                        (hap_texture_format_identifier_for_format_constant (Enum f)))
                   @ payload @ rest
         \<and> length payload = unat sl \<and> sl \<noteq> 0 \<and> unat sl \<le> unat n
         \<and> used = (case u of NULL \<Rightarrow> NULL | Ptr _ \<Rightarrow> Ptr (sl + encode_header_length n))
         \<and> (c = kHapCompressorNone \<and> payload = take (unat n) input \<and> sl = n
            \<or> c = kHapCompressorSnappy \<and> k = HapCompressorSnappy
              \<and> snappy_compress S (take (unat n) input) cap = (SNAPPY_OK, payload)
              \<and> rest = drop (unat (encode_header_length n) + length payload) out)"
proof -
  note d = HapEncode_success_D [OF enc]
  show ?thesis
  proof (cases k)
    case HapCompressorNone
    from enc HapEncode_None [OF d(1,2) _ d(4) [OF HapCompressorNone], of cap S f u] d(3)
    have "frame = hap_section_header_bytes (encode_header_length n) (ucast n)
                      (hap_4_bit_packed_byte kHapCompressorNone
                         (hap_texture_format_identifier_for_format_constant (Enum f)))
                    @ take (unat n) input
                    @ drop (unat (encode_header_length n) + unat n) out"
      and "used = (case u of NULL \<Rightarrow> NULL | Ptr _ \<Rightarrow> Ptr (n + encode_header_length n))"
      by (simp_all add: HapCompressorNone encode_worst_case_def)
    with d(1,2) show ?thesis
      by (intro exI [of _ n] exI [of _ kHapCompressorNone] exI [of _ "take (unat n) input"]
            exI [of _ "drop (unat (encode_header_length n) + unat n) out"]) simp
  next
    case HapCompressorSnappy
    obtain status c where c: "snappy_compress S (take (unat n) input) cap = (status, c)"
      by (cases "snappy_compress S (take (unat n) input) cap")
    from d(5) [OF HapCompressorSnappy] c
    have room: "unat (encode_header_length n) + length c \<le> length out" by simp
    from room out have "length c < 2 ^ 64" by simp
    note e = HapEncode_Snappy [OF d(1,2) d(3) [unfolded HapCompressorSnappy] c room this,
        of f u]
    from enc e have ok: "status = SNAPPY_OK"
      by (auto simp: HapCompressorSnappy Let_def split: if_splits)
    have lc: "unat (of_nat (length c) :: size_t) = length c"
      using room out by (simp add: unat_of_nat take_bit_nat_eq_self)
    show ?thesis
    proof (cases "c = [] \<or> unat n \<le> length c")
      case True
      with enc e ok
      have "frame = hap_section_header_bytes (encode_header_length n) (ucast n)
                      (hap_4_bit_packed_byte kHapCompressorNone
                         (hap_texture_format_identifier_for_format_constant (Enum f)))
                    @ take (unat n) input
                    @ drop (unat (encode_header_length n) + unat n)
                        (take (unat (encode_header_length n)) out @ c
                           @ drop (unat (encode_header_length n) + length c) out)"
        and "used = (case u of NULL \<Rightarrow> NULL | Ptr _ \<Rightarrow> Ptr (n + encode_header_length n))"
        by (simp_all add: HapCompressorSnappy Let_def split: if_splits)
      with d(1,2) show ?thesis
        by (intro exI [of _ n] exI [of _ kHapCompressorNone] exI [of _ "take (unat n) input"]
              exI [of _ "drop (unat (encode_header_length n) + unat n)
                        (take (unat (encode_header_length n)) out @ c
                           @ drop (unat (encode_header_length n) + length c) out)"]) simp
    next
      case False
      with enc e ok
      have "frame = hap_section_header_bytes (encode_header_length n)
                      (ucast (of_nat (length c) :: size_t))
                      (hap_4_bit_packed_byte kHapCompressorSnappy
                         (hap_texture_format_identifier_for_format_constant (Enum f)))
                    @ c @ drop (unat (encode_header_length n) + length c) out"
        and "used = (case u of NULL \<Rightarrow> NULL
                     | Ptr _ \<Rightarrow> Ptr (of_nat (length c) + encode_header_length n))"
        by (simp_all add: HapCompressorSnappy Let_def)
      moreover from False lc have "(of_nat (length c) :: size_t) \<noteq> 0"
        by (metis length_0_conv unat_eq_zero)
      ultimately show ?thesis
        using False lc c ok HapCompressorSnappy
        by (intro exI [of _ "of_nat (length c)"] exI [of _ kHapCompressorSnappy]
              exI [of _ c] exI [of _ "drop (unat (encode_header_length n) + length c) out"])
           simp
    qed
  qed
qed

text \<open>The definitions that a run of the model on a concrete frame unfolds.\<close>

lemmas eval_defs =
  load_def store_def hap_write_section_header_def hap_section_header_bytes_def
  hap_write_3_byte_uint_def hap_write_4_byte_uint_def hap_4_bit_packed_byte_def
  hap_texture_format_identifier_for_format_constant_def
  hap_texture_format_constant_for_format_identifier_def
  hap_read_section_header_def hap_read_3_byte_uint_def hap_read_4_byte_uint_def
  hap_top_4_bits_def hap_bottom_4_bits_def
  kHapUInt24Max_def kHapCompressorNone_def kHapCompressorSnappy_def kHapCompressorComplex_def
  kHapFormatRGBDXT1_def kHapFormatRGBADXT5_def kHapFormatYCoCgDXT5_def
  encode_header_length_def encode_worst_case_def

section \<open>C2: the contract of the header reader\<close>

text \<open>
  The parts of the contract that hold as the code is written: a buffer shorter
  than four bytes, or shorter than eight when the 24-bit length is zero, is a bad
  frame; otherwise the result carries the header length, the section length and
  the type byte, unless the 32-bit sum of the two lengths exceeds the buffer
  length.
\<close>

lemma hap_read_section_header_contract:
  shows "buffer_length < 4 \<Longrightarrow>
           hap_read_section_header buffer buffer_length = Inl (Hap HapResult_Bad_Frame)"
    and "hap_read_3_byte_uint buffer = Some 0 \<Longrightarrow> buffer_length < 8 \<Longrightarrow>
           hap_read_section_header buffer buffer_length = Inl (Hap HapResult_Bad_Frame)"
    and "hap_read_3_byte_uint buffer = Some 0 \<Longrightarrow> \<not> buffer_length < 8 \<Longrightarrow>
         hap_read_4_byte_uint (drop 4 buffer) = Some long_length \<Longrightarrow>
           hap_read_section_header buffer buffer_length =
             (if 8 + long_length > buffer_length then Inl (Hap HapResult_Bad_Frame)
              else Inr \<lparr>out_header_length = 8, out_section_length = long_length,
                        out_section_type = ucast (buffer ! 3)\<rparr>)"
    and "hap_read_3_byte_uint buffer = Some short_length \<Longrightarrow> short_length \<noteq> 0 \<Longrightarrow>
         \<not> buffer_length < 4 \<Longrightarrow> 4 \<le> length buffer \<Longrightarrow>
           hap_read_section_header buffer buffer_length =
             (if 4 + short_length > buffer_length then Inl (Hap HapResult_Bad_Frame)
              else Inr \<lparr>out_header_length = 4, out_section_length = short_length,
                        out_section_type = ucast (buffer ! 3)\<rparr>)"
proof -
  show "buffer_length < 4 \<Longrightarrow>
           hap_read_section_header buffer buffer_length = Inl (Hap HapResult_Bad_Frame)"
    by (simp add: hap_read_section_header_def)
  show "hap_read_3_byte_uint buffer = Some 0 \<Longrightarrow> buffer_length < 8 \<Longrightarrow>
           hap_read_section_header buffer buffer_length = Inl (Hap HapResult_Bad_Frame)"
    by (simp add: hap_read_section_header_def)
  show "hap_read_3_byte_uint buffer = Some 0 \<Longrightarrow> \<not> buffer_length < 8 \<Longrightarrow>
         hap_read_4_byte_uint (drop 4 buffer) = Some long_length \<Longrightarrow>
           hap_read_section_header buffer buffer_length =
             (if 8 + long_length > buffer_length then Inl (Hap HapResult_Bad_Frame)
              else Inr \<lparr>out_header_length = 8, out_section_length = long_length,
                        out_section_type = ucast (buffer ! 3)\<rparr>)"
    by (auto simp: hap_read_section_header_def hap_read_4_byte_uint_def word_less_nat_alt
        split: if_splits)
  show "hap_read_3_byte_uint buffer = Some short_length \<Longrightarrow> short_length \<noteq> 0 \<Longrightarrow>
         \<not> buffer_length < 4 \<Longrightarrow> 4 \<le> length buffer \<Longrightarrow>
           hap_read_section_header buffer buffer_length =
             (if 4 + short_length > buffer_length then Inl (Hap HapResult_Bad_Frame)
              else Inr \<lparr>out_header_length = 4, out_section_length = short_length,
                        out_section_type = ucast (buffer ! 3)\<rparr>)"
    by (simp add: hap_read_section_header_def)
qed

text \<open>
  C2 says that \<^verbatim>\<open>hap_read_section_header\<close> fails with \<^verbatim>\<open>HapResult_Bad_Frame\<close> in
  every case where the header length plus the section length exceeds the buffer
  length. The code adds the two as 32-bit numbers. On the eight bytes
  \<open>00 00 00 AB F8 FF FF FF\<close> with a buffer length of 8 the header is eight bytes
  long and the section length is \<open>0xFFFFFFF8\<close>; their 32-bit sum is 0, the test
  "sum > buffer length" is false, and the reader returns success for a section that
  extends \<open>2 ^ 32 - 8\<close> bytes past the buffer.
\<close>

theorem hap_read_section_header_accepts_overrun:
  "hap_read_section_header [0, 0, 0, 0xAB, 0xF8, 0xFF, 0xFF, 0xFF] 8 =
     Inr \<lparr>out_header_length = 8, out_section_length = 0xFFFFFFF8, out_section_type = 0xAB\<rparr>
   \<and> unat (8 :: uint32_t) < unat (8 :: uint32_t) + unat (0xFFFFFFF8 :: uint32_t)"
  by (simp add: hap_read_section_header_def hap_read_3_byte_uint_def hap_read_4_byte_uint_def)

section \<open>The argument check and the header stage of HapDecode\<close>

lemma hap_read_section_header_error:
  "hap_read_section_header buffer n = Inl (Hap r) \<Longrightarrow> r = HapResult_Bad_Frame"
  by (auto simp: hap_read_section_header_def split: if_splits option.splits sum.splits)

lemma HapDecode_null:
  assumes "inputBuffer = NULL \<or> callback = NULL \<or> outputBuffer = NULL
            \<or> outputBufferTextureFormat = NULL"
  shows "HapDecode S inputBuffer inputBufferBytes callback outputBuffer outputBufferBytes
             outputBufferBytesUsed outputBufferTextureFormat =
         Some \<lparr>returned = HapResult_Bad_Arguments, outputBuffer_after = outputBuffer,
                outputBufferBytesUsed_after = outputBufferBytesUsed,
                outputBufferTextureFormat_after = outputBufferTextureFormat,
                callback_calls = 0\<rparr>"
proof -
  consider "inputBuffer = NULL" | "callback = NULL" | "outputBuffer = NULL"
    | "outputBufferTextureFormat = NULL"
    using assms by blast
  then show ?thesis
  proof cases
    case 1 then show ?thesis by (simp add: HapDecode_def)
  next
    case 2 then show ?thesis by (cases inputBuffer) (simp_all add: HapDecode_def)
  next
    case 3 then show ?thesis
      by (cases inputBuffer; cases callback) (simp_all add: HapDecode_def)
  next
    case 4 then show ?thesis
      by (cases inputBuffer; cases callback; cases outputBuffer) (simp_all add: HapDecode_def)
  qed
qed

lemma HapDecode_header_error:
  assumes "hap_read_section_header input (ucast inputBufferBytes) = Inl e"
  shows "HapDecode S (Ptr input) inputBufferBytes (Ptr d) (Ptr out) outputBufferBytes
             outputBufferBytesUsed (Ptr tf) =
         (case e of
            Out_Of_Bounds \<Rightarrow> None
          | Hap r \<Rightarrow>
              Some \<lparr>returned = HapResult_Bad_Frame, outputBuffer_after = Ptr out,
                     outputBufferBytesUsed_after = outputBufferBytesUsed,
                     outputBufferTextureFormat_after = Ptr tf,
                     callback_calls = 0\<rparr>)"
  using assms hap_read_section_header_error [of input "ucast inputBufferBytes"]
  by (cases e) (simp_all add: HapDecode_def)

lemma HapDecode_header_ok:
  assumes "hap_read_section_header input (ucast inputBufferBytes) = Inr h"
    and "HapDecode S (Ptr input) inputBufferBytes (Ptr d) (Ptr out) outputBufferBytes
             outputBufferBytesUsed (Ptr tf) = Some r"
  shows "outputBufferTextureFormat_after r =
           Ptr (hap_texture_format_constant_for_format_identifier
                  (hap_bottom_4_bits (out_section_type h)))
         \<and> (returned r \<noteq> HapResult_No_Error
              \<longrightarrow> outputBufferBytesUsed_after r = outputBufferBytesUsed)"
  using assms
  by (auto simp: HapDecode_def Let_def split: if_splits option.splits prod.splits)

section \<open>C7: absent buffers\<close>

text \<open>
  C7 says that every call of encode or decode with an absent buffer, the destination
  of encode included, returns \<^verbatim>\<open>HapResult_Bad_Arguments\<close>. The code tests the
  destination of \<^verbatim>\<open>HapEncode\<close> together with its capacity and returns
  \<^verbatim>\<open>HapResult_Buffer_Too_Small\<close> for it.
\<close>

theorem HapEncode_null_destination_counterexample:
  "HapEncode run_length_codec (Ptr [1, 2, 3]) 3 (Enum HapTextureFormat_RGB_DXT1)
       (Enum HapCompressorNone) NULL 64 NULL
     = Some (HapResult_Buffer_Too_Small, NULL, NULL)
   \<and> HapResult_Buffer_Too_Small \<noteq> HapResult_Bad_Arguments"
  by (simp add: HapEncode_def Let_def kHapUInt24Max_def)

text \<open>
  C7 as the code has it: \<^verbatim>\<open>HapEncode\<close> with an absent input buffer returns
  \<^verbatim>\<open>HapResult_Bad_Arguments\<close>; with an absent destination and otherwise valid
  arguments it returns \<^verbatim>\<open>HapResult_Buffer_Too_Small\<close>; \<^verbatim>\<open>HapDecode\<close> with an
  absent input buffer, callback, destination or format pointer returns
  \<^verbatim>\<open>HapResult_Bad_Arguments\<close>. In each case the result does not depend on what
  the buffers hold or how long they are, and nothing is written.
\<close>

theorem null_buffer_results:
  "HapEncode S NULL inputBufferBytes textureFormat c outputBuffer outputBufferBytes
       outputBufferBytesUsed
     = Some (HapResult_Bad_Arguments, outputBuffer, outputBufferBytesUsed)
   \<and> (inputBufferBytes \<noteq> 0 \<longrightarrow>
        HapEncode S (Ptr input) inputBufferBytes (Enum f) (Enum k) NULL outputBufferBytes
            outputBufferBytesUsed
          = Some (HapResult_Buffer_Too_Small, NULL, outputBufferBytesUsed))
   \<and> (inputBuffer = NULL \<or> callback = NULL \<or> outputBuffer = NULL
        \<or> outputBufferTextureFormat = NULL \<longrightarrow>
        HapDecode S inputBuffer inputBufferBytes callback outputBuffer outputBufferBytes
            outputBufferBytesUsed outputBufferTextureFormat
          = Some \<lparr>returned = HapResult_Bad_Arguments, outputBuffer_after = outputBuffer,
                  outputBufferBytesUsed_after = outputBufferBytesUsed,
                  outputBufferTextureFormat_after = outputBufferTextureFormat,
                  callback_calls = 0\<rparr>)"
proof (intro conjI impI)
  show "HapEncode S NULL inputBufferBytes textureFormat c outputBuffer outputBufferBytes
       outputBufferBytesUsed
     = Some (HapResult_Bad_Arguments, outputBuffer, outputBufferBytesUsed)"
    by (simp add: HapEncode_def)
next
  assume "inputBufferBytes \<noteq> 0"
  moreover have "f = HapTextureFormat_RGB_DXT1 \<or> f = HapTextureFormat_RGBA_DXT5 \<or> f = HapTextureFormat_YCoCg_DXT5"
    by (cases f) auto
  moreover have "k = HapCompressorNone \<or> k = HapCompressorSnappy"
    by (cases k) auto
  ultimately show "HapEncode S (Ptr input) inputBufferBytes (Enum f) (Enum k) NULL outputBufferBytes
            outputBufferBytesUsed
          = Some (HapResult_Buffer_Too_Small, NULL, outputBufferBytesUsed)"
    by (auto simp: HapEncode_def Let_def)
next
  assume "inputBuffer = NULL \<or> callback = NULL \<or> outputBuffer = NULL
        \<or> outputBufferTextureFormat = NULL"
  then show "HapDecode S inputBuffer inputBufferBytes callback outputBuffer outputBufferBytes
            outputBufferBytesUsed outputBufferTextureFormat
          = Some \<lparr>returned = HapResult_Bad_Arguments, outputBuffer_after = outputBuffer,
                  outputBufferBytesUsed_after = outputBufferBytesUsed,
                  outputBufferTextureFormat_after = outputBufferTextureFormat,
                  callback_calls = 0\<rparr>"
    by (rule HapDecode_null)
qed

theorem null_buffer_results_witness:
  "(3 :: size_t) \<noteq> 0
   \<and> HapEncode run_length_codec NULL 3 (Enum HapTextureFormat_RGB_DXT1)
        (Enum HapCompressorSnappy) (Ptr [9, 9]) 2 (Ptr 5)
      = Some (HapResult_Bad_Arguments, Ptr [9, 9], Ptr 5)
   \<and> HapEncode run_length_codec (Ptr [1, 2, 3]) 3 (Enum HapTextureFormat_RGB_DXT1)
        (Enum HapCompressorSnappy) NULL 2 (Ptr 5)
      = Some (HapResult_Buffer_Too_Small, NULL, Ptr 5)
   \<and> HapDecode run_length_codec NULL 3 (Ptr every_chunk_once) (Ptr [9, 9]) 2 (Ptr 5)
        (Ptr Unrecognised)
      = Some \<lparr>returned = HapResult_Bad_Arguments, outputBuffer_after = Ptr [9, 9],
              outputBufferBytesUsed_after = Ptr 5,
              outputBufferTextureFormat_after = Ptr Unrecognised, callback_calls = 0\<rparr>"
  using null_buffer_results [of run_length_codec 3 "Enum HapTextureFormat_RGB_DXT1"
      "Enum HapCompressorSnappy" "Ptr [9, 9]" 2 "Ptr 5" "[1, 2, 3]" HapTextureFormat_RGB_DXT1
      HapCompressorSnappy NULL "Ptr every_chunk_once" "Ptr Unrecognised"]
  by simp

section \<open>C10: the format of a frame, whatever its compressor\<close>

text \<open>
  C10: when the top-level header parses and the low four bits of the type byte name
  a texture format, \<^verbatim>\<open>HapGetFrameTextureFormat\<close> returns \<^verbatim>\<open>HapResult_No_Error\<close> and
  that format; the high four bits play no part, also when they are a compressor that
  \<^verbatim>\<open>HapDecode\<close> rejects with \<^verbatim>\<open>HapResult_Bad_Frame\<close>.
\<close>

theorem HapGetFrameTextureFormat_ignores_compressor:
  assumes "hap_read_section_header input (ucast inputBufferBytes) = Inr h"
    and "hap_texture_format_constant_for_format_identifier
           (hap_bottom_4_bits (out_section_type h)) = Enum f"
  shows "HapGetFrameTextureFormat (Ptr input) inputBufferBytes (Ptr old)
           = Some (HapResult_No_Error, Ptr (Enum f))
         \<and> (hap_top_4_bits (out_section_type h) \<noteq> kHapCompressorNone
              \<and> hap_top_4_bits (out_section_type h) \<noteq> kHapCompressorSnappy
              \<and> hap_top_4_bits (out_section_type h) \<noteq> kHapCompressorComplex
            \<longrightarrow> HapDecode S (Ptr input) inputBufferBytes (Ptr dispatch) (Ptr output)
                  outputBufferBytes outputBufferBytesUsed (Ptr old)
                = Some \<lparr>returned = HapResult_Bad_Frame, outputBuffer_after = Ptr output,
                        outputBufferBytesUsed_after = outputBufferBytesUsed,
                        outputBufferTextureFormat_after = Ptr (Enum f),
                        callback_calls = 0\<rparr>)"
  using assms by (simp add: HapGetFrameTextureFormat_def HapDecode_def Let_def)

theorem HapGetFrameTextureFormat_ignores_compressor_witness:
  "hap_read_section_header [1, 0, 0, 0x1B, 0x55] (ucast (5 :: size_t))
     = Inr \<lparr>out_header_length = 4, out_section_length = 1, out_section_type = 0x1B\<rparr>
   \<and> hap_texture_format_constant_for_format_identifier (hap_bottom_4_bits 0x1B)
     = Enum HapTextureFormat_RGB_DXT1
   \<and> hap_top_4_bits 0x1B = 1
   \<and> HapGetFrameTextureFormat (Ptr [1, 0, 0, 0x1B, 0x55]) 5 (Ptr Unrecognised)
     = Some (HapResult_No_Error, Ptr (Enum HapTextureFormat_RGB_DXT1))
   \<and> HapDecode run_length_codec (Ptr [1, 0, 0, 0x1B, 0x55]) 5 (Ptr every_chunk_once)
        (Ptr [0, 0]) 2 (Ptr 0) (Ptr Unrecognised)
     = Some \<lparr>returned = HapResult_Bad_Frame, outputBuffer_after = Ptr [0, 0],
             outputBufferBytesUsed_after = Ptr 0,
             outputBufferTextureFormat_after = Ptr (Enum HapTextureFormat_RGB_DXT1),
             callback_calls = 0\<rparr>"
proof -
  have h: "hap_read_section_header [1, 0, 0, 0x1B, 0x55] (ucast (5 :: size_t))
     = Inr \<lparr>out_header_length = 4, out_section_length = 1, out_section_type = 0x1B\<rparr>"
    by (simp add: hap_read_section_header_def hap_read_3_byte_uint_def)
  have f: "hap_texture_format_constant_for_format_identifier
             (hap_bottom_4_bits (out_section_type
                \<lparr>out_header_length = 4, out_section_length = 1, out_section_type = 0x1B\<rparr>))
           = Enum HapTextureFormat_RGB_DXT1"
    by (simp add: hap_texture_format_constant_for_format_identifier_def hap_bottom_4_bits_def
        kHapFormatRGBDXT1_def)
  have t: "hap_top_4_bits 0x1B = 1"
    by (simp add: hap_top_4_bits_def)
  show ?thesis
    using HapGetFrameTextureFormat_ignores_compressor [OF h f, of Unrecognised
        run_length_codec every_chunk_once "[0, 0]" 2 "Ptr 0"] h f t
    by (simp add: kHapCompressorNone_def kHapCompressorSnappy_def kHapCompressorComplex_def)
qed

section \<open>C6: the output parameters of HapDecode\<close>

text \<open>
  C6 says that both output parameters are written only on success. The code stores
  the texture format as soon as the top-level header is parsed, before it tests the
  format, the compressor or the capacity: a frame that does not fit the destination
  returns \<^verbatim>\<open>HapResult_Buffer_Too_Small\<close> with the format already written.
\<close>

theorem HapDecode_writes_format_on_failure_counterexample:
  "HapDecode run_length_codec (Ptr [1, 0, 0, 0xAB, 7]) 5 (Ptr every_chunk_once)
       (Ptr []) 0 (Ptr 99) (Ptr Unrecognised)
     = Some \<lparr>returned = HapResult_Buffer_Too_Small, outputBuffer_after = Ptr [],
             outputBufferBytesUsed_after = Ptr 99,
             outputBufferTextureFormat_after = Ptr (Enum HapTextureFormat_RGB_DXT1),
             callback_calls = 0\<rparr>
   \<and> Ptr (Enum HapTextureFormat_RGB_DXT1) \<noteq> (Ptr Unrecognised :: HapTextureFormat c_enum ptr)"
proof -
  have h: "hap_read_section_header [1, 0, 0, 0xAB, 7] 5
     = Inr \<lparr>out_header_length = 4, out_section_length = 1, out_section_type = 0xAB\<rparr>"
    by (simp add: hap_read_section_header_def hap_read_3_byte_uint_def)
  have f: "hap_texture_format_constant_for_format_identifier (hap_bottom_4_bits 0xAB)
     = Enum HapTextureFormat_RGB_DXT1"
    by (simp add: hap_texture_format_constant_for_format_identifier_def hap_bottom_4_bits_def
        kHapFormatRGBDXT1_def)
  have t: "hap_top_4_bits 0xAB = 0xA"
    by (simp add: hap_top_4_bits_def)
  show ?thesis
    by (simp add: HapDecode_def h f t Let_def kHapCompressorComplex_def
        kHapCompressorSnappy_def kHapCompressorNone_def)
qed

text \<open>
  C6 as the code has it: the byte count is written only when the call returns
  \<^verbatim>\<open>HapResult_No_Error\<close>. The texture format is left as it was when an argument is
  absent or the top-level header does not parse; once the header parses it is set to
  the format that the type byte names (the sentinel if it names none), on every
  return that follows, failing or not.
\<close>

theorem HapDecode_output_parameters:
  assumes "HapDecode S inputBuffer inputBufferBytes callback outputBuffer outputBufferBytes
             outputBufferBytesUsed outputBufferTextureFormat = Some r"
  shows "(returned r \<noteq> HapResult_No_Error
            \<longrightarrow> outputBufferBytesUsed_after r = outputBufferBytesUsed)
       \<and> (inputBuffer = NULL \<or> callback = NULL \<or> outputBuffer = NULL
            \<or> outputBufferTextureFormat = NULL
            \<longrightarrow> returned r = HapResult_Bad_Arguments
               \<and> outputBufferTextureFormat_after r = outputBufferTextureFormat)
       \<and> (\<forall>input. inputBuffer = Ptr input \<and> callback \<noteq> NULL \<and> outputBuffer \<noteq> NULL
              \<and> outputBufferTextureFormat \<noteq> NULL \<longrightarrow>
            (case hap_read_section_header input (ucast inputBufferBytes) of
               Inl e \<Rightarrow> returned r = HapResult_Bad_Frame
                         \<and> outputBufferTextureFormat_after r = outputBufferTextureFormat
             | Inr h \<Rightarrow> outputBufferTextureFormat_after r =
                          Ptr (hap_texture_format_constant_for_format_identifier
                                 (hap_bottom_4_bits (out_section_type h)))))"
proof (cases "inputBuffer = NULL \<or> callback = NULL \<or> outputBuffer = NULL
            \<or> outputBufferTextureFormat = NULL")
  case True
  from HapDecode_null [OF True, of S inputBufferBytes outputBufferBytes outputBufferBytesUsed]
    assms True
  show ?thesis by auto
next
  case False
  then obtain input d out tf where p: "inputBuffer = Ptr input" "callback = Ptr d"
      "outputBuffer = Ptr out" "outputBufferTextureFormat = Ptr tf"
    by (cases inputBuffer; cases callback; cases outputBuffer; cases outputBufferTextureFormat)
       auto
  show ?thesis
  proof (cases "hap_read_section_header input (ucast inputBufferBytes)")
    case (Inl e)
    from HapDecode_header_error [OF Inl, of S d out outputBufferBytes outputBufferBytesUsed tf]
      assms p Inl
    show ?thesis by (cases e) auto
  next
    case (Inr h)
    from HapDecode_header_ok [OF Inr, of S d out outputBufferBytes outputBufferBytesUsed tf r]
      assms p Inr
    show ?thesis by auto
  qed
qed

theorem HapDecode_output_parameters_witness:
  "HapDecode run_length_codec (Ptr [2, 0, 0, 0xBF, 6, 7]) 6 (Ptr every_chunk_once)
       (Ptr [0, 0, 0]) 3 (Ptr 99) (Ptr Unrecognised)
     = Some \<lparr>returned = HapResult_Buffer_Too_Small, outputBuffer_after = Ptr [0, 0, 0],
             outputBufferBytesUsed_after = Ptr 99,
             outputBufferTextureFormat_after = Ptr (Enum HapTextureFormat_YCoCg_DXT5),
             callback_calls = 0\<rparr>
   \<and> hap_read_section_header [2, 0, 0, 0xBF, 6, 7] (ucast (6 :: size_t))
     = Inr \<lparr>out_header_length = 4, out_section_length = 2, out_section_type = 0xBF\<rparr>
   \<and> hap_texture_format_constant_for_format_identifier (hap_bottom_4_bits 0xBF)
     = Enum HapTextureFormat_YCoCg_DXT5"
proof -
  have h: "hap_read_section_header [2, 0, 0, 0xBF, 6, 7] 6
     = Inr \<lparr>out_header_length = 4, out_section_length = 2, out_section_type = 0xBF\<rparr>"
    by (simp add: hap_read_section_header_def hap_read_3_byte_uint_def)
  have f: "hap_texture_format_constant_for_format_identifier (hap_bottom_4_bits 0xBF)
     = Enum HapTextureFormat_YCoCg_DXT5"
    by (simp add: hap_texture_format_constant_for_format_identifier_def hap_bottom_4_bits_def
        kHapFormatRGBDXT1_def kHapFormatRGBADXT5_def kHapFormatYCoCgDXT5_def)
  have t: "hap_top_4_bits 0xBF = 0xB"
    by (simp add: hap_top_4_bits_def)
  have d: "HapDecode run_length_codec (Ptr [2, 0, 0, 0xBF, 6, 7]) 6 (Ptr every_chunk_once)
       (Ptr [0, 0, 0]) 3 (Ptr 99) (Ptr Unrecognised)
     = Some \<lparr>returned = HapResult_Buffer_Too_Small, outputBuffer_after = Ptr [0, 0, 0],
             outputBufferBytesUsed_after = Ptr 99,
             outputBufferTextureFormat_after = Ptr (Enum HapTextureFormat_YCoCg_DXT5),
             callback_calls = 0\<rparr>"
    by (simp add: HapDecode_def h f t Let_def kHapCompressorComplex_def kHapCompressorSnappy_def
        run_length_codec_def run_length_decoded_def)
  show ?thesis
    using HapDecode_output_parameters [OF d] d h f by simp
qed

section \<open>C1: decoding what was encoded\<close>

text \<open>
  C1 says that decoding the output of encode gives the image back, for every valid
  image buffer. The section length is a 32-bit field and \<^verbatim>\<open>HapEncode\<close> passes
  \<^verbatim>\<open>storedLength\<close> to a \<^verbatim>\<open>uint32_t\<close> parameter: an image of \<open>2 ^ 32\<close> bytes is
  encoded with \<^verbatim>\<open>HapResult_No_Error\<close> and a length field of 0, and decoding that
  frame succeeds, reports 0 bytes and leaves the destination as it was.
\<close>

theorem HapDecode_HapEncode_4GiB_counterexample:
  "HapEncode run_length_codec (Ptr (replicate 4294967296 1)) 4294967296
       (Enum HapTextureFormat_RGB_DXT1) (Enum HapCompressorNone)
       (Ptr (replicate 4294967304 0)) 4294967304 (Ptr 0)
     = Some (HapResult_No_Error,
             Ptr ([0, 0, 0, 0xAB, 0, 0, 0, 0] @ replicate 4294967296 1), Ptr 4294967304)
   \<and> HapDecode run_length_codec
        (Ptr ([0, 0, 0, 0xAB, 0, 0, 0, 0] @ replicate 4294967296 1)) 4294967304
        (Ptr every_chunk_once) (Ptr (replicate 4294967296 0)) 4294967296 (Ptr 0)
        (Ptr Unrecognised)
     = Some \<lparr>returned = HapResult_No_Error,
             outputBuffer_after = Ptr (replicate 4294967296 0),
             outputBufferBytesUsed_after = Ptr 0,
             outputBufferTextureFormat_after = Ptr (Enum HapTextureFormat_RGB_DXT1),
             callback_calls = 0\<rparr>
   \<and> replicate 4294967296 (0 :: uint8_t) \<noteq> replicate 4294967296 1"
proof -
  have e: "HapEncode run_length_codec (Ptr (replicate 4294967296 1)) 4294967296
       (Enum HapTextureFormat_RGB_DXT1) (Enum HapCompressorNone)
       (Ptr (replicate 4294967304 0)) 4294967304 (Ptr 0)
     = Some (HapResult_No_Error,
             Ptr ([0, 0, 0, 0xAB, 0, 0, 0, 0] @ replicate 4294967296 1), Ptr 4294967304)"
    using HapEncode_None [of 4294967296 "replicate 4294967296 1" 4294967304
        "replicate 4294967304 0" run_length_codec HapTextureFormat_RGB_DXT1 "Ptr 0"]
    by (simp add: eval_defs)
  have c: "(4294967304 :: uint32_t) = 8"
    by simp
  have h: "hap_read_section_header ([0, 0, 0, 0xAB, 0, 0, 0, 0] @ replicate 4294967296 1) 8
     = Inr \<lparr>out_header_length = 8, out_section_length = 0, out_section_type = 0xAB\<rparr>"
    by (simp add: hap_read_section_header_def hap_read_3_byte_uint_def
        hap_read_4_byte_uint_def)
  have d: "HapDecode run_length_codec
        (Ptr ([0, 0, 0, 0xAB, 0, 0, 0, 0] @ replicate 4294967296 1)) 4294967304
        (Ptr every_chunk_once) (Ptr (replicate 4294967296 0)) 4294967296 (Ptr 0)
        (Ptr Unrecognised)
     = Some \<lparr>returned = HapResult_No_Error,
             outputBuffer_after = Ptr (replicate 4294967296 0),
             outputBufferBytesUsed_after = Ptr 0,
             outputBufferTextureFormat_after = Ptr (Enum HapTextureFormat_RGB_DXT1),
             callback_calls = 0\<rparr>"
    using HapDecode_None_frame [of "[0, 0, 0, 0xAB, 0, 0, 0, 0] @ replicate 4294967296 1"
        4294967304 "\<lparr>out_header_length = 8, out_section_length = 0, out_section_type = 0xAB\<rparr>"
        HapTextureFormat_RGB_DXT1 4294967296 "replicate 4294967296 0" run_length_codec
        every_chunk_once "Ptr 0" Unrecognised] h
    by (simp add: c hap_top_4_bits_def hap_bottom_4_bits_def kHapCompressorNone_def
        hap_texture_format_constant_for_format_identifier_def kHapFormatRGBDXT1_def)
  show ?thesis using e d by simp
qed

text \<open>
  C1 for images that the length field can hold: for every image of 1 to
  \<open>2 ^ 32 - 9\<close> bytes, every texture format and both compressor preferences, when
  \<^verbatim>\<open>HapEncode\<close> returns \<^verbatim>\<open>HapResult_No_Error\<close>, decoding the bytes it reports into
  a destination that holds the image returns \<^verbatim>\<open>HapResult_No_Error\<close>, writes the
  image at the start of the destination, reports its length and reports the format
  passed to encode. For the Snappy preference the compressor is assumed to invert:
  what it made of the image, read where \<^verbatim>\<open>HapEncode\<close> left it in the frame and with
  its length, has the image's length and decompresses to it.
\<close>

theorem HapDecode_HapEncode_round_trip:
  assumes enc: "HapEncode S (Ptr input) n (Enum f) (Enum k) (Ptr out) cap (Ptr u) =
                  Some (HapResult_No_Error, Ptr frame, Ptr used)"
    and small: "unat n < 2 ^ 32 - 8"
    and out: "length out < 2 ^ 64"
    and snappy: "\<forall>c. k = HapCompressorSnappy
                    \<and> snappy_compress S (take (unat n) input) cap = (SNAPPY_OK, c)
                  \<longrightarrow> snappy_uncompressed_length S
                        (c @ drop (unat (encode_header_length n) + length c) out)
                        (of_nat (length c)) = (SNAPPY_OK, n)
                      \<and> snappy_uncompress S
                          (c @ drop (unat (encode_header_length n) + length c) out)
                          (of_nat (length c)) n = (SNAPPY_OK, take (unat n) input)"
    and dst: "\<not> dcap < n" "unat n \<le> length dst"
  shows "HapDecode S (Ptr frame) used (Ptr d) (Ptr dst) dcap du (Ptr tf) =
         Some \<lparr>returned = HapResult_No_Error,
                outputBuffer_after = Ptr (take (unat n) input @ drop (unat n) dst),
                outputBufferBytesUsed_after = (case du of NULL \<Rightarrow> NULL | Ptr _ \<Rightarrow> Ptr n),
                outputBufferTextureFormat_after = Ptr (Enum f),
                callback_calls = 0\<rparr>"
proof -
  note d = HapEncode_success_D [OF enc]
  let ?hl = "encode_header_length n"
  from HapEncode_success_frame [OF enc out]
  obtain sl c payload rest where
    frame: "frame = hap_section_header_bytes ?hl (ucast sl)
                     (hap_4_bit_packed_byte c
                        (hap_texture_format_identifier_for_format_constant (Enum f)))
                   @ payload @ rest"
    and len: "length payload = unat sl" "sl \<noteq> 0" "unat sl \<le> unat n"
    and used: "used = sl + ?hl"
    and kind: "c = kHapCompressorNone \<and> payload = take (unat n) input \<and> sl = n
            \<or> c = kHapCompressorSnappy \<and> k = HapCompressorSnappy
              \<and> snappy_compress S (take (unat n) input) cap = (SNAPPY_OK, payload)
              \<and> rest = drop (unat (encode_header_length n) + length payload) out"
    by auto
  note ua = unat_used [OF len(3) small]
  let ?h = "\<lparr>out_header_length = ucast ?hl, out_section_length = ucast sl,
             out_section_type = take_bit 8 (hap_4_bit_packed_byte c
                        (hap_texture_format_identifier_for_format_constant (Enum f)))\<rparr>"
  have hdr: "hap_read_section_header frame (ucast used) = Inr ?h"
    unfolding frame used
    by (rule read_encoded_header [OF len(2,3) small]) (simp add: ua)
  have c3: "c = kHapCompressorNone \<or> c = kHapCompressorSnappy \<or> c = kHapCompressorComplex"
    using kind by auto
  note nib = nibbles_of_packed_byte [OF c3, of f]
  have span: "take (unat (out_section_length ?h)) (drop (unat (out_header_length ?h)) frame)
                = payload"
    by (simp add: frame ua len)
  have span': "take (unat (ucast sl :: uint32_t))
                  (drop (unat (ucast ?hl :: uint32_t)) frame) = payload"
    using span by simp
  from kind show ?thesis
  proof
    assume a: "c = kHapCompressorNone \<and> payload = take (unat n) input \<and> sl = n"
    have "HapDecode S (Ptr frame) used (Ptr d) (Ptr dst) dcap du (Ptr tf) =
         Some \<lparr>returned = HapResult_No_Error,
                outputBuffer_after =
                  Ptr (take (unat (out_section_length ?h))
                         (drop (unat (out_header_length ?h)) frame)
                       @ drop (unat (out_section_length ?h)) dst),
                outputBufferBytesUsed_after =
                  (case du of NULL \<Rightarrow> NULL | Ptr _ \<Rightarrow> Ptr (ucast (out_section_length ?h))),
                outputBufferTextureFormat_after = Ptr (Enum f),
                callback_calls = 0\<rparr>"
      using a nib dst ua len
      by (intro HapDecode_None_frame [OF hdr]) (simp_all add: frame)
    then show ?thesis
      using a span ua by (cases du) simp_all
  next
    assume a: "c = kHapCompressorSnappy \<and> k = HapCompressorSnappy
              \<and> snappy_compress S (take (unat n) input) cap = (SNAPPY_OK, payload)
              \<and> rest = drop (unat (encode_header_length n) + length payload) out"
    have sl: "(of_nat (length payload) :: size_t) = sl"
      by (simp add: len)
    from a snappy have s: "snappy_uncompressed_length S (payload @ rest) sl = (SNAPPY_OK, n)"
        "snappy_uncompress S (payload @ rest) sl n = (SNAPPY_OK, take (unat n) input)"
      by (auto simp: sl)
    have "?hl = 4 \<or> ?hl = 8"
      by (simp add: encode_header_length_def)
    then have body: "drop (unat ?hl) frame = payload @ rest"
      by (auto simp: frame length_hap_section_header_bytes)
    have "HapDecode S (Ptr frame) used (Ptr d) (Ptr dst) dcap du (Ptr tf) =
         Some \<lparr>returned = HapResult_No_Error,
                outputBuffer_after = Ptr (take (unat n) input
                    @ drop (length (take (unat n) input)) dst),
                outputBufferBytesUsed_after =
                  (case du of NULL \<Rightarrow> NULL
                   | Ptr _ \<Rightarrow> Ptr (of_nat (length (take (unat n) input)))),
                outputBufferTextureFormat_after = Ptr (Enum f),
                callback_calls = 0\<rparr>"
      using a nib dst d(2) s
      by (intro HapDecode_Snappy_frame [OF hdr, where m = n]) (simp_all add: body ua)
    then show ?thesis
      using d(2) by (cases du) (simp_all add: min_absorb2)
  qed
qed

theorem HapDecode_HapEncode_round_trip_witness:
  "HapEncode run_length_codec (Ptr [7, 7, 7, 7, 7, 7]) 6 (Enum HapTextureFormat_RGBA_DXT5)
       (Enum HapCompressorSnappy) (Ptr (replicate 64 0)) 64 (Ptr 0)
     = Some (HapResult_No_Error, Ptr ([2, 0, 0, 0xBE, 6, 7] @ replicate 58 0), Ptr 6)
   \<and> HapDecode run_length_codec (Ptr ([2, 0, 0, 0xBE, 6, 7] @ replicate 58 0)) 6
        (Ptr every_chunk_once) (Ptr [0, 0, 0, 0, 0, 0, 0, 0]) 8 (Ptr 0) (Ptr Unrecognised)
     = Some \<lparr>returned = HapResult_No_Error,
             outputBuffer_after = Ptr [7, 7, 7, 7, 7, 7, 0, 0],
             outputBufferBytesUsed_after = Ptr 6,
             outputBufferTextureFormat_after = Ptr (Enum HapTextureFormat_RGBA_DXT5),
             callback_calls = 0\<rparr>"
proof -
  have e: "HapEncode run_length_codec (Ptr [7, 7, 7, 7, 7, 7]) 6
       (Enum HapTextureFormat_RGBA_DXT5)
       (Enum HapCompressorSnappy) (Ptr (replicate 64 0)) 64 (Ptr 0)
     = Some (HapResult_No_Error, Ptr ([2, 0, 0, 0xBE, 6, 7] @ replicate 58 0), Ptr 6)"
    by (simp add: HapEncode_def Let_def run_length_codec_def eval_defs)
  have r: "replicate 6 (7 :: uint8_t) = [7, 7, 7, 7, 7, 7]"
    by (simp add: eval_nat_numeral)
  have s: "\<forall>c. HapCompressorSnappy = HapCompressorSnappy
              \<and> snappy_compress run_length_codec (take (unat (6 :: size_t)) [7, 7, 7, 7, 7, 7]) 64
                  = (SNAPPY_OK, c)
            \<longrightarrow> snappy_uncompressed_length run_length_codec
                  (c @ drop (unat (encode_header_length 6) + length c) (replicate 64 0))
                  (of_nat (length c)) = (SNAPPY_OK, 6)
                \<and> snappy_uncompress run_length_codec
                    (c @ drop (unat (encode_header_length 6) + length c) (replicate 64 0))
                    (of_nat (length c)) 6
                    = (SNAPPY_OK, take (unat (6 :: size_t)) [7, 7, 7, 7, 7, 7])"
    using r by (simp add: run_length_codec_def run_length_decoded_def)
  show ?thesis
    using HapDecode_HapEncode_round_trip [OF e _ _ s, of 8 "[0, 0, 0, 0, 0, 0, 0, 0]"
        every_chunk_once "Ptr 0" Unrecognised] e
    by simp
qed

section \<open>C3: storing the input when compression does not help\<close>




section \<open>C8: the header length the encoder chooses\<close>

text \<open>
  C8 says that decoding a frame with an eight-byte header recovers the exact stored
  length. An image of \<open>2 ^ 32 + 1\<close> bytes is stored whole with an eight-byte header
  whose length field is 1, and that is the length the header reader returns.
\<close>

theorem HapEncode_length_field_4GiB_counterexample:
  "HapEncode run_length_codec (Ptr (replicate 4294967297 1)) 4294967297
       (Enum HapTextureFormat_RGB_DXT1) (Enum HapCompressorNone)
       (Ptr (replicate 4294967305 0)) 4294967305 (Ptr 0)
     = Some (HapResult_No_Error,
             Ptr ([0, 0, 0, 0xAB, 1, 0, 0, 0] @ replicate 4294967297 1), Ptr 4294967305)
   \<and> hap_read_section_header ([0, 0, 0, 0xAB, 1, 0, 0, 0] @ replicate 4294967297 1)
        (ucast (4294967305 :: size_t))
     = Inr \<lparr>out_header_length = 8, out_section_length = 1, out_section_type = 0xAB\<rparr>
   \<and> (ucast (1 :: uint32_t) :: size_t) + 8 \<noteq> 4294967305"
proof -
  have e: "HapEncode run_length_codec (Ptr (replicate 4294967297 1)) 4294967297
       (Enum HapTextureFormat_RGB_DXT1) (Enum HapCompressorNone)
       (Ptr (replicate 4294967305 0)) 4294967305 (Ptr 0)
     = Some (HapResult_No_Error,
             Ptr ([0, 0, 0, 0xAB, 1, 0, 0, 0] @ replicate 4294967297 1), Ptr 4294967305)"
    using HapEncode_None [of 4294967297 "replicate 4294967297 1" 4294967305
        "replicate 4294967305 0" run_length_codec HapTextureFormat_RGB_DXT1 "Ptr 0"]
    by (simp add: eval_defs)
  have k: "(4294967305 :: uint32_t) = 9"
    by simp
  have h: "hap_read_section_header ([0, 0, 0, 0xAB, 1, 0, 0, 0] @ replicate 4294967297 1)
        (ucast (4294967305 :: size_t))
     = Inr \<lparr>out_header_length = 8, out_section_length = 1, out_section_type = 0xAB\<rparr>"
    by (simp add: k hap_read_section_header_def hap_read_3_byte_uint_def
        hap_read_4_byte_uint_def)
  show ?thesis using e h by simp
qed

text \<open>
  C8 for inputs of at most \<open>2 ^ 32 - 9\<close> bytes: \<^verbatim>\<open>HapEncode\<close> on valid arguments
  returns \<^verbatim>\<open>HapResult_Buffer_Too_Small\<close> whenever the capacity is less than the header
  length plus the worst-case size (a sum that fits in a \<^verbatim>\<open>size_t\<close>); and when it
  succeeds, the header reader applied to the frame returns a header length of 8 if
  the input length exceeds \<open>0x00FFFFFF\<close> and of 4 otherwise, and a section length
  that is exactly the stored length, the bytes used minus the header length.
\<close>

theorem HapEncode_header_length:
  assumes "n \<noteq> 0"
  shows "(unat (encode_worst_case S k n) + 8 < 2 ^ 64
            \<and> unat cap < unat (encode_header_length n) + unat (encode_worst_case S k n)
          \<longrightarrow> HapEncode S (Ptr input) n (Enum f) (Enum k) outputBuffer cap u
                = Some (HapResult_Buffer_Too_Small, outputBuffer, u))
       \<and> (\<forall>out frame used.
            unat n < 2 ^ 32 - 8 \<and> length out < 2 ^ 64
            \<and> HapEncode S (Ptr input) n (Enum f) (Enum k) (Ptr out) cap (Ptr u0)
                = Some (HapResult_No_Error, Ptr frame, Ptr used)
          \<longrightarrow> (\<exists>h. hap_read_section_header frame (ucast used) = Inr h
                  \<and> out_header_length h = (if n > kHapUInt24Max then 8 else 4)
                  \<and> ucast (out_section_length h) + ucast (out_header_length h) = used))"
proof (intro conjI impI allI)
  assume a: "unat (encode_worst_case S k n) + 8 < 2 ^ 64
            \<and> unat cap < unat (encode_header_length n) + unat (encode_worst_case S k n)"
  let ?w = "encode_worst_case S k n" and ?hl = "encode_header_length n"
  have "unat ?hl \<le> 8" by (simp add: encode_header_length_def)
  with a have "unat ?w + unat ?hl < 2 ^ LENGTH(64)" by simp
  then have "unat (?w + ?hl) = unat ?w + unat ?hl"
    by (simp only: unat_add_lem)
  with a have "cap < ?w + ?hl" by (simp add: word_less_nat_alt)
  then show "HapEncode S (Ptr input) n (Enum f) (Enum k) outputBuffer cap u
                = Some (HapResult_Buffer_Too_Small, outputBuffer, u)"
    using HapEncode_too_small [OF assms] by blast
next
  fix out frame used
  assume a: "unat n < 2 ^ 32 - 8 \<and> length out < 2 ^ 64
            \<and> HapEncode S (Ptr input) n (Enum f) (Enum k) (Ptr out) cap (Ptr u0)
                = Some (HapResult_No_Error, Ptr frame, Ptr used)"
  let ?hl = "encode_header_length n"
  from a HapEncode_success_frame [of S input n f k out cap "Ptr u0" frame "Ptr used"]
  obtain sl c payload rest where
    frame: "frame = hap_section_header_bytes ?hl (ucast sl)
                     (hap_4_bit_packed_byte c
                        (hap_texture_format_identifier_for_format_constant (Enum f)))
                   @ payload @ rest"
    and len: "sl \<noteq> 0" "unat sl \<le> unat n"
    and used: "used = sl + ?hl"
    by auto
  from a have small: "unat n < 2 ^ 32 - 8" by simp
  note ua = unat_used [OF len(2) small]
  have hdr: "hap_read_section_header frame (ucast used) =
     Inr \<lparr>out_header_length = ucast ?hl, out_section_length = ucast sl,
           out_section_type = take_bit 8 (hap_4_bit_packed_byte c
                        (hap_texture_format_identifier_for_format_constant (Enum f)))\<rparr>"
    unfolding frame used
    by (rule read_encoded_header [OF len small]) (simp add: ua)
  have hl: "(ucast ?hl :: uint32_t) = (if n > kHapUInt24Max then 8 else 4)"
       "(ucast (ucast ?hl :: uint32_t) :: size_t) = ?hl"
    by (simp_all add: encode_header_length_def)
  show "\<exists>h. hap_read_section_header frame (ucast used) = Inr h
                  \<and> out_header_length h = (if n > kHapUInt24Max then 8 else 4)
                  \<and> ucast (out_section_length h) + ucast (out_header_length h) = used"
    using hdr hl ua(4) used by simp
qed

theorem HapEncode_header_length_witness:
  "HapEncode run_length_codec (Ptr [1, 2, 3]) 3 (Enum HapTextureFormat_RGB_DXT1)
       (Enum HapCompressorNone) (Ptr (replicate 6 0)) 6 (Ptr 0)
     = Some (HapResult_Buffer_Too_Small, Ptr (replicate 6 0), Ptr 0)
   \<and> HapEncode run_length_codec (Ptr (replicate 16777216 1)) 16777216
        (Enum HapTextureFormat_RGB_DXT1) (Enum HapCompressorNone)
        (Ptr (replicate 16777224 0)) 16777224 (Ptr 0)
     = Some (HapResult_No_Error,
             Ptr ([0, 0, 0, 0xAB, 0, 0, 0, 1] @ replicate 16777216 1), Ptr 16777224)
   \<and> hap_read_section_header ([0, 0, 0, 0xAB, 0, 0, 0, 1] @ replicate 16777216 1)
        (ucast (16777224 :: size_t))
     = Inr \<lparr>out_header_length = 8, out_section_length = 16777216, out_section_type = 0xAB\<rparr>"
proof -
  have e: "HapEncode run_length_codec (Ptr (replicate 16777216 1)) 16777216
        (Enum HapTextureFormat_RGB_DXT1) (Enum HapCompressorNone)
        (Ptr (replicate 16777224 0)) 16777224 (Ptr 0)
     = Some (HapResult_No_Error,
             Ptr ([0, 0, 0, 0xAB, 0, 0, 0, 1] @ replicate 16777216 1), Ptr 16777224)"
    using HapEncode_None [of 16777216 "replicate 16777216 1" 16777224
        "replicate 16777224 0" run_length_codec HapTextureFormat_RGB_DXT1 "Ptr 0"]
    by (simp add: eval_defs)
  have h: "hap_read_section_header ([0, 0, 0, 0xAB, 0, 0, 0, 1] @ replicate 16777216 1)
        (ucast (16777224 :: size_t))
     = Inr \<lparr>out_header_length = 8, out_section_length = 16777216, out_section_type = 0xAB\<rparr>"
    by (simp add: hap_read_section_header_def hap_read_3_byte_uint_def
        hap_read_4_byte_uint_def)
  have t: "HapEncode run_length_codec (Ptr [1, 2, 3]) 3 (Enum HapTextureFormat_RGB_DXT1)
       (Enum HapCompressorNone) (Ptr (replicate 6 0)) 6 (Ptr 0)
     = Some (HapResult_Buffer_Too_Small, Ptr (replicate 6 0), Ptr 0)"
    using HapEncode_header_length [of 3 run_length_codec HapCompressorNone 6 "[1, 2, 3]"
        HapTextureFormat_RGB_DXT1 "Ptr (replicate 6 0)" "Ptr 0"]
    by (simp add: eval_defs)
  show ?thesis
    using t e h
      HapEncode_header_length [of 16777216 run_length_codec HapCompressorNone 16777224
        "replicate 16777216 1" HapTextureFormat_RGB_DXT1 NULL NULL 0]
    by simp
qed

section \<open>The scan of a Decode Instructions Container\<close>

lemma length_section_bytes:
  "valid_section (hl, ty, p) \<Longrightarrow> length (section_bytes (hl, ty, p)) = unat hl + length p"
  by (auto simp: valid_section_def section_bytes_def length_hap_section_header_bytes)

lemma read_section_bytes:
  assumes v: "valid_section (hl, ty, p)"
    and r: "unat hl + length p \<le> unat N"
  shows "hap_read_section_header (section_bytes (hl, ty, p) @ rest) N =
           Inr \<lparr>out_header_length = ucast hl, out_section_length = of_nat (length p),
                 out_section_type = ucast ty\<rparr>"
proof -
  have ty: "take_bit 8 (ucast ty :: uint32_t) = ucast ty"
    by (rule bit_word_eqI) (auto simp: bit_simps dest: bit_imp_le_length)
  from v consider (short) "hl = 4" "p \<noteq> []" "length p < 2 ^ 24"
    | (long) "hl = 8" "length p < 2 ^ 32 - 8"
    by (auto simp: valid_section_def)
  then show ?thesis
  proof cases
    case short
    then have u: "unat (of_nat (length p) :: uint32_t) = length p"
      by (simp add: unat_of_nat take_bit_nat_eq_self)
    with short have nz: "(of_nat (length p) :: uint32_t) \<noteq> 0"
      by (metis length_0_conv unat_eq_zero)
    show ?thesis
      using read_short_header [of "of_nat (length p)" N "ucast ty" "p @ rest"] short u nz r
      by (simp add: section_bytes_def ty)
  next
    case long
    then have u: "unat (of_nat (length p) :: uint32_t) = length p"
      by (simp add: unat_of_nat take_bit_nat_eq_self)
    show ?thesis
      using read_long_header [of "of_nat (length p)" N "ucast ty" "p @ rest"] long u r
      by (simp add: section_bytes_def ty)
  qed
qed


lemma unat_of_nat64: "k < 2 ^ 64 \<Longrightarrow> unat (of_nat k :: size_t) = k"
  by (simp add: unat_of_nat take_bit_nat_eq_self)

lemma unat_of_nat32: "k < 2 ^ 32 \<Longrightarrow> unat (of_nat k :: uint32_t) = k"
  by (simp add: unat_of_nat take_bit_nat_eq_self)

lemma ucast_header_sum:
  fixes hl :: size_t
  assumes "hl = 4 \<or> hl = 8" "unat hl + len < 2 ^ 32"
  shows "(ucast ((ucast hl :: uint32_t) + of_nat len) :: size_t) = of_nat (unat hl + len)"
proof -
  have a: "unat (ucast hl :: uint32_t) = unat hl"
    using assms(1) by auto
  have b: "unat (of_nat len :: uint32_t) = len"
    using assms(2) by (intro unat_of_nat32) simp
  have "unat (ucast hl :: uint32_t) + unat (of_nat len :: uint32_t) < 2 ^ LENGTH(32)"
    using assms(2) by (simp only: a b) simp
  then have "unat ((ucast hl :: uint32_t) + of_nat len)
               = unat (ucast hl :: uint32_t) + unat (of_nat len :: uint32_t)"
    by (simp only: unat_add_lem)
  then have c: "unat ((ucast hl :: uint32_t) + of_nat len) = unat hl + len"
    by (simp only: a b)
  have "unat (ucast ((ucast hl :: uint32_t) + of_nat len) :: size_t)
          = unat ((ucast hl :: uint32_t) + of_nat len)"
    by (simp add: unsigned_ucast_eq take_bit_nat_eq_self unsigned_less
          order_less_trans [OF unsigned_less])
  then have "unat (ucast ((ucast hl :: uint32_t) + of_nat len) :: size_t) = unat hl + len"
    by (simp only: c)
  moreover have "unat (of_nat (unat hl + len) :: size_t) = unat hl + len"
    using assms(2) by (intro unat_of_nat64) simp
  ultimately show ?thesis by (simp only: word_unat_eq_iff)
qed

lemma hap_scan_sections_section:
  fixes R :: size_t
  assumes v: "valid_section (hl, ty, p)"
    and uR: "unat R = unat hl + length p + m"
    and r: "unat hl + length p + m < 2 ^ 32"
  shows "hap_scan_sections (section_bytes (hl, ty, p) @ rest) R t =
     (let body = p @ rest;
          sectionType = (ucast ty :: uint32_t);
          t1 = (if sectionType = kHapSectionChunkSecondStageCompressorTable
                then t\<lparr>compressors := Ptr body\<rparr>
                else if sectionType = kHapSectionChunkSizeTable
                then t\<lparr>chunk_sizes := Ptr body\<rparr>
                else if sectionType = kHapSectionChunkOffsetTable
                then t\<lparr>chunk_offsets := Ptr body\<rparr>
                else t);
          section_chunk_count = implied_chunk_count (hl, ty, p)
      in if section_chunk_count \<noteq> 0 \<and> chunk_count t \<noteq> 0
            \<and> section_chunk_count \<noteq> chunk_count t
         then Inl (Hap HapResult_Bad_Frame)
         else hap_scan_sections rest (of_nat m)
                (if section_chunk_count \<noteq> 0
                 then t1\<lparr>chunk_count := section_chunk_count\<rparr> else t1))"
proof -
  have hl: "hl = 4 \<or> hl = 8" using v by (auto simp: valid_section_def)
  have "unat (ucast R :: uint32_t) = unat R"
    using r uR by (simp add: unsigned_ucast_eq take_bit_nat_eq_self)
  then have uN: "unat hl + length p \<le> unat (ucast R :: uint32_t)"
    using uR by simp
  have pos: "R > 0"
    using uR hl by (auto simp: word_less_nat_alt)
  have hdr: "hap_read_section_header (section_bytes (hl, ty, p) @ rest) (ucast R) =
           Inr \<lparr>out_header_length = ucast hl, out_section_length = of_nat (length p),
                 out_section_type = ucast ty\<rparr>"
    by (rule read_section_bytes [OF v uN])
  have up: "unat (of_nat (length p) :: uint32_t) = length p"
    using r by (intro unat_of_nat32) simp
  have uh: "unat (ucast hl :: uint32_t) = unat hl"
    using hl by auto
  have body: "drop (unat hl) (section_bytes (hl, ty, p) @ rest) = p @ rest"
    using hl by (auto simp: section_bytes_def length_hap_section_header_bytes)
  have body2: "drop (length p) (p @ rest) = rest"
    by simp
  have sum: "(ucast ((ucast hl :: uint32_t) + of_nat (length p)) :: size_t)
          = of_nat (unat hl + length p)"
    using r by (intro ucast_header_sum [OF hl]) simp
  have "unat (of_nat (unat hl + length p + m) :: size_t) = unat hl + length p + m"
    using r by (intro unat_of_nat64) simp
  then have "R = of_nat (unat hl + length p + m)"
    using uR by (simp only: word_unat_eq_iff)
  then have rem: "R - ucast ((ucast hl :: uint32_t) + of_nat (length p)) = of_nat m"
    by (simp add: sum)
  show ?thesis
    apply (subst hap_scan_sections.simps)
    apply (simp only: pos if_True hdr sum.case section_header.simps Let_def up uh body body2
        rem)
    apply (simp add: implied_chunk_count_def Let_def)
    done
qed


lemma hap_scan_sections_children:
  assumes "list_all valid_section cs"
    and "length (concat (map section_bytes cs)) < 2 ^ 32"
  shows "hap_scan_sections (concat (map section_bytes cs) @ tail)
           (of_nat (length (concat (map section_bytes cs)))) t = scan_children cs tail t"
  using assms
proof (induction cs arbitrary: t)
  case Nil
  show ?case by (subst hap_scan_sections.simps) simp
next
  case (Cons s cs)
  obtain hl ty p where s: "s = (hl, ty, p)" by (cases s)
  let ?m = "length (concat (map section_bytes cs))"
  from Cons.prems have v: "valid_section (hl, ty, p)" and vs: "list_all valid_section cs"
    by (simp_all add: s)
  note ls = length_section_bytes [OF v]
  from Cons.prems have r: "unat hl + length p + ?m < 2 ^ 32"
    by (simp add: s ls)
  have uR: "unat (of_nat (length (concat (map section_bytes (s # cs)))) :: size_t)
              = unat hl + length p + ?m"
    using r by (subst unat_of_nat64) (simp_all add: s ls)
  from r have m: "?m < 2 ^ 32" by simp
  show ?case
    using hap_scan_sections_section [OF v uR r,
        of "concat (map section_bytes cs) @ tail" t]
      Cons.IH [OF vs m]
    by (simp add: s Let_def)
qed

lemma scan_children_error:
  "scan_children cs tail t = Inl e \<Longrightarrow> e = Hap HapResult_Bad_Frame"
  by (induction cs arbitrary: t) (auto simp: Let_def split: if_splits)

lemma scan_children_counts:
  assumes "scan_children cs tail t = Inr t'"
  shows "(\<forall>s \<in> set cs. implied_chunk_count s \<noteq> 0 \<longrightarrow> implied_chunk_count s = chunk_count t')
       \<and> (chunk_count t \<noteq> 0 \<longrightarrow> chunk_count t' = chunk_count t)
       \<and> ((\<forall>s \<in> set cs. implied_chunk_count s = 0) \<longrightarrow> chunk_count t' = chunk_count t)"
  using assms
proof (induction cs arbitrary: t)
  case Nil
  then show ?case by simp
next
  case (Cons s cs)
  let ?c = "implied_chunk_count s"
  show ?case
  proof (cases "?c = 0")
    case True
    with Cons.prems obtain t1 where
      t1: "scan_children cs tail t1 = Inr t'" "chunk_count t1 = chunk_count t"
      by (auto simp: Let_def split: if_splits)
    from Cons.IH [OF t1(1)] t1(2) True show ?thesis by auto
  next
    case False
    with Cons.prems obtain t1 where
      t1: "scan_children cs tail t1 = Inr t'" "chunk_count t1 = ?c"
        "chunk_count t = 0 \<or> chunk_count t = ?c"
      by (auto simp: Let_def split: if_splits)
    from Cons.IH [OF t1(1)] t1(2,3) False show ?thesis by auto
  qed
qed

lemma scan_children_tables:
  assumes "scan_children cs tail t = Inr t'"
  shows "(compressors t' = NULL \<longleftrightarrow>
            compressors t = NULL
            \<and> (\<forall>s \<in> set cs. (ucast (fst (snd s)) :: uint32_t)
                    \<noteq> kHapSectionChunkSecondStageCompressorTable))
       \<and> (chunk_sizes t' = NULL \<longleftrightarrow>
            chunk_sizes t = NULL
            \<and> (\<forall>s \<in> set cs. (ucast (fst (snd s)) :: uint32_t) \<noteq> kHapSectionChunkSizeTable))"
  using assms
proof (induction cs arbitrary: t)
  case Nil
  then show ?case by simp
next
  case (Cons s cs)
  from Cons.prems obtain t1 where
    t1: "scan_children cs tail t1 = Inr t'"
    "compressors t1 = NULL \<longleftrightarrow> compressors t = NULL
        \<and> (ucast (fst (snd s)) :: uint32_t) \<noteq> kHapSectionChunkSecondStageCompressorTable"
    "chunk_sizes t1 = NULL \<longleftrightarrow> chunk_sizes t = NULL
        \<and> (ucast (fst (snd s)) :: uint32_t) \<noteq> kHapSectionChunkSizeTable"
    by (auto simp: Let_def kHapSectionChunkSecondStageCompressorTable_def
        kHapSectionChunkSizeTable_def kHapSectionChunkOffsetTable_def split: if_splits)
  from Cons.IH [OF t1(1)] t1(2,3) show ?case by auto
qed

lemma scan_children_no_counts:
  assumes "\<forall>s \<in> set cs. implied_chunk_count s = 0"
  shows "\<exists>t'. scan_children cs tail t = Inr t'"
  using assms by (induction cs arbitrary: t) (auto simp: Let_def)

lemma hap_decode_instructions_frame:
  assumes v: "valid_complex_frame hl_t f hl_d children frame_data"
  shows "hap_decode_instructions
           (section_bytes (hl_d, 1, concat (map section_bytes children)) @ frame_data)
           (of_nat (length (complex_frame hl_t f hl_d children frame_data))) (ucast hl_t)
         = (case scan_children children frame_data
                   \<lparr>compressors = NULL, chunk_sizes = NULL, chunk_offsets = NULL,
                    chunk_count = 0\<rparr> of
              Inl e \<Rightarrow> Inl e
            | Inr t \<Rightarrow> Inr (t, frame_data))"
proof -
  let ?container = "concat (map section_bytes children)"
  let ?dic = "section_bytes (hl_d, 1, ?container)"
  let ?body = "?dic @ frame_data"
  let ?frame = "complex_frame hl_t f hl_d children frame_data"
  from v have vc: "list_all valid_section children"
    and vd: "valid_section (hl_d, 1, ?container)"
    and vt: "valid_section (hl_t, complex_type_byte f, ?body)"
    and small: "length ?frame < 2 ^ 32"
    by (simp_all add: valid_complex_frame_def)
  have lf: "length ?frame = unat hl_t + length ?body"
    unfolding complex_frame_def by (rule length_section_bytes [OF vt])
  have ld: "length ?dic = unat hl_d + length ?container"
    by (rule length_section_bytes [OF vd])
  have hlt: "hl_t = 4 \<or> hl_t = 8" using vt by (auto simp: valid_section_def)
  have hld: "hl_d = 4 \<or> hl_d = 8" using vd by (auto simp: valid_section_def)
  have rt: "(ucast (ucast hl_t :: uint32_t) :: size_t) = hl_t"
    using hlt by auto
  have "unat (of_nat (length ?body) :: size_t) = length ?body"
    using small lf by (intro unat_of_nat64) simp
  moreover have "(of_nat (length ?frame) :: size_t) - hl_t = of_nat (length ?body)"
    by (simp only: lf of_nat_add of_nat_unat) simp
  ultimately have n: "unat (ucast ((of_nat (length ?frame) :: size_t) - ucast (ucast hl_t :: uint32_t))
                        :: uint32_t) = length ?body"
    using small lf by (simp only: rt) (simp add: unsigned_ucast_eq take_bit_nat_eq_self)
  have hdr: "hap_read_section_header ?body
               (ucast ((of_nat (length ?frame) :: size_t) - ucast (ucast hl_t :: uint32_t))) =
             Inr \<lparr>out_header_length = ucast hl_d, out_section_length = of_nat (length ?container),
                   out_section_type = ucast (1 :: uint8_t)\<rparr>"
    by (rule read_section_bytes [OF vd]) (simp only: n, simp add: ld)
  have uh: "unat (ucast hl_d :: uint32_t) = unat hl_d"
    using hld by auto
  have lc: "length ?container < 2 ^ 32"
    using small lf ld by simp
  have uc: "unat (of_nat (length ?container) :: uint32_t) = length ?container"
    using lc by (rule unat_of_nat32)
  have cc: "(ucast (of_nat (length ?container) :: uint32_t) :: size_t)
              = of_nat (length ?container)"
    using uc lc by (simp add: word_unat_eq_iff unsigned_ucast_eq take_bit_nat_eq_self
          unat_of_nat)
  have b1: "drop (unat hl_d) ?body = ?container @ frame_data"
    using hld by (auto simp: section_bytes_def length_hap_section_header_bytes)
  have b2: "drop (length ?container) (?container @ frame_data) = frame_data"
    by simp
  show ?thesis
    unfolding hap_decode_instructions_def
    by (simp only: hdr sum.case section_header.simps uh uc cc b1 b2
          hap_scan_sections_children [OF vc lc])
       (simp add: kHapSectionDecodeInstructionsContainer_def)
qed


lemma HapDecode_complex_frame:
  assumes v: "valid_complex_frame hl_t f hl_d children frame_data"
  shows "HapDecode S (Ptr (complex_frame hl_t f hl_d children frame_data))
           (of_nat (length (complex_frame hl_t f hl_d children frame_data)))
           (Ptr dispatch) (Ptr out) cap used (Ptr tf) =
         (case hap_decode_complex S
                 (section_bytes (hl_d, 1, concat (map section_bytes children)) @ frame_data)
                 (of_nat (length (complex_frame hl_t f hl_d children frame_data)))
                 (ucast hl_t) dispatch out cap of
            None \<Rightarrow> None
          | Some (r, out', calls, bytesUsed) \<Rightarrow>
              Some \<lparr>returned = r, outputBuffer_after = Ptr out',
                     outputBufferBytesUsed_after =
                       (if r \<noteq> HapResult_No_Error then used
                        else case used of NULL \<Rightarrow> NULL | Ptr _ \<Rightarrow> Ptr bytesUsed),
                     outputBufferTextureFormat_after = Ptr (Enum f),
                     callback_calls = calls\<rparr>)"
proof -
  let ?body = "section_bytes (hl_d, 1, concat (map section_bytes children)) @ frame_data"
  let ?frame = "complex_frame hl_t f hl_d children frame_data"
  from v have vt: "valid_section (hl_t, complex_type_byte f, ?body)"
    and small: "length ?frame < 2 ^ 32"
    by (simp_all add: valid_complex_frame_def)
  have lf: "length ?frame = unat hl_t + length ?body"
    unfolding complex_frame_def by (rule length_section_bytes [OF vt])
  have hlt: "hl_t = 4 \<or> hl_t = 8" using vt by (auto simp: valid_section_def)
  have "unat (of_nat (length ?frame) :: size_t) = length ?frame"
    using small by (intro unat_of_nat64) simp
  then have n: "unat (ucast (of_nat (length ?frame) :: size_t) :: uint32_t) = length ?frame"
    using small by (simp add: unsigned_ucast_eq take_bit_nat_eq_self)
  have hdr: "hap_read_section_header ?frame (ucast (of_nat (length ?frame) :: size_t)) =
             Inr \<lparr>out_header_length = ucast hl_t, out_section_length = of_nat (length ?body),
                   out_section_type = ucast (complex_type_byte f)\<rparr>"
  proof -
    have le: "unat hl_t + length ?body
                \<le> unat (ucast (of_nat (length ?frame) :: size_t) :: uint32_t)"
      by (subst n) (simp only: lf order_refl)
    show ?thesis
      unfolding complex_frame_def
      using read_section_bytes [OF vt le [unfolded complex_frame_def], of "[]"]
      by (simp only: append_Nil2)
  qed
  have ty: "(ucast (complex_type_byte f) :: uint32_t)
              = take_bit 8 (hap_4_bit_packed_byte kHapCompressorComplex
                   (hap_texture_format_identifier_for_format_constant (Enum f)))"
    by (simp add: complex_type_byte_def type_byte)
  note nib = nibbles_of_packed_byte [of kHapCompressorComplex f, simplified, folded ty]
  have uh: "unat (ucast hl_t :: uint32_t) = unat hl_t"
    using hlt by auto
  have b: "drop (unat hl_t) ?frame = ?body"
    using hlt by (auto simp: complex_frame_def section_bytes_def
        length_hap_section_header_bytes)
  show ?thesis
    unfolding HapDecode_def
    by (simp only: prod.case ptr.case hdr sum.case section_header.simps Let_def nib uh b)
       (auto split: option.splits)
qed

lemma hap_decode_complex_frame_Bad_Frame:
  assumes v: "valid_complex_frame hl_t f hl_d children frame_data"
    and bad: "case scan_children children frame_data
                   \<lparr>compressors = NULL, chunk_sizes = NULL, chunk_offsets = NULL,
                    chunk_count = 0\<rparr> of
                Inl e \<Rightarrow> True
              | Inr t \<Rightarrow> compressors t = NULL \<or> chunk_sizes t = NULL"
  shows "hap_decode_complex S
           (section_bytes (hl_d, 1, concat (map section_bytes children)) @ frame_data)
           (of_nat (length (complex_frame hl_t f hl_d children frame_data)))
           (ucast hl_t) dispatch out cap = Some (HapResult_Bad_Frame, out, 0, 0)"
proof (cases "scan_children children frame_data
                   \<lparr>compressors = NULL, chunk_sizes = NULL, chunk_offsets = NULL,
                    chunk_count = 0\<rparr>")
  case (Inl e)
  with scan_children_error [OF Inl] show ?thesis
    by (simp add: hap_decode_complex_def hap_decode_instructions_frame [OF v])
next
  case (Inr t)
  with bad have "compressors t = NULL \<or> chunk_sizes t = NULL" by simp
  with Inr show ?thesis
    by (cases "compressors t"; cases "chunk_sizes t")
       (simp_all add: hap_decode_complex_def hap_decode_instructions_frame [OF v])
qed

lemmas frame_defs =
  complex_frame_def complex_type_byte_def section_bytes_def valid_complex_frame_def
  valid_section_def implied_chunk_count_def
  kHapSectionDecodeInstructionsContainer_def kHapSectionChunkSecondStageCompressorTable_def
  kHapSectionChunkSizeTable_def kHapSectionChunkOffsetTable_def

section \<open>C4: tables that disagree, tables that are missing\<close>

text \<open>
  C4: in the Decode Instructions Container of a Complex frame every recognised child
  table implies a chunk count (\<open>implied_chunk_count\<close>). When two of the children
  imply different non-zero counts, or no child is a compressor table, or no child is
  a chunk size table, \<^verbatim>\<open>HapDecode\<close> returns \<^verbatim>\<open>HapResult_Bad_Frame\<close>; the destination
  and the byte count are left as they were and the callback is not called.
\<close>

theorem HapDecode_inconsistent_instructions:
  assumes v: "valid_complex_frame hl_t f hl_d children frame_data"
    and bad: "(\<exists>a \<in> set children. \<exists>b \<in> set children.
                 implied_chunk_count a \<noteq> 0 \<and> implied_chunk_count b \<noteq> 0
                 \<and> implied_chunk_count a \<noteq> implied_chunk_count b)
              \<or> (\<forall>s \<in> set children. (ucast (fst (snd s)) :: uint32_t)
                      \<noteq> kHapSectionChunkSecondStageCompressorTable)
              \<or> (\<forall>s \<in> set children. (ucast (fst (snd s)) :: uint32_t)
                      \<noteq> kHapSectionChunkSizeTable)"
  shows "HapDecode S (Ptr (complex_frame hl_t f hl_d children frame_data))
           (of_nat (length (complex_frame hl_t f hl_d children frame_data)))
           (Ptr dispatch) (Ptr out) cap used (Ptr tf) =
         Some \<lparr>returned = HapResult_Bad_Frame, outputBuffer_after = Ptr out,
                outputBufferBytesUsed_after = used,
                outputBufferTextureFormat_after = Ptr (Enum f),
                callback_calls = 0\<rparr>"
proof -
  let ?init = "\<lparr>compressors = NULL, chunk_sizes = NULL, chunk_offsets = NULL,
                chunk_count = 0\<rparr>"
  have "case scan_children children frame_data ?init of
          Inl e \<Rightarrow> True
        | Inr t \<Rightarrow> compressors t = NULL \<or> chunk_sizes t = NULL"
  proof (cases "scan_children children frame_data ?init")
    case (Inl e)
    then show ?thesis by simp
  next
    case (Inr t)
    from scan_children_counts [OF Inr]
    have "\<forall>s \<in> set children. implied_chunk_count s \<noteq> 0
            \<longrightarrow> implied_chunk_count s = chunk_count t"
      by blast
    with bad have "(\<forall>s \<in> set children. (ucast (fst (snd s)) :: uint32_t)
                      \<noteq> kHapSectionChunkSecondStageCompressorTable)
              \<or> (\<forall>s \<in> set children. (ucast (fst (snd s)) :: uint32_t)
                      \<noteq> kHapSectionChunkSizeTable)"
      by metis
    with scan_children_tables [OF Inr] show ?thesis
      by (simp add: Inr)
  qed
  from hap_decode_complex_frame_Bad_Frame [OF v this, of S dispatch out cap]
  show ?thesis
    by (simp add: HapDecode_complex_frame [OF v])
qed

theorem HapDecode_inconsistent_instructions_witness:
  "complex_frame 4 HapTextureFormat_RGB_DXT1 4
       [(4, 2, [0xA, 0xA]), (4, 3, [1, 0, 0, 0])] [5, 6]
     = [20, 0, 0, 0xCB, 14, 0, 0, 1, 2, 0, 0, 2, 0xA, 0xA, 4, 0, 0, 3, 1, 0, 0, 0, 5, 6]
   \<and> implied_chunk_count (4, 2, [0xA, 0xA]) = 2
   \<and> implied_chunk_count (4, 3, [1, 0, 0, 0]) = 1
   \<and> HapDecode run_length_codec
        (Ptr [20, 0, 0, 0xCB, 14, 0, 0, 1, 2, 0, 0, 2, 0xA, 0xA, 4, 0, 0, 3, 1, 0, 0, 0, 5, 6])
        24 (Ptr every_chunk_once) (Ptr [0, 0]) 2 (Ptr 9) (Ptr Unrecognised)
     = Some \<lparr>returned = HapResult_Bad_Frame, outputBuffer_after = Ptr [0, 0],
             outputBufferBytesUsed_after = Ptr 9,
             outputBufferTextureFormat_after = Ptr (Enum HapTextureFormat_RGB_DXT1),
             callback_calls = 0\<rparr>"
proof -
  have fr: "complex_frame 4 HapTextureFormat_RGB_DXT1 4
       [(4, 2, [0xA, 0xA]), (4, 3, [1, 0, 0, 0])] [5, 6]
     = [20, 0, 0, 0xCB, 14, 0, 0, 1, 2, 0, 0, 2, 0xA, 0xA, 4, 0, 0, 3, 1, 0, 0, 0, 5, 6]"
    by (simp add: frame_defs eval_defs)
  have v: "valid_complex_frame 4 HapTextureFormat_RGB_DXT1 4
       [(4, 2, [0xA, 0xA]), (4, 3, [1, 0, 0, 0])] [5, 6]"
    unfolding valid_complex_frame_def fr by (simp add: frame_defs eval_defs)
  have c: "implied_chunk_count (4, 2, [0xA, 0xA]) = 2"
      "implied_chunk_count (4, 3, [1, 0, 0, 0]) = 1"
    by (simp_all add: frame_defs)
  show ?thesis
    using HapDecode_inconsistent_instructions [OF v, of run_length_codec every_chunk_once
        "[0, 0]" 2 "Ptr 9" Unrecognised, unfolded fr] c fr
    by simp
qed

section \<open>The chunk descriptors\<close>

lemma hap_chunk_info_loop_step:
  assumes "i < count"
  shows "hap_chunk_info_loop S compressor_table size_table offset_table frame_data i count
       rc ru chunk_info =
        (if i \<ge> length compressor_table \<or> i * 4 \<ge> 2 ^ 31 then Inl Out_Of_Bounds
         else case hap_read_4_byte_uint (drop (i * 4) size_table) of
           None \<Rightarrow> Inl Out_Of_Bounds
         | Some chunk_size \<Rightarrow>
            (case (case offset_table of
                     Ptr offsets \<Rightarrow>
                       (case hap_read_4_byte_uint (drop (i * 4) offsets) of
                          None \<Rightarrow> None
                        | Some offset \<Rightarrow> Some (drop (unat offset) frame_data))
                   | NULL \<Rightarrow> Some (drop (unat rc) frame_data)) of
               None \<Rightarrow> Inl Out_Of_Bounds
             | Some data \<Rightarrow>
                (let c = (ucast (compressor_table ! i) :: uint32_t);
                     (snappy_result, uncompressed) =
                        (if c = kHapCompressorSnappy
                         then snappy_uncompressed_length S data (ucast chunk_size)
                         else (SNAPPY_OK, ucast chunk_size))
                 in if snappy_result \<noteq> SNAPPY_OK
                    then Inl (Hap (if snappy_result = SNAPPY_INVALID_INPUT
                                   then HapResult_Bad_Frame else HapResult_Internal_Error))
                    else hap_chunk_info_loop S compressor_table size_table offset_table
                           frame_data (i + 1) count
                           (rc + ucast chunk_size)
                           (ru + uncompressed)
                           (chunk_info @
                              [\<lparr>result = None, compressor = c,
                                compressed_chunk_data = data,
                                compressed_chunk_size = ucast chunk_size,
                                uncompressed_chunk_data = ru,
                                uncompressed_chunk_size = uncompressed\<rparr>]))))"
  using assms by (subst hap_chunk_info_loop.simps) simp

lemma hap_chunk_info_loop_done:
  assumes "\<not> i < count"
  shows "hap_chunk_info_loop S compressor_table size_table offset_table frame_data i count
       rc ru chunk_info = Inr (chunk_info, ru)"
  using assms by (subst hap_chunk_info_loop.simps) simp

lemma hap_chunk_info_loop_result:
  assumes "hap_chunk_info_loop S ct st ot fd i count rc ru ci0 = Inr (ci, tot)"
  shows "\<exists>new. ci = ci0 @ new
           \<and> tot = ru + sum_list (map uncompressed_chunk_size new)
           \<and> length new = count - i
           \<and> (\<forall>c \<in> set new. result c = None)"
  using assms
proof (induction S ct st ot fd i count rc ru ci0 rule: hap_chunk_info_loop.induct)
  case (1 S ct st ot fd i count rc ru ci0)
  show ?case
  proof (cases "i < count")
    case False
    with "1.prems" show ?thesis by (simp add: hap_chunk_info_loop_done)
  next
    case True
    from "1.prems" [unfolded hap_chunk_info_loop_step [OF True]]
    obtain chunk_size data sr unc where
      a: "\<not> (i \<ge> length ct \<or> i * 4 \<ge> 2 ^ 31)"
        "hap_read_4_byte_uint (drop (i * 4) st) = Some chunk_size"
        "(case ot of
            Ptr offsets \<Rightarrow>
              (case hap_read_4_byte_uint (drop (i * 4) offsets) of
                 None \<Rightarrow> None
               | Some offset \<Rightarrow> Some (drop (unat offset) fd))
          | NULL \<Rightarrow> Some (drop (unat rc) fd)) = Some data"
        "(if (ucast (ct ! i) :: uint32_t) = kHapCompressorSnappy
          then snappy_uncompressed_length S data (ucast chunk_size)
          else (SNAPPY_OK, ucast chunk_size)) = (sr, unc)"
        "sr = SNAPPY_OK"
      and rec: "hap_chunk_info_loop S ct st ot fd (i + 1) count (rc + ucast chunk_size)
             (ru + unc)
             (ci0 @ [\<lparr>result = None, compressor = ucast (ct ! i),
                      compressed_chunk_data = data,
                      compressed_chunk_size = ucast chunk_size,
                      uncompressed_chunk_data = ru,
                      uncompressed_chunk_size = unc\<rparr>]) = Inr (ci, tot)"
      by (auto simp: Let_def split: if_splits option.splits prod.splits)
    from "1.IH" [OF True a(1) a(2) a(3) refl a(4) [symmetric] refl _ rec] a(5)
    obtain new where n: "ci = (ci0 @ [\<lparr>result = None, compressor = ucast (ct ! i),
                      compressed_chunk_data = data,
                      compressed_chunk_size = ucast chunk_size,
                      uncompressed_chunk_data = ru,
                      uncompressed_chunk_size = unc\<rparr>]) @ new"
      "tot = ru + unc + sum_list (map uncompressed_chunk_size new)"
      "length new = count - (i + 1)" "\<forall>c \<in> set new. result c = None"
      by auto
    show ?thesis
      using n True
      by (intro exI [of _ "\<lparr>result = None, compressor = ucast (ct ! i),
                      compressed_chunk_data = data,
                      compressed_chunk_size = ucast chunk_size,
                      uncompressed_chunk_data = ru,
                      uncompressed_chunk_size = unc\<rparr> # new"]) (auto simp: add.assoc)
  qed
qed


lemma hap_decode_chunk_results:
  assumes "hap_decode_chunk S (chunks, out) index = Some (chunks', out')"
    and "list_all not_too_small chunks"
  shows "list_all not_too_small chunks'"
proof -
  have upd: "list_all not_too_small (chunks[k := c])"
    if "not_too_small c" for k c
    using assms(2) that set_update_subset_insert [of chunks k c]
    by (auto simp: list_all_iff)
  from assms(1) show ?thesis
    by (auto simp: hap_decode_chunk_def Let_def not_too_small_def intro!: upd
        split: if_splits prod.splits snappy_status.splits
        elim!: bind_eq_Some_conv [THEN iffD1, elim_format])
qed

lemma hap_run_work_results:
  assumes "hap_run_work S indices (chunks, out) = Some (chunks', out')"
    and "list_all not_too_small chunks"
  shows "list_all not_too_small chunks'"
  using assms
proof (induction indices arbitrary: chunks out)
  case Nil
  then show ?case by simp
next
  case (Cons index rest)
  from Cons.prems(1) obtain c1 o1 where
    s: "hap_decode_chunk S (chunks, out) index = Some (c1, o1)"
      "hap_run_work S rest (c1, o1) = Some (chunks', out')"
    by (auto split: option.splits)
  from Cons.IH [OF s(2) hap_decode_chunk_results [OF s(1) Cons.prems(2)]]
  show ?case .
qed

lemma hap_chunk_results_not_too_small:
  assumes "hap_chunk_results chunks = Some r" "list_all not_too_small chunks"
  shows "r \<noteq> HapResult_Buffer_Too_Small"
  using assms
  by (induction chunks) (auto simp: not_too_small_def split: option.splits if_splits)

lemma unat_sum_list:
  fixes ws :: "size_t list"
  assumes "sum_list (map unat ws) < 2 ^ 64"
  shows "unat (sum_list ws) = sum_list (map unat ws)"
  using assms
proof (induction ws)
  case Nil
  then show ?case by simp
next
  case (Cons w ws)
  then have ih: "unat (sum_list ws) = sum_list (map unat ws)" by simp
  from Cons.prems have "unat w + unat (sum_list ws) < 2 ^ LENGTH(64)"
    by (simp add: ih)
  then have "unat (w + sum_list ws) = unat w + unat (sum_list ws)"
    by (simp only: unat_add_lem)
  then show ?case by (simp add: ih)
qed

lemma hap_decode_complex_too_small:
  assumes "hap_decode_complex S sectionStart n hl dispatch out cap
             = Some (HapResult_Buffer_Too_Small, out', calls, b)"
  shows "out' = out \<and> calls = 0"
proof -
  have loop: "False"
    if l: "hap_chunk_info_loop S ct st ot fd 0 count 0 0 [] = Inr (ci, tot)"
      and w: "hap_run_work S indices (ci, out) = Some (ci', o')"
      and r: "hap_chunk_results ci' = Some HapResult_Buffer_Too_Small"
    for ct st ot fd count ci tot indices ci' o'
  proof -
    from hap_chunk_info_loop_result [OF l] have "list_all not_too_small ci"
      by (auto simp: list_all_iff not_too_small_def)
    from hap_chunk_results_not_too_small [OF r hap_run_work_results [OF w this]]
    show False by simp
  qed
  from assms show ?thesis
    by (auto simp: hap_decode_complex_def
        split: sum.splits error.splits prod.splits ptr.splits if_splits option.splits
        dest: loop)
qed

text \<open>
  The loop builds the descriptors that the spec describes: on the tables of a list of
  chunks it returns the sum of \<open>chunk_uncompressed_sizes\<close>.
\<close>

lemma length_size_table:
  "length (concat (map hap_write_4_byte_uint ws)) = 4 * length ws"
  by (induction ws) (simp_all add: hap_write_4_byte_uint_def)

lemma read_size_table:
  "i < length ws \<Longrightarrow>
     hap_read_4_byte_uint (drop (i * 4) (concat (map hap_write_4_byte_uint ws) @ rest))
       = Some (ws ! i)"
proof (induction ws arbitrary: i)
  case Nil
  then show ?case by simp
next
  case (Cons w ws)
  show ?case
  proof (cases i)
    case 0
    then show ?thesis by (simp add: hap_read_4_byte_uint_write)
  next
    case (Suc j)
    have "length (hap_write_4_byte_uint w) = 4"
      by (simp add: hap_write_4_byte_uint_def)
    with Cons Suc show ?thesis by simp
  qed
qed

lemma length_chunk_starts: "length (chunk_starts start cs) = length cs"
  by (induction cs arbitrary: start) simp_all

lemma chunk_starts_nth:
  "i < length cs \<Longrightarrow>
     chunk_starts start cs ! i = start + sum_list (map (\<lambda>c. unat (snd c)) (take i cs))"
proof (induction cs arbitrary: start i)
  case Nil
  then show ?case by simp
next
  case (Cons c cs)
  then show ?case by (cases i) simp_all
qed

lemma sum_sizes_bound:
  fixes cs :: "chunk list"
  shows "sum_list (map (\<lambda>c. unat (snd c)) cs) \<le> length cs * 2 ^ 32"
proof (induction cs)
  case Nil
  then show ?case by simp
next
  case (Cons c cs)
  have "unat (snd c) < 2 ^ 32"
    using unsigned_less [of "snd c", where 'a = nat] by simp
  with Cons show ?case by simp
qed


lemma hap_chunk_info_loop_chunks:
  assumes ct: "ct = chunk_compressor_table chunks @ X"
    and st: "st = chunk_size_table chunks @ Y"
    and ot: "case offsets of
               None \<Rightarrow> ot = NULL
             | Some os \<Rightarrow> length os = length chunks
                          \<and> (\<exists>Z. ot = Ptr (chunk_offset_table os @ Z))"
    and n: "length chunks \<le> 2 ^ 29"
    and ok: "list_all (\<lambda>r. fst r = SNAPPY_OK) (chunk_uncompressed_sizes S fd chunks offsets)"
    and k: "length chunks - i = k" "i \<le> length chunks"
    and rc: "rc = of_nat (sum_list (map (\<lambda>c. unat (snd c)) (take i chunks)))"
  shows "\<exists>ci. hap_chunk_info_loop S ct st ot fd i (length chunks) rc ru ci0 =
           Inr (ci, ru + sum_list (map snd (drop i
                         (chunk_uncompressed_sizes S fd chunks offsets))))"
  using k rc
proof (induction k arbitrary: i rc ru ci0)
  case 0
  then have "\<not> i < length chunks" by simp
  moreover have "length (chunk_uncompressed_sizes S fd chunks offsets) \<le> length chunks"
    by (simp add: chunk_uncompressed_sizes_def)
  ultimately show ?case
    by (simp add: hap_chunk_info_loop_done)
next
  case (Suc k)
  let ?sizes = "chunk_uncompressed_sizes S fd chunks offsets"
  let ?locs = "chunk_locations chunks offsets"
  from Suc.prems have i: "i < length chunks" by simp
  have ll: "length ?locs = length chunks"
    using ot by (cases offsets) (simp_all add: chunk_locations_def length_chunk_starts)
  then have ls: "length ?sizes = length chunks"
    by (simp add: chunk_uncompressed_sizes_def)
  have si: "?sizes ! i = chunk_uncompressed_size S fd (chunks ! i) (?locs ! i)"
    using i ll by (simp add: chunk_uncompressed_sizes_def)
  have a1: "\<not> (i \<ge> length ct \<or> i * 4 \<ge> 2 ^ 31)"
    using i n ct by (simp add: chunk_compressor_table_def)
  have a2: "hap_read_4_byte_uint (drop (i * 4) st) = Some (snd (chunks ! i))"
    using read_size_table [of i "map snd chunks" Y] i by (simp add: st chunk_size_table_def comp_def)
  have cti: "ct ! i = fst (chunks ! i)"
    using i by (simp add: ct chunk_compressor_table_def nth_append)
  have bound: "sum_list (map (\<lambda>c. unat (snd c)) (take i chunks)) < 2 ^ 64"
  proof -
    have "sum_list (map (\<lambda>c. unat (snd c)) (take i chunks)) \<le> length (take i chunks) * 2 ^ 32"
      by (rule sum_sizes_bound)
    also have "\<dots> \<le> 2 ^ 29 * 2 ^ 32" using i n by simp
    finally show ?thesis by simp
  qed
  have urc: "unat rc = sum_list (map (\<lambda>c. unat (snd c)) (take i chunks))"
    unfolding Suc.prems(3) using bound by (rule unat_of_nat64)
  have a3: "(case ot of
            Ptr offsets \<Rightarrow>
              (case hap_read_4_byte_uint (drop (i * 4) offsets) of
                 None \<Rightarrow> None
               | Some offset \<Rightarrow> Some (drop (unat offset) fd))
          | NULL \<Rightarrow> Some (drop (unat rc) fd)) = Some (drop (?locs ! i) fd)"
  proof (cases offsets)
    case None
    with ot have "ot = NULL" by simp
    then show ?thesis
      using i by (simp add: None chunk_locations_def chunk_starts_nth urc)
  next
    case (Some os)
    with ot obtain Z where z: "length os = length chunks"
        "ot = Ptr (concat (map hap_write_4_byte_uint os) @ Z)"
      by (auto simp: chunk_offset_table_def)
    from read_size_table [of i os Z] i z
    show ?thesis by (simp add: Some chunk_locations_def)
  qed
  obtain sr unc where su: "?sizes ! i = (sr, unc)" by (cases "?sizes ! i")
  from ok i ls have sr: "sr = SNAPPY_OK"
    using su by (auto simp: list_all_length)
  have a4: "(if (ucast (ct ! i) :: uint32_t) = kHapCompressorSnappy
          then snappy_uncompressed_length S (drop (?locs ! i) fd) (ucast (snd (chunks ! i)))
          else (SNAPPY_OK, ucast (snd (chunks ! i)))) = (sr, unc)"
    using su by (simp add: si chunk_uncompressed_size_def cti)
  have rc': "rc + ucast (snd (chunks ! i))
             = of_nat (sum_list (map (\<lambda>c. unat (snd c)) (take (i + 1) chunks)))"
    using i by (simp add: Suc.prems(3) take_Suc_conv_app_nth)
  from Suc.prems have k': "length chunks - (i + 1) = k" "i + 1 \<le> length chunks"
    by simp_all
  from Suc.IH [OF k' rc', of "ru + unc"
      "ci0 @ [\<lparr>result = None, compressor = ucast (ct ! i),
               compressed_chunk_data = drop (?locs ! i) fd,
               compressed_chunk_size = ucast (snd (chunks ! i)),
               uncompressed_chunk_data = ru,
               uncompressed_chunk_size = unc\<rparr>]"]
  obtain ci where rec: "hap_chunk_info_loop S ct st ot fd (i + 1) (length chunks)
          (rc + ucast (snd (chunks ! i))) (ru + unc)
          (ci0 @ [\<lparr>result = None, compressor = ucast (ct ! i),
               compressed_chunk_data = drop (?locs ! i) fd,
               compressed_chunk_size = ucast (snd (chunks ! i)),
               uncompressed_chunk_data = ru,
               uncompressed_chunk_size = unc\<rparr>])
        = Inr (ci, ru + unc + sum_list (map snd (drop (i + 1) ?sizes)))"
    by blast
  have "drop i ?sizes = (sr, unc) # drop (i + 1) ?sizes"
    using i ls su by (simp add: Cons_nth_drop_Suc [symmetric])
  then have tot: "ru + sum_list (map snd (drop i ?sizes))
               = ru + unc + sum_list (map snd (drop (i + 1) ?sizes))"
    by (simp add: add.assoc)
  show ?case
    unfolding hap_chunk_info_loop_step [OF i]
    using a1 by (simp only: if_False a2 a3 option.case Let_def a4 prod.case sr tot rec)
                (simp)
qed


lemma quarter_of_size_table:
  assumes "n \<le> 2 ^ 29"
  shows "(of_nat (4 * n) :: uint32_t) div 4 = of_nat n"
proof -
  have a: "unat (of_nat (4 * n) :: uint32_t) = 4 * n"
    using assms by (intro unat_of_nat32) simp
  have b: "unat (of_nat n :: uint32_t) = n"
    using assms by (intro unat_of_nat32) simp
  have "unat ((of_nat (4 * n) :: uint32_t) div 4) = unat (of_nat (4 * n) :: uint32_t) div 4"
    by (simp add: unat_div)
  then show ?thesis
    by (simp only: word_unat_eq_iff a b)
qed


lemma chunk_count_of_nat:
  assumes "0 < n" "n \<le> 2 ^ 29"
  shows "(of_nat n :: uint32_t) \<noteq> 0" and "unat (of_nat n :: uint32_t) = n"
    and "0 < sint (of_nat n :: uint32_t)"
    and "(scast (of_nat n :: uint32_t) :: size_t) = of_nat n"
proof -
  show u: "unat (of_nat n :: uint32_t) = n"
    using assms by (intro unat_of_nat32) simp
  show "(of_nat n :: uint32_t) \<noteq> 0"
  proof
    assume "(of_nat n :: uint32_t) = 0"
    then have "unat (of_nat n :: uint32_t) = 0" by simp
    with u assms show False by simp
  qed
  have "n < 2 ^ 31" using assms by simp
  then have s: "sint (of_nat n :: uint32_t) = int n"
    by (simp add: signed_of_nat signed_take_bit_int_eq_self)

  with assms show "0 < sint (of_nat n :: uint32_t)" by simp
  show "(scast (of_nat n :: uint32_t) :: size_t) = of_nat n"
    using s by (simp add: scast_eq)
qed


lemma length_chunk_size_table:
  "length (concat (map (\<lambda>c. hap_write_4_byte_uint (f c)) cs)) = 4 * length cs"
  by (induction cs) (simp_all add: hap_write_4_byte_uint_def)

lemma scan_children_succeeds:
  assumes "\<forall>s \<in> set cs. implied_chunk_count s = 0 \<or> implied_chunk_count s = m"
    and "chunk_count t = 0 \<or> chunk_count t = m"
  shows "\<exists>t'. scan_children cs tail t = Inr t'"
  using assms by (induction cs arbitrary: t) (auto simp: Let_def)

lemma scan_children_compressors:
  assumes "scan_children cs tail t = Inr t'"
  shows "compressors t' = compressors t
           \<and> (\<forall>s \<in> set cs. (ucast (fst (snd s)) :: uint32_t)
                   \<noteq> kHapSectionChunkSecondStageCompressorTable)
         \<or> (\<exists>s \<in> set cs. (ucast (fst (snd s)) :: uint32_t)
                   = kHapSectionChunkSecondStageCompressorTable
               \<and> (\<exists>X. compressors t' = Ptr (snd (snd s) @ X)))"
  using assms
proof (induction cs arbitrary: t)
  case Nil
  then show ?case by simp
next
  case (Cons s cs)
  from Cons.prems obtain t1 where
    t1: "scan_children cs tail t1 = Inr t'"
    "compressors t1 =
       (if (ucast (fst (snd s)) :: uint32_t) = kHapSectionChunkSecondStageCompressorTable
        then Ptr (snd (snd s) @ concat (map section_bytes cs) @ tail) else compressors t)"
    by (auto simp: Let_def kHapSectionChunkSecondStageCompressorTable_def
        kHapSectionChunkSizeTable_def kHapSectionChunkOffsetTable_def split: if_splits)
  from Cons.IH [OF t1(1)] t1(2) show ?case
    by (auto split: if_splits)
qed

lemma scan_children_chunk_sizes:
  assumes "scan_children cs tail t = Inr t'"
  shows "chunk_sizes t' = chunk_sizes t
           \<and> (\<forall>s \<in> set cs. (ucast (fst (snd s)) :: uint32_t) \<noteq> kHapSectionChunkSizeTable)
         \<or> (\<exists>s \<in> set cs. (ucast (fst (snd s)) :: uint32_t) = kHapSectionChunkSizeTable
               \<and> (\<exists>X. chunk_sizes t' = Ptr (snd (snd s) @ X)))"
  using assms
proof (induction cs arbitrary: t)
  case Nil
  then show ?case by simp
next
  case (Cons s cs)
  from Cons.prems obtain t1 where
    t1: "scan_children cs tail t1 = Inr t'"
    "chunk_sizes t1 =
       (if (ucast (fst (snd s)) :: uint32_t) = kHapSectionChunkSizeTable
        then Ptr (snd (snd s) @ concat (map section_bytes cs) @ tail) else chunk_sizes t)"
    by (auto simp: Let_def kHapSectionChunkSecondStageCompressorTable_def
        kHapSectionChunkSizeTable_def kHapSectionChunkOffsetTable_def split: if_splits)
  from Cons.IH [OF t1(1)] t1(2) show ?case
    by (auto split: if_splits)
qed

lemma scan_children_chunk_offsets:
  assumes "scan_children cs tail t = Inr t'"
  shows "chunk_offsets t' = chunk_offsets t
           \<and> (\<forall>s \<in> set cs. (ucast (fst (snd s)) :: uint32_t) \<noteq> kHapSectionChunkOffsetTable)
         \<or> (\<exists>s \<in> set cs. (ucast (fst (snd s)) :: uint32_t) = kHapSectionChunkOffsetTable
               \<and> (\<exists>X. chunk_offsets t' = Ptr (snd (snd s) @ X)))"
  using assms
proof (induction cs arbitrary: t)
  case Nil
  then show ?case by simp
next
  case (Cons s cs)
  from Cons.prems obtain t1 where
    t1: "scan_children cs tail t1 = Inr t'"
    "chunk_offsets t1 =
       (if (ucast (fst (snd s)) :: uint32_t) = kHapSectionChunkOffsetTable
        then Ptr (snd (snd s) @ concat (map section_bytes cs) @ tail) else chunk_offsets t)"
    by (auto simp: Let_def kHapSectionChunkSecondStageCompressorTable_def
        kHapSectionChunkSizeTable_def kHapSectionChunkOffsetTable_def split: if_splits)
  from Cons.IH [OF t1(1)] t1(2) show ?case
    by (auto split: if_splits)
qed

lemma scan_children_describes_chunks:
  assumes d: "describes_chunks children chunks offsets"
    and n: "chunks \<noteq> []" "length chunks \<le> 2 ^ 29"
  shows "\<exists>t X Y.
           scan_children children fd
             \<lparr>compressors = NULL, chunk_sizes = NULL, chunk_offsets = NULL, chunk_count = 0\<rparr>
             = Inr t
         \<and> compressors t = Ptr (chunk_compressor_table chunks @ X)
         \<and> chunk_sizes t = Ptr (chunk_size_table chunks @ Y)
         \<and> chunk_count t = of_nat (length chunks)
         \<and> (case offsets of
              None \<Rightarrow> chunk_offsets t = NULL
            | Some os \<Rightarrow> length os = length chunks
                \<and> (\<exists>Z. chunk_offsets t = Ptr (chunk_offset_table os @ Z)))"
proof -
  let ?init = "\<lparr>compressors = NULL, chunk_sizes = NULL, chunk_offsets = NULL,
                chunk_count = 0\<rparr>"
  let ?n = "of_nat (length chunks) :: uint32_t"
  from n have p: "0 < length chunks" by simp
  note cc = chunk_count_of_nat [OF p n(2)]
  have q: "(4 * of_nat (length chunks) :: uint32_t) div 4 = of_nat (length chunks)"
    using quarter_of_size_table [OF n(2)] by simp
  from d have hc: "holds_table children kHapSectionChunkSecondStageCompressorTable
                     (chunk_compressor_table chunks)"
    and hs: "holds_table children kHapSectionChunkSizeTable (chunk_size_table chunks)"
    and ho: "case offsets of
            None \<Rightarrow>
              \<forall>s \<in> set children. (ucast (fst (snd s)) :: uint32_t) \<noteq> kHapSectionChunkOffsetTable
          | Some os \<Rightarrow>
              length os = length chunks
              \<and> holds_table children kHapSectionChunkOffsetTable (chunk_offset_table os)"
    by (simp_all add: describes_chunks_def)
  have counts: "implied_chunk_count s = 0 \<or> implied_chunk_count s = ?n"
    if s: "s \<in> set children" for s
  proof -
    obtain hl ty pl where e: "s = (hl, ty, pl)" by (cases s)
    consider
      (c) "(ucast ty :: uint32_t) = kHapSectionChunkSecondStageCompressorTable"
      | (z) "(ucast ty :: uint32_t) = kHapSectionChunkSizeTable"
      | (o) "(ucast ty :: uint32_t) = kHapSectionChunkOffsetTable"
      | (u) "(ucast ty :: uint32_t) \<noteq> kHapSectionChunkSecondStageCompressorTable"
          "(ucast ty :: uint32_t) \<noteq> kHapSectionChunkSizeTable"
          "(ucast ty :: uint32_t) \<noteq> kHapSectionChunkOffsetTable"
      by blast
    then show ?thesis
    proof cases
      case c
      with hc s have "pl = chunk_compressor_table chunks"
        by (auto simp: holds_table_def e)
      with c show ?thesis
        by (simp add: e implied_chunk_count_def chunk_compressor_table_def)
    next
      case z
      with hs s have "pl = chunk_size_table chunks"
        by (auto simp: holds_table_def e)
      with z show ?thesis
        by (simp add: e implied_chunk_count_def chunk_size_table_def length_chunk_size_table q
            kHapSectionChunkSecondStageCompressorTable_def kHapSectionChunkSizeTable_def)
    next
      case o
      with ho s obtain os where os: "offsets = Some os" "length os = length chunks"
          "pl = chunk_offset_table os"
        by (cases offsets) (auto simp: holds_table_def e)
      with o show ?thesis
        by (simp add: e implied_chunk_count_def chunk_offset_table_def length_size_table q
            kHapSectionChunkSecondStageCompressorTable_def kHapSectionChunkSizeTable_def
            kHapSectionChunkOffsetTable_def)
    next
      case u
      then show ?thesis
        by (simp add: e implied_chunk_count_def)
    qed
  qed
  from scan_children_succeeds [of children ?n ?init fd] counts
  obtain t where t: "scan_children children fd ?init = Inr t"
    by auto
  from hc obtain s where s: "s \<in> set children"
      "(ucast (fst (snd s)) :: uint32_t) = kHapSectionChunkSecondStageCompressorTable"
      "snd (snd s) = chunk_compressor_table chunks"
    by (auto simp: holds_table_def)
  obtain hl ty pl where e: "s = (hl, ty, pl)" by (cases s)
  from s(2,3) have "implied_chunk_count s = ?n"
    by (simp add: e implied_chunk_count_def chunk_compressor_table_def)
  with scan_children_counts [OF t] s(1) cc(1) have cn: "chunk_count t = ?n"
    by metis
  from scan_children_compressors [OF t] hc
  obtain X where X: "compressors t = Ptr (chunk_compressor_table chunks @ X)"
    by (auto simp: holds_table_def)
  from scan_children_chunk_sizes [OF t] hs
  obtain Y where Y: "chunk_sizes t = Ptr (chunk_size_table chunks @ Y)"
    by (auto simp: holds_table_def)
  have O: "case offsets of
              None \<Rightarrow> chunk_offsets t = NULL
            | Some os \<Rightarrow> length os = length chunks
                \<and> (\<exists>Z. chunk_offsets t = Ptr (chunk_offset_table os @ Z))"
  proof (cases offsets)
    case None
    with ho scan_children_chunk_offsets [OF t] show ?thesis by auto
  next
    case (Some os)
    with ho scan_children_chunk_offsets [OF t] show ?thesis
      by (auto simp: holds_table_def)
  qed
  from t X Y cn O show ?thesis by blast
qed

lemma HapDecode_complex_branch:
  assumes hdr: "hap_read_section_header input (ucast inputBufferBytes) = Inr h"
    and cx: "hap_top_4_bits (out_section_type h) = kHapCompressorComplex"
    and fmt: "hap_texture_format_constant_for_format_identifier
                (hap_bottom_4_bits (out_section_type h)) = Enum f"
  shows "HapDecode S (Ptr input) inputBufferBytes (Ptr dispatch) (Ptr out)
                  outputBufferBytes used (Ptr tf) =
         (case hap_decode_complex S (drop (unat (out_header_length h)) input)
                 inputBufferBytes (out_header_length h) dispatch out outputBufferBytes of
            None \<Rightarrow> None
          | Some (r, out', calls, bytesUsed) \<Rightarrow>
              Some \<lparr>returned = r, outputBuffer_after = Ptr out',
                     outputBufferBytesUsed_after =
                       (if r \<noteq> HapResult_No_Error then used
                        else case used of NULL \<Rightarrow> NULL | Ptr _ \<Rightarrow> Ptr bytesUsed),
                     outputBufferTextureFormat_after = Ptr (Enum f),
                     callback_calls = calls\<rparr>)"
  unfolding HapDecode_def
  by (simp only: prod.case ptr.case hdr sum.case Let_def cx fmt)
     (auto split: option.splits)

lemma HapDecode_Buffer_Too_Small_untouched:
  assumes hdr: "hap_read_section_header input (ucast inputBufferBytes) = Inr h"
    and cx: "hap_top_4_bits (out_section_type h) = kHapCompressorComplex"
    and dec: "HapDecode S (Ptr input) inputBufferBytes (Ptr dispatch) (Ptr out)
                outputBufferBytes used (Ptr tf) = Some r"
    and r: "returned r = HapResult_Buffer_Too_Small"
  shows "outputBuffer_after r = Ptr out \<and> callback_calls r = 0
         \<and> outputBufferBytesUsed_after r = used"
proof (cases "hap_texture_format_constant_for_format_identifier
                (hap_bottom_4_bits (out_section_type h))")
  case Unrecognised
  with dec r show ?thesis
    by (simp add: HapDecode_def hdr Let_def) auto
next
  case (Enum f)
  from dec r obtain out' calls b where
    c: "hap_decode_complex S (drop (unat (out_header_length h)) input)
               inputBufferBytes (out_header_length h) dispatch out outputBufferBytes
        = Some (HapResult_Buffer_Too_Small, out', calls, b)"
    and r': "r = \<lparr>returned = HapResult_Buffer_Too_Small, outputBuffer_after = Ptr out',
                   outputBufferBytesUsed_after = used,
                   outputBufferTextureFormat_after = Ptr (Enum f),
                   callback_calls = calls\<rparr>"
    by (auto simp: HapDecode_complex_branch [OF hdr cx Enum] split: option.splits)
  from hap_decode_complex_too_small [OF c] r'
  show ?thesis by simp
qed

lemma hap_decode_complex_chunks:
  assumes v: "valid_complex_frame hl_t f hl_d children frame_data"
    and d: "describes_chunks children chunks offsets"
    and n: "chunks \<noteq> []" "length chunks \<le> 2 ^ 29"
    and m: "malloc_succeeds S (40 * of_nat (length chunks))"
    and ok: "list_all (\<lambda>r. fst r = SNAPPY_OK)
               (chunk_uncompressed_sizes S frame_data chunks offsets)"
    and wrap: "(\<Sum>r\<leftarrow>chunk_uncompressed_sizes S frame_data chunks offsets. unat (snd r))
                 < 2 ^ 64"
    and big: "unat cap
                < (\<Sum>r\<leftarrow>chunk_uncompressed_sizes S frame_data chunks offsets. unat (snd r))"
  shows "hap_decode_complex S
           (section_bytes (hl_d, 1, concat (map section_bytes children)) @ frame_data)
           (of_nat (length (complex_frame hl_t f hl_d children frame_data)))
           (ucast hl_t) dispatch out cap = Some (HapResult_Buffer_Too_Small, out, 0, 0)"
proof -
  let ?sizes = "chunk_uncompressed_sizes S frame_data chunks offsets"
  from n have p: "0 < length chunks" by simp
  note cc = chunk_count_of_nat [OF p n(2)]
  from scan_children_describes_chunks [OF d n, of frame_data]
  obtain t X Y where
    t: "scan_children children frame_data
             \<lparr>compressors = NULL, chunk_sizes = NULL, chunk_offsets = NULL, chunk_count = 0\<rparr>
             = Inr t"
    and ct: "compressors t = Ptr (chunk_compressor_table chunks @ X)"
    and st: "chunk_sizes t = Ptr (chunk_size_table chunks @ Y)"
    and cn: "chunk_count t = of_nat (length chunks)"
    and ot: "case offsets of
              None \<Rightarrow> chunk_offsets t = NULL
            | Some os \<Rightarrow> length os = length chunks
                \<and> (\<exists>Z. chunk_offsets t = Ptr (chunk_offset_table os @ Z))"
    by blast
  from hap_chunk_info_loop_chunks [where i = 0 and rc = 0 and ru = 0 and ?ci0.0 = "[]",
      OF refl refl ot n(2) ok refl]
  obtain ci where
    loop: "hap_chunk_info_loop S (chunk_compressor_table chunks @ X) (chunk_size_table chunks @ Y)
             (chunk_offsets t) frame_data 0 (length chunks) 0 0 []
           = Inr (ci, sum_list (map snd ?sizes))"
    by auto
  have "unat (sum_list (map snd ?sizes)) = (\<Sum>r\<leftarrow>?sizes. unat (snd r))"
    using unat_sum_list [of "map snd ?sizes"] wrap by (simp add: comp_def)
  with big have lt: "cap < sum_list (map snd ?sizes)"
    by (simp add: word_less_nat_alt)
  show ?thesis
    using m lt
    by (simp add: hap_decode_complex_def hap_decode_instructions_frame [OF v] t ct st cn cc
        loop)
qed

section \<open>C9: a Complex frame without chunks\<close>

text \<open>
  C9 says that decode returns \<^verbatim>\<open>HapResult_No_Error\<close> with 0 bytes whenever both
  mandatory tables are there and they imply a chunk count of zero. The chunk count of
  the code is the last non-zero count that any table implies, the optional Chunk
  Offset Table included. In the frame below the compressor table and the chunk size
  table are empty and the offset table has one entry: the count is 1, the loop reads
  the compressor and the size of that chunk from the bytes that follow the empty
  tables, and \<^verbatim>\<open>HapDecode\<close> returns \<^verbatim>\<open>HapResult_Buffer_Too_Small\<close>.
\<close>

theorem HapDecode_offset_table_alone_counterexample:
  "complex_frame 4 HapTextureFormat_RGB_DXT1 4
       [(8, 2, []), (8, 3, []), (4, 4, [0, 0, 0, 0])] []
     = [28, 0, 0, 0xCB, 24, 0, 0, 1, 0, 0, 0, 2, 0, 0, 0, 0, 0, 0, 0, 3, 0, 0, 0, 0,
        4, 0, 0, 4, 0, 0, 0, 0]
   \<and> valid_complex_frame 4 HapTextureFormat_RGB_DXT1 4
       [(8, 2, []), (8, 3, []), (4, 4, [0, 0, 0, 0])] []
   \<and> implied_chunk_count (8, 2, []) = 0
   \<and> implied_chunk_count (8, 3, []) = 0
   \<and> HapDecode run_length_codec
        (Ptr [28, 0, 0, 0xCB, 24, 0, 0, 1, 0, 0, 0, 2, 0, 0, 0, 0, 0, 0, 0, 3, 0, 0, 0, 0,
              4, 0, 0, 4, 0, 0, 0, 0])
        32 (Ptr every_chunk_once) (Ptr [7, 7]) 2 (Ptr 9) (Ptr Unrecognised)
     = Some \<lparr>returned = HapResult_Buffer_Too_Small, outputBuffer_after = Ptr [7, 7],
             outputBufferBytesUsed_after = Ptr 9,
             outputBufferTextureFormat_after = Ptr (Enum HapTextureFormat_RGB_DXT1),
             callback_calls = 0\<rparr>"
proof -
  let ?F = "[28, 0, 0, 0xCB, 24, 0, 0, 1, 0, 0, 0, 2, 0, 0, 0, 0, 0, 0, 0, 3, 0, 0, 0, 0,
             4, 0, 0, 4, 0, 0, 0, 0] :: uint8_t list"
  let ?children = "[(8, 2, []), (8, 3, []), (4, 4, [0, 0, 0, 0])] :: child_section list"
  have fr: "complex_frame 4 HapTextureFormat_RGB_DXT1 4 ?children [] = ?F"
    by (simp add: frame_defs eval_defs)
  have v: "valid_complex_frame 4 HapTextureFormat_RGB_DXT1 4 ?children []"
    unfolding valid_complex_frame_def fr by (simp add: frame_defs eval_defs)
  have c: "implied_chunk_count (8, 2, []) = 0" "implied_chunk_count (8, 3, []) = 0"
    by (simp_all add: frame_defs)
  have inst: "hap_decode_instructions (drop 4 ?F) 32 4
      = Inr (\<lparr>compressors = Ptr [0, 0, 0, 3, 0, 0, 0, 0, 4, 0, 0, 4, 0, 0, 0, 0],
              chunk_sizes = Ptr [4, 0, 0, 4, 0, 0, 0, 0], chunk_offsets = Ptr [0, 0, 0, 0],
              chunk_count = 1\<rparr>, [])"
    using hap_decode_instructions_frame [OF v, unfolded fr]
    by (simp add: frame_defs eval_defs Let_def)
  have loop: "hap_chunk_info_loop run_length_codec
        [0, 0, 0, 3, 0, 0, 0, 0, 4, 0, 0, 4, 0, 0, 0, 0] [4, 0, 0, 4, 0, 0, 0, 0]
        (Ptr [0, 0, 0, 0]) [] 0 1 0 0 []
     = Inr ([\<lparr>result = None, compressor = 0, compressed_chunk_data = [],
             compressed_chunk_size = 67108868, uncompressed_chunk_data = 0,
             uncompressed_chunk_size = 67108868\<rparr>], 67108868)"
    by (simp add: hap_chunk_info_loop_step hap_chunk_info_loop_done hap_read_4_byte_uint_def
        Let_def kHapCompressorSnappy_def)
  have run: "hap_decode_complex run_length_codec (drop 4 ?F) 32 4 every_chunk_once
               [7, 7] 2 = Some (HapResult_Buffer_Too_Small, [7, 7], 0, 0)"
    using inst loop
    by (simp add: hap_decode_complex_def run_length_codec_def)
  have d: "HapDecode run_length_codec (Ptr ?F) 32 (Ptr every_chunk_once) (Ptr [7, 7]) 2
       (Ptr 9) (Ptr Unrecognised)
     = Some \<lparr>returned = HapResult_Buffer_Too_Small, outputBuffer_after = Ptr [7, 7],
             outputBufferBytesUsed_after = Ptr 9,
             outputBufferTextureFormat_after = Ptr (Enum HapTextureFormat_RGB_DXT1),
             callback_calls = 0\<rparr>"
    using HapDecode_complex_frame [OF v, unfolded fr, of run_length_codec every_chunk_once
        "[7, 7]" 2 "Ptr 9" Unrecognised] run
    by (simp add: frame_defs eval_defs)
  show ?thesis using fr v c d by simp
qed

text \<open>
  C9 as the code has it: when the container holds a compressor table and a chunk size
  table and no child at all, the Chunk Offset Table included, implies a non-zero
  chunk count, \<^verbatim>\<open>HapDecode\<close> returns \<^verbatim>\<open>HapResult_No_Error\<close>, reports 0 bytes and
  does not call the callback.
\<close>

theorem HapDecode_no_chunks:
  assumes v: "valid_complex_frame hl_t f hl_d children frame_data"
    and c: "\<exists>s \<in> set children. (ucast (fst (snd s)) :: uint32_t)
                      = kHapSectionChunkSecondStageCompressorTable"
    and z: "\<exists>s \<in> set children. (ucast (fst (snd s)) :: uint32_t) = kHapSectionChunkSizeTable"
    and none: "\<forall>s \<in> set children. implied_chunk_count s = 0"
  shows "HapDecode S (Ptr (complex_frame hl_t f hl_d children frame_data))
           (of_nat (length (complex_frame hl_t f hl_d children frame_data)))
           (Ptr dispatch) (Ptr out) cap used (Ptr tf) =
         Some \<lparr>returned = HapResult_No_Error, outputBuffer_after = Ptr out,
                outputBufferBytesUsed_after = (case used of NULL \<Rightarrow> NULL | Ptr _ \<Rightarrow> Ptr 0),
                outputBufferTextureFormat_after = Ptr (Enum f),
                callback_calls = 0\<rparr>"
proof -
  let ?init = "\<lparr>compressors = NULL, chunk_sizes = NULL, chunk_offsets = NULL,
                chunk_count = 0\<rparr>"
  from scan_children_no_counts [OF none, of frame_data ?init]
  obtain t where t: "scan_children children frame_data ?init = Inr t" ..
  from scan_children_counts [OF t] none have n: "chunk_count t = 0" by simp
  from scan_children_tables [OF t] c z
  obtain ct st where p: "compressors t = Ptr ct" "chunk_sizes t = Ptr st"
    by (cases "compressors t"; cases "chunk_sizes t") auto
  have "hap_decode_complex S
           (section_bytes (hl_d, 1, concat (map section_bytes children)) @ frame_data)
           (of_nat (length (complex_frame hl_t f hl_d children frame_data)))
           (ucast hl_t) dispatch out cap = Some (HapResult_No_Error, out, 0, 0)"
    by (simp add: hap_decode_complex_def hap_decode_instructions_frame [OF v] t p n)
  then show ?thesis
    by (simp add: HapDecode_complex_frame [OF v])
qed

theorem HapDecode_no_chunks_witness:
  "complex_frame 4 HapTextureFormat_YCoCg_DXT5 4 [(8, 2, []), (4, 3, [0, 0, 0])] []
     = [19, 0, 0, 0xCF, 15, 0, 0, 1, 0, 0, 0, 2, 0, 0, 0, 0, 3, 0, 0, 3, 0, 0, 0]
   \<and> HapDecode run_length_codec
        (Ptr [19, 0, 0, 0xCF, 15, 0, 0, 1, 0, 0, 0, 2, 0, 0, 0, 0, 3, 0, 0, 3, 0, 0, 0])
        23 (Ptr every_chunk_once) (Ptr [7, 7]) 2 (Ptr 9) (Ptr Unrecognised)
     = Some \<lparr>returned = HapResult_No_Error, outputBuffer_after = Ptr [7, 7],
             outputBufferBytesUsed_after = Ptr 0,
             outputBufferTextureFormat_after = Ptr (Enum HapTextureFormat_YCoCg_DXT5),
             callback_calls = 0\<rparr>"
proof -
  have fr: "complex_frame 4 HapTextureFormat_YCoCg_DXT5 4 [(8, 2, []), (4, 3, [0, 0, 0])] []
     = [19, 0, 0, 0xCF, 15, 0, 0, 1, 0, 0, 0, 2, 0, 0, 0, 0, 3, 0, 0, 3, 0, 0, 0]"
    by (simp add: frame_defs eval_defs)
  have v: "valid_complex_frame 4 HapTextureFormat_YCoCg_DXT5 4
             [(8, 2, []), (4, 3, [0, 0, 0])] []"
    unfolding valid_complex_frame_def fr by (simp add: frame_defs eval_defs)
  show ?thesis
    using HapDecode_no_chunks [OF v, of run_length_codec every_chunk_once
        "[7, 7]" 2 "Ptr 9" Unrecognised, unfolded fr] fr
    by (simp add: implied_chunk_count_def kHapSectionChunkSecondStageCompressorTable_def
        kHapSectionChunkSizeTable_def kHapSectionChunkOffsetTable_def)
qed

section \<open>C5: a destination too small for the chunks\<close>

text \<open>
  C5. First: take a Complex frame whose container describes a non-empty list of
  chunks, with or without an offset table, the children in any order and among any
  other sections, followed by any chunk data. When the descriptor array is allocated,
  the length query of every Snappy chunk succeeds, and the uncompressed sizes of the
  chunks add up to more than the capacity, \<^verbatim>\<open>HapDecode\<close> returns
  \<^verbatim>\<open>HapResult_Buffer_Too_Small\<close>, the destination and the byte count are as they
  were and the callback has not been called. There are at most \<open>2 ^ 29\<close> chunks: the
  loop index is an \<^verbatim>\<open>int\<close> that the code multiplies by 4. The sum is taken in the
  natural numbers and is assumed to be below \<open>2 ^ 64\<close>, as it is when every reported
  length is a 32-bit number. Second: whenever \<^verbatim>\<open>HapDecode\<close> returns
  \<^verbatim>\<open>HapResult_Buffer_Too_Small\<close> on the Complex branch, on any input, the callback
  has not been called, the destination holds what it held and the byte count is not
  written: the test comes after the descriptors and before any decompression, and no
  later step returns this status.
\<close>

theorem HapDecode_complex_Buffer_Too_Small:
  "(valid_complex_frame hl_t f hl_d children frame_data
      \<and> describes_chunks children chunks offsets
      \<and> chunks \<noteq> [] \<and> length chunks \<le> 2 ^ 29
      \<and> malloc_succeeds S (40 * of_nat (length chunks))
      \<and> list_all (\<lambda>r. fst r = SNAPPY_OK)
            (chunk_uncompressed_sizes S frame_data chunks offsets)
      \<and> (\<Sum>r\<leftarrow>chunk_uncompressed_sizes S frame_data chunks offsets. unat (snd r)) < 2 ^ 64
      \<and> unat cap
          < (\<Sum>r\<leftarrow>chunk_uncompressed_sizes S frame_data chunks offsets. unat (snd r))
    \<longrightarrow> HapDecode S (Ptr (complex_frame hl_t f hl_d children frame_data))
          (of_nat (length (complex_frame hl_t f hl_d children frame_data)))
          (Ptr dispatch) (Ptr out) cap used (Ptr tf)
        = Some \<lparr>returned = HapResult_Buffer_Too_Small, outputBuffer_after = Ptr out,
                outputBufferBytesUsed_after = used,
                outputBufferTextureFormat_after = Ptr (Enum f),
                callback_calls = 0\<rparr>)
   \<and> (\<forall>h r. hap_read_section_header input (ucast inputBufferBytes) = Inr h
          \<and> hap_top_4_bits (out_section_type h) = kHapCompressorComplex
          \<and> HapDecode S (Ptr input) inputBufferBytes (Ptr dispatch) (Ptr out)
                outputBufferBytes used (Ptr tf) = Some r
          \<and> returned r = HapResult_Buffer_Too_Small
        \<longrightarrow> outputBuffer_after r = Ptr out \<and> callback_calls r = 0
            \<and> outputBufferBytesUsed_after r = used)"
proof (rule conjI; intro allI impI)
  assume a: "valid_complex_frame hl_t f hl_d children frame_data
      \<and> describes_chunks children chunks offsets
      \<and> chunks \<noteq> [] \<and> length chunks \<le> 2 ^ 29
      \<and> malloc_succeeds S (40 * of_nat (length chunks))
      \<and> list_all (\<lambda>r. fst r = SNAPPY_OK)
            (chunk_uncompressed_sizes S frame_data chunks offsets)
      \<and> (\<Sum>r\<leftarrow>chunk_uncompressed_sizes S frame_data chunks offsets. unat (snd r)) < 2 ^ 64
      \<and> unat cap
          < (\<Sum>r\<leftarrow>chunk_uncompressed_sizes S frame_data chunks offsets. unat (snd r))"
  then have v: "valid_complex_frame hl_t f hl_d children frame_data"
    by simp
  from a have "hap_decode_complex S
           (section_bytes (hl_d, 1, concat (map section_bytes children)) @ frame_data)
           (of_nat (length (complex_frame hl_t f hl_d children frame_data)))
           (ucast hl_t) dispatch out cap = Some (HapResult_Buffer_Too_Small, out, 0, 0)"
    by (intro hap_decode_complex_chunks [where chunks = chunks and offsets = offsets])
       simp_all
  then show "HapDecode S (Ptr (complex_frame hl_t f hl_d children frame_data))
          (of_nat (length (complex_frame hl_t f hl_d children frame_data)))
          (Ptr dispatch) (Ptr out) cap used (Ptr tf)
        = Some \<lparr>returned = HapResult_Buffer_Too_Small, outputBuffer_after = Ptr out,
                outputBufferBytesUsed_after = used,
                outputBufferTextureFormat_after = Ptr (Enum f),
                callback_calls = 0\<rparr>"
    by (simp add: HapDecode_complex_frame [OF v])
next
  fix h r
  assume "hap_read_section_header input (ucast inputBufferBytes) = Inr h
          \<and> hap_top_4_bits (out_section_type h) = kHapCompressorComplex
          \<and> HapDecode S (Ptr input) inputBufferBytes (Ptr dispatch) (Ptr out)
                outputBufferBytes used (Ptr tf) = Some r
          \<and> returned r = HapResult_Buffer_Too_Small"
  then show "outputBuffer_after r = Ptr out \<and> callback_calls r = 0
            \<and> outputBufferBytesUsed_after r = used"
    by (intro HapDecode_Buffer_Too_Small_untouched [of input inputBufferBytes h S dispatch out
          outputBufferBytes used tf r]) simp_all
qed

theorem HapDecode_complex_Buffer_Too_Small_witness:
  "complex_frame 4 HapTextureFormat_RGB_DXT1 4
       [(4, 3, [2, 0, 0, 0, 2, 0, 0, 0]), (4, 4, [2, 0, 0, 0, 0, 0, 0, 0]),
        (4, 2, [0xB, 0xA])] [1, 2, 3, 9]
     = [38, 0, 0, 0xCB, 30, 0, 0, 1, 8, 0, 0, 3, 2, 0, 0, 0, 2, 0, 0, 0,
          8, 0, 0, 4, 2, 0, 0, 0, 0, 0, 0, 0, 2, 0, 0, 2, 0xB, 0xA, 1, 2, 3, 9]
   \<and> describes_chunks
       [(4, 3, [2, 0, 0, 0, 2, 0, 0, 0]), (4, 4, [2, 0, 0, 0, 0, 0, 0, 0]),
        (4, 2, [0xB, 0xA])] [(0xB, 2), (0xA, 2)] (Some [2, 0])
   \<and> chunk_uncompressed_sizes run_length_codec [1, 2, 3, 9] [(0xB, 2), (0xA, 2)] (Some [2, 0])
     = [(SNAPPY_OK, 3), (SNAPPY_OK, 2)]
   \<and> HapDecode run_length_codec
       (Ptr [38, 0, 0, 0xCB, 30, 0, 0, 1, 8, 0, 0, 3, 2, 0, 0, 0, 2, 0, 0, 0,
          8, 0, 0, 4, 2, 0, 0, 0, 0, 0, 0, 0, 2, 0, 0, 2, 0xB, 0xA, 1, 2, 3, 9])
       42 (Ptr every_chunk_once) (Ptr [0, 0, 0, 0]) 4 (Ptr 9) (Ptr Unrecognised)
     = Some \<lparr>returned = HapResult_Buffer_Too_Small, outputBuffer_after = Ptr [0, 0, 0, 0],
             outputBufferBytesUsed_after = Ptr 9,
             outputBufferTextureFormat_after = Ptr (Enum HapTextureFormat_RGB_DXT1),
             callback_calls = 0\<rparr>
   \<and> HapDecode run_length_codec
       (Ptr [38, 0, 0, 0xCB, 30, 0, 0, 1, 8, 0, 0, 3, 2, 0, 0, 0, 2, 0, 0, 0,
          8, 0, 0, 4, 2, 0, 0, 0, 0, 0, 0, 0, 2, 0, 0, 2, 0xB, 0xA, 1, 2, 3, 9])
       42 (Ptr every_chunk_once) (Ptr [0, 0, 0, 0, 0]) 5 (Ptr 9) (Ptr Unrecognised)
     = Some \<lparr>returned = HapResult_No_Error, outputBuffer_after = Ptr [9, 9, 9, 1, 2],
             outputBufferBytesUsed_after = Ptr 5,
             outputBufferTextureFormat_after = Ptr (Enum HapTextureFormat_RGB_DXT1),
             callback_calls = 1\<rparr>"
proof -
  let ?F = "[38, 0, 0, 0xCB, 30, 0, 0, 1, 8, 0, 0, 3, 2, 0, 0, 0, 2, 0, 0, 0,
          8, 0, 0, 4, 2, 0, 0, 0, 0, 0, 0, 0, 2, 0, 0, 2, 0xB, 0xA, 1, 2, 3, 9] :: uint8_t list"
  let ?children = "[(4, 3, [2, 0, 0, 0, 2, 0, 0, 0]), (4, 4, [2, 0, 0, 0, 0, 0, 0, 0]),
        (4, 2, [0xB, 0xA])] :: child_section list"
  have fr: "complex_frame 4 HapTextureFormat_RGB_DXT1 4 ?children [1, 2, 3, 9] = ?F"
    by (simp add: frame_defs eval_defs)
  have v: "valid_complex_frame 4 HapTextureFormat_RGB_DXT1 4 ?children [1, 2, 3, 9]"
    unfolding valid_complex_frame_def fr by (simp add: frame_defs eval_defs)
  have d: "describes_chunks ?children [(0xB, 2), (0xA, 2)] (Some [2, 0])"
    by (simp add: describes_chunks_def holds_table_def chunk_compressor_table_def
        chunk_size_table_def chunk_offset_table_def hap_write_4_byte_uint_def
        kHapSectionChunkSecondStageCompressorTable_def kHapSectionChunkSizeTable_def
        kHapSectionChunkOffsetTable_def)
  have sizes: "chunk_uncompressed_sizes run_length_codec [1, 2, 3, 9] [(0xB, 2), (0xA, 2)]
                 (Some [2, 0])
     = [(SNAPPY_OK, 3), (SNAPPY_OK, 2)]"
    by (simp add: chunk_uncompressed_sizes_def chunk_locations_def chunk_uncompressed_size_def
        run_length_codec_def kHapCompressorSnappy_def)
  have small: "HapDecode run_length_codec (Ptr ?F) 42 (Ptr every_chunk_once) (Ptr [0, 0, 0, 0]) 4
       (Ptr 9) (Ptr Unrecognised)
     = Some \<lparr>returned = HapResult_Buffer_Too_Small, outputBuffer_after = Ptr [0, 0, 0, 0],
             outputBufferBytesUsed_after = Ptr 9,
             outputBufferTextureFormat_after = Ptr (Enum HapTextureFormat_RGB_DXT1),
             callback_calls = 0\<rparr>"
    using HapDecode_complex_Buffer_Too_Small [THEN conjunct1, rule_format,
        of 4 HapTextureFormat_RGB_DXT1 4 ?children "[1, 2, 3, 9]" "[(0xB, 2), (0xA, 2)]"
          "Some [2, 0]" run_length_codec 4 every_chunk_once "[0, 0, 0, 0]" "Ptr 9"
          Unrecognised]
      v d sizes
    by (simp add: fr) (simp add: run_length_codec_def)
  have inst: "hap_decode_instructions (drop 4 ?F) 42 4
      = Inr (\<lparr>compressors = Ptr [0xB, 0xA, 1, 2, 3, 9],
              chunk_sizes = Ptr [2, 0, 0, 0, 2, 0, 0, 0, 8, 0, 0, 4, 2, 0, 0, 0, 0, 0, 0, 0,
                                 2, 0, 0, 2, 0xB, 0xA, 1, 2, 3, 9],
              chunk_offsets = Ptr [2, 0, 0, 0, 0, 0, 0, 0, 2, 0, 0, 2, 0xB, 0xA, 1, 2, 3, 9],
              chunk_count = 2\<rparr>, [1, 2, 3, 9])"
    using hap_decode_instructions_frame [OF v, unfolded fr]
    by (simp add: frame_defs eval_defs Let_def)
  have loop: "hap_chunk_info_loop run_length_codec [0xB, 0xA, 1, 2, 3, 9]
        [2, 0, 0, 0, 2, 0, 0, 0, 8, 0, 0, 4, 2, 0, 0, 0, 0, 0, 0, 0,
         2, 0, 0, 2, 0xB, 0xA, 1, 2, 3, 9]
        (Ptr [2, 0, 0, 0, 0, 0, 0, 0, 2, 0, 0, 2, 0xB, 0xA, 1, 2, 3, 9]) [1, 2, 3, 9] 0 2 0 0 []
     = Inr ([\<lparr>result = None, compressor = 0xB, compressed_chunk_data = [3, 9],
             compressed_chunk_size = 2, uncompressed_chunk_data = 0,
             uncompressed_chunk_size = 3\<rparr>,
           \<lparr>result = None, compressor = 0xA, compressed_chunk_data = [1, 2, 3, 9],
             compressed_chunk_size = 2, uncompressed_chunk_data = 3,
             uncompressed_chunk_size = 2\<rparr>], 5)"
    by (simp add: hap_chunk_info_loop_step hap_chunk_info_loop_done hap_read_4_byte_uint_def
        Let_def kHapCompressorSnappy_def run_length_codec_def)
  have idx: "every_chunk_once 2 = [0, 1]"
    by (simp add: every_chunk_once_def upt_rec)
  have rep: "replicate 3 (9 :: uint8_t) = [9, 9, 9]"
    by (simp add: numeral_3_eq_3)
  have run: "hap_decode_complex run_length_codec (drop 4 ?F) 42 4 every_chunk_once
               [0, 0, 0, 0, 0] 5 = Some (HapResult_No_Error, [9, 9, 9, 1, 2], 1, 5)"
    using inst loop
    by (simp add: hap_decode_complex_def run_length_codec_def idx hap_decode_chunk_def
        Let_def load_def store_def kHapCompressorSnappy_def kHapCompressorNone_def
        run_length_decoded_def rep)
  have big: "HapDecode run_length_codec (Ptr ?F) 42 (Ptr every_chunk_once)
       (Ptr [0, 0, 0, 0, 0]) 5 (Ptr 9) (Ptr Unrecognised)
     = Some \<lparr>returned = HapResult_No_Error, outputBuffer_after = Ptr [9, 9, 9, 1, 2],
             outputBufferBytesUsed_after = Ptr 5,
             outputBufferTextureFormat_after = Ptr (Enum HapTextureFormat_RGB_DXT1),
             callback_calls = 1\<rparr>"
    using HapDecode_complex_frame [OF v, unfolded fr, of run_length_codec every_chunk_once
        "[0, 0, 0, 0, 0]" 5 "Ptr 9" Unrecognised] run
    by (simp add: frame_defs eval_defs)
  show ?thesis using small sizes big fr d by simp
qed

end
